(* ===== verification/Uoscore_Prelude.thy ===== *)
theory Uoscore_Prelude
  imports Main "HOL-Library.Word"
begin

text \<open>
  Shared vocabulary of the uOSCORE / uEDHOC development: the integer types of the C code,
  the error codes of \<^verbatim>\<open>inc/common/oscore_edhoc_error.h\<close>, the outcome of a C function, the
  \<^verbatim>\<open>TRY\<close> macros, pointers and buffers, counted loops over arrays, and the lemma
  collections the components rely on.

  Outcomes. A function of type \<^verbatim>\<open>enum err\<close> is modelled by a function into \<open>'a res\<close>:
  \<open>Ok x\<close> for \<^verbatim>\<open>return ok\<close> with the results \<open>x\<close> left in its output parameters,
  \<open>Fail e\<close> for \<^verbatim>\<open>return e\<close>, and \<open>Undef\<close> for an execution the C standard gives no meaning
  to: a read or write outside an object, or through a null pointer.

  Pointers. A pointer is \<open>None\<close> (null) or \<open>Some bs\<close>, where \<open>bs\<close> are the bytes that can be
  read from it up to the end of the object it points into.  Advancing a pointer past the
  end of its object is harmless (it leaves \<open>Some []\<close>); reading through it is \<open>Undef\<close>.
  A copy of zero bytes reads nothing, whatever the pointer.
\<close>

unbundle bit_operations_syntax

section \<open>Lemma collections\<close>

named_theorems res_simps \<open>rewriting of outcomes and of the TRY macros\<close>
named_theorems keeping \<open>functions that keep an invariant of the structure they change\<close>
named_theorems mem_simps \<open>reads and writes inside the bounds of an object\<close>

section \<open>Integer types\<close>

type_synonym u8 = "8 word"
type_synonym u16 = "16 word"
type_synonym u32 = "32 word"
type_synonym u64 = "64 word"
type_synonym bytes = "u8 list"

section \<open>Error codes\<close>

text \<open>The constructors of \<^verbatim>\<open>enum err\<close>, less \<^verbatim>\<open>ok\<close>, which is the constructor \<open>Ok\<close> of
  outcomes.\<close>

datatype err =
    buffer_to_small
  | hkdf_fialed
  | unexpected_result_from_ext_lib
  | wrong_parameter
  | crypto_operation_not_implemented
  | error_message_received
  | error_message_sent
  | sign_failed
  | sha_failed
  | unsupported_cipher_suite
  | unsupported_ecdh_curve
  | unsupported_signature_algorithm
  | signature_authentication_failed
  | mac_authentication_failed
  | certificate_authentication_failed
  | credential_not_found
  | no_such_ca
  | cbor_encoding_error
  | suites_i_list_to_long
  | oscore_unknown_hkdf
  | oscore_invalid_algorithm_aead
  | oscore_invalid_algorithm_hkdf
  | oscore_kid_recipent_id_mismatch
  | oscore_valuelen_to_long_error
  | oscore_inpkt_invalid_tkl
  | oscore_inpkt_invalid_option_delta
  | oscore_inpkt_invalid_optionlen
  | oscore_inpkt_invalid_piv
  | delta_extra_byte_error
  | len_extra_byte_error
  | not_valid_input_packet
  | replayed_packed_received

section \<open>Outcomes and the TRY macros\<close>

datatype 'a res = Ok 'a | Fail err | Undef

fun TRY :: "'a res \<Rightarrow> ('a \<Rightarrow> 'b res) \<Rightarrow> 'b res" where
  "TRY (Ok a) f = f a"
| "TRY (Fail e) f = Fail e"
| "TRY Undef f = Undef"

text \<open>\<^verbatim>\<open>TRY_EXPECT(x, expected)\<close> around a library call: \<open>None\<close> stands for any other
  return value of the call, \<open>Some a\<close> for the expected one and its outputs.\<close>

fun TRY_EXPECT :: "'a option \<Rightarrow> ('a \<Rightarrow> 'b res) \<Rightarrow> 'b res" where
  "TRY_EXPECT (Some a) f = f a"
| "TRY_EXPECT None f = Fail unexpected_result_from_ext_lib"

lemma TRY_cong [fundef_cong]:
  "m = m' \<Longrightarrow> (\<And>a. m' = Ok a \<Longrightarrow> f a = f' a) \<Longrightarrow> TRY m f = TRY m' f'"
  by (cases m') auto

lemma TRY_assoc [res_simps]: "TRY (TRY m f) g = TRY m (\<lambda>a. TRY (f a) g)"
  by (cases m) auto

lemma TRY_Ok_right [simp]: "TRY m Ok = m"
  by (cases m) auto

lemma TRY_eq_Ok [res_simps]: "TRY m f = Ok b \<longleftrightarrow> (\<exists>a. m = Ok a \<and> f a = Ok b)"
  by (cases m) auto

lemma TRY_eq_Fail [res_simps]:
  "TRY m f = Fail e \<longleftrightarrow> m = Fail e \<or> (\<exists>a. m = Ok a \<and> f a = Fail e)"
  by (cases m) auto

lemma TRY_eq_Undef [res_simps]:
  "TRY m f = Undef \<longleftrightarrow> m = Undef \<or> (\<exists>a. m = Ok a \<and> f a = Undef)"
  by (cases m) auto

lemma TRY_EXPECT_eq_Ok [res_simps]:
  "TRY_EXPECT x f = Ok b \<longleftrightarrow> (\<exists>a. x = Some a \<and> f a = Ok b)"
  by (cases x) auto

lemma TRY_EXPECT_eq_Undef [res_simps]:
  "TRY_EXPECT x f = Undef \<longleftrightarrow> (\<exists>a. x = Some a \<and> f a = Undef)"
  by (cases x) auto

text \<open>Outcomes are ordered by definedness: \<open>Undef\<close> lies below everything, so \<open>r \<le> Ok x\<close>
  reads ``wherever the execution is defined, it returns \<open>x\<close>''.\<close>

instantiation res :: (type) order_bot
begin

definition bot_res :: "'a res" where
  "bot_res = Undef"

definition less_eq_res :: "'a res \<Rightarrow> 'a res \<Rightarrow> bool" where
  "less_eq_res r s \<longleftrightarrow> r = Undef \<or> r = s"

definition less_res :: "'a res \<Rightarrow> 'a res \<Rightarrow> bool" where
  "less_res r s \<longleftrightarrow> r = Undef \<and> s \<noteq> Undef"

instance
  by standard (auto simp: bot_res_def less_eq_res_def less_res_def)

end

lemma res_le_iff: "r \<le> s \<longleftrightarrow> r \<noteq> Undef \<longrightarrow> r = s" for r s :: "'a res"
  by (auto simp: less_eq_res_def)

lemma TRY_mono: "m \<le> m' \<Longrightarrow> (\<And>a. f a \<le> f' a) \<Longrightarrow> TRY m f \<le> TRY m' f'"
  by (cases m; cases m') (auto simp: less_eq_res_def)

text \<open>Whether an outcome is a success, as an executable test.\<close>

fun is_Ok :: "'a res \<Rightarrow> bool" where
  "is_Ok (Ok a) \<longleftrightarrow> True"
| "is_Ok (Fail e) \<longleftrightarrow> False"
| "is_Ok Undef \<longleftrightarrow> False"

lemma is_OkE: "is_Ok r \<Longrightarrow> (\<And>a. r = Ok a \<Longrightarrow> P) \<Longrightarrow> P"
  by (cases r) auto

section \<open>Functions that change a structure passed by reference\<close>

text \<open>Where a C function changes a structure before it fails, the caller sees the change.
  Such a function is modelled by a function from the old structure to the outcome and the
  new structure; \<open>TRYS\<close> is the \<^verbatim>\<open>TRY\<close> macro for it.\<close>

type_synonym ('s, 'a) act = "'s \<Rightarrow> 'a res \<times> 's"

definition TRYS :: "('s, 'a) act \<Rightarrow> ('a \<Rightarrow> ('s, 'b) act) \<Rightarrow> ('s, 'b) act" where
  "TRYS m f = (\<lambda>s. case m s of
     (Ok a, s') \<Rightarrow> f a s'
   | (Fail e, s') \<Rightarrow> (Fail e, s')
   | (Undef, s') \<Rightarrow> (Undef, s'))"

definition liftS :: "'a res \<Rightarrow> ('s, 'a) act" where
  "liftS r = (\<lambda>s. (r, s))"

definition getS :: "('s \<Rightarrow> 'a) \<Rightarrow> ('s, 'a) act" where
  "getS g = (\<lambda>s. (Ok (g s), s))"

definition setS :: "('s \<Rightarrow> 's) \<Rightarrow> ('s, unit) act" where
  "setS u = (\<lambda>s. (Ok (), u s))"

lemma TRYS_run [res_simps]:
  "m s = (Ok a, s') \<Longrightarrow> TRYS m f s = f a s'"
  "m s = (Fail e, s') \<Longrightarrow> TRYS m f s = (Fail e, s')"
  "m s = (Undef, s') \<Longrightarrow> TRYS m f s = (Undef, s')"
  by (simp_all add: TRYS_def)

lemma TRYS_liftS [res_simps]:
  "TRYS (liftS r) f s =
     (case r of Ok a \<Rightarrow> f a s | Fail e \<Rightarrow> (Fail e, s) | Undef \<Rightarrow> (Undef, s))"
  by (cases r) (simp_all add: TRYS_def liftS_def)

lemma TRYS_getS [res_simps]: "TRYS (getS g) f s = f (g s) s"
  by (simp add: TRYS_def getS_def)

lemma TRYS_setS [res_simps]: "TRYS (setS u) f s = f () (u s)"
  by (simp add: TRYS_def setS_def)

lemma TRYS_eq_Ok [res_simps]:
  "TRYS m f s = (Ok b, t) \<longleftrightarrow> (\<exists>a s'. m s = (Ok a, s') \<and> f a s' = (Ok b, t))"
  by (auto simp: TRYS_def split: prod.splits res.splits)

lemma step_eq_Ok [res_simps]:
  "liftS r s = (Ok a, t) \<longleftrightarrow> r = Ok a \<and> t = s"
  "getS g s = (Ok b, t) \<longleftrightarrow> b = g s \<and> t = s"
  "setS u s = (Ok c, t) \<longleftrightarrow> t = u s"
  by (auto simp: liftS_def getS_def setS_def)

text \<open>\<open>ensures P m Q E\<close>: started in a state with \<open>P\<close>, the function either succeeds with a
  result and a state related by \<open>Q\<close>, or ends, with an error or undefined, in a state with
  \<open>E\<close>.\<close>

definition ensures ::
    "('s \<Rightarrow> bool) \<Rightarrow> ('s, 'a) act \<Rightarrow> ('a \<Rightarrow> 's \<Rightarrow> bool) \<Rightarrow> ('s \<Rightarrow> bool) \<Rightarrow> bool" where
  "ensures P m Q E \<longleftrightarrow> (\<forall>s. P s \<longrightarrow> (case m s of
     (Ok a, s') \<Rightarrow> Q a s' | (Fail e, s') \<Rightarrow> E s' | (Undef, s') \<Rightarrow> E s'))"

lemma ensures_TRYS:
  assumes "ensures P m R E" and "\<And>a. ensures (R a) (f a) Q E"
  shows "ensures P (TRYS m f) Q E"
  unfolding ensures_def
proof (intro allI impI)
  fix s assume P: "P s"
  obtain r s' where ms: "m s = (r, s')" by fastforce
  show "case TRYS m f s of (Ok a, s') \<Rightarrow> Q a s' | (Fail e, s') \<Rightarrow> E s' | (Undef, s') \<Rightarrow> E s'"
    using assms P ms unfolding ensures_def TRYS_def by (cases r) fastforce+
qed

lemma ensures_liftS:
  "(\<And>s a. P s \<Longrightarrow> r = Ok a \<Longrightarrow> Q a s) \<Longrightarrow> (\<And>s. P s \<Longrightarrow> E s) \<Longrightarrow> ensures P (liftS r) Q E"
  by (auto simp: ensures_def liftS_def split: res.split)

lemma ensures_read:
  "(\<And>s a. P s \<Longrightarrow> g s = Ok a \<Longrightarrow> Q a s) \<Longrightarrow> (\<And>s. P s \<Longrightarrow> E s) \<Longrightarrow>
   ensures P (\<lambda>s. liftS (g s) s) Q E"
  by (auto simp: ensures_def liftS_def split: res.split)

lemma ensures_getS: "(\<And>s. P s \<Longrightarrow> Q (g s) s) \<Longrightarrow> ensures P (getS g) Q E"
  by (auto simp: ensures_def getS_def)

lemma ensures_setS: "(\<And>s. P s \<Longrightarrow> Q () (u s)) \<Longrightarrow> ensures P (setS u) Q E"
  by (auto simp: ensures_def setS_def)

lemma ensures_if:
  "(b \<Longrightarrow> ensures P m Q E) \<Longrightarrow> (\<not> b \<Longrightarrow> ensures P m' Q E) \<Longrightarrow> ensures P (if b then m else m') Q E"
  by simp

lemma ensures_weaken:
  "ensures P m Q E \<Longrightarrow> (\<And>s. P' s \<Longrightarrow> P s) \<Longrightarrow> (\<And>a s. Q a s \<Longrightarrow> Q' a s) \<Longrightarrow> (\<And>s. E s \<Longrightarrow> E' s) \<Longrightarrow>
   ensures P' m Q' E'"
  unfolding ensures_def by (fastforce split: prod.splits res.splits)

lemma ensuresD:
  "ensures P m Q E \<Longrightarrow> P s \<Longrightarrow> m s = (Ok a, s') \<Longrightarrow> Q a s'"
  "ensures P m Q E \<Longrightarrow> P s \<Longrightarrow> m s = (Fail e, s') \<Longrightarrow> E s'"
  "ensures P m Q E \<Longrightarrow> P s \<Longrightarrow> m s = (Undef, s') \<Longrightarrow> E s'"
  unfolding ensures_def by force+

text \<open>An invariant of a function holds afterwards in every case.\<close>

definition keeps :: "('s \<Rightarrow> bool) \<Rightarrow> ('s, 'a) act \<Rightarrow> bool" where
  "keeps I m \<longleftrightarrow> ensures I m (\<lambda>_. I) I"

lemma keepsI: "(\<And>s. I s \<Longrightarrow> I (snd (m s))) \<Longrightarrow> keeps I m"
  unfolding keeps_def ensures_def by (force split: prod.splits res.splits)

lemma keepsD: "keeps I m \<Longrightarrow> I s \<Longrightarrow> I (snd (m s))"
  unfolding keeps_def ensures_def by (cases "m s"; cases "fst (m s)") fastforce+

lemma keeps_TRYS [keeping]: "keeps I m \<Longrightarrow> (\<And>a. keeps I (f a)) \<Longrightarrow> keeps I (TRYS m f)"
  unfolding keeps_def by (rule ensures_TRYS)

lemma keeps_liftS [keeping]: "keeps I (liftS r)"
  by (rule keepsI) (simp add: liftS_def)

lemma keeps_read [keeping]: "keeps I (\<lambda>s. liftS (g s) s)"
  by (rule keepsI) (simp add: liftS_def)

lemma keeps_getS [keeping]: "keeps I (getS g)"
  by (rule keepsI) (simp add: getS_def)

lemma keeps_setS: "(\<And>s. I s \<Longrightarrow> I (u s)) \<Longrightarrow> keeps I (setS u)"
  by (rule keepsI) (simp add: setS_def)

lemma keeps_if [keeping]: "keeps I m \<Longrightarrow> keeps I m' \<Longrightarrow> keeps I (if b then m else m')"
  by simp

text \<open>The continuation need only keep the invariant for the values the first step can return.\<close>

lemma keeps_lift_then: "(\<And>a. r = Ok a \<Longrightarrow> keeps I (f a)) \<Longrightarrow> keeps I (TRYS (liftS r) f)"
  by (rule keepsI) (cases r; simp add: TRYS_liftS keepsD)

lemma keeps_read_then:
  "(\<And>s a. I s \<Longrightarrow> g s = Ok a \<Longrightarrow> I (snd (f a s))) \<Longrightarrow> keeps I (\<lambda>s. TRYS (liftS (g s)) f s)"
  by (rule keepsI) (auto simp: TRYS_liftS split: res.split)

section \<open>Pointers and buffers\<close>

type_synonym ptr = "bytes option"

definition deref :: "ptr \<Rightarrow> u8 res" where
  "deref p = (case p of Some (b # _) \<Rightarrow> Ok b | _ \<Rightarrow> Undef)"

definition advance :: "ptr \<Rightarrow> nat \<Rightarrow> ptr" where
  "advance p n = map_option (drop n) p"

definition read_mem :: "ptr \<Rightarrow> nat \<Rightarrow> bytes res" where
  "read_mem p n =
     (if n = 0 then Ok []
      else case p of None \<Rightarrow> Undef
           | Some bs \<Rightarrow> if n \<le> length bs then Ok (take n bs) else Undef)"

text \<open>Writing \<open>bs\<close> at offset \<open>off\<close> of the object \<open>dest\<close>; the offset is an \<open>int\<close> because
  the code computes some of them by subtraction.\<close>

definition write_mem :: "bytes \<Rightarrow> int \<Rightarrow> bytes \<Rightarrow> bytes res" where
  "write_mem dest off bs =
     (if 0 \<le> off \<and> nat off + length bs \<le> length dest
      then Ok (take (nat off) dest @ bs @ drop (nat off + length bs) dest)
      else Undef)"

definition arr_get :: "'a list \<Rightarrow> nat \<Rightarrow> 'a res" where
  "arr_get arr i = (if i < length arr then Ok (arr ! i) else Undef)"

definition arr_set :: "'a list \<Rightarrow> nat \<Rightarrow> 'a \<Rightarrow> 'a list res" where
  "arr_set arr i x = (if i < length arr then Ok (arr[i := x]) else Undef)"

lemma deref_simps [simp, mem_simps]:
  "deref None = Undef" "deref (Some []) = Undef" "deref (Some (b # bs)) = Ok b"
  by (simp_all add: deref_def)

lemma advance_simps [simp, mem_simps]:
  "advance None n = None" "advance (Some bs) n = Some (drop n bs)"
  by (simp_all add: advance_def)

lemma advance_0 [simp]: "advance p 0 = p"
  by (cases p) auto

lemma advance_advance [simp]: "advance (advance p m) n = advance p (m + n)"
  by (cases p) (auto simp: add.commute)

lemma read_mem_0 [simp, mem_simps]: "read_mem p 0 = Ok []"
  by (simp add: read_mem_def)

lemma read_mem_in [simp, mem_simps]: "n \<le> length bs \<Longrightarrow> read_mem (Some bs) n = Ok (take n bs)"
  by (auto simp: read_mem_def)

lemma read_mem_out: "length bs < n \<Longrightarrow> read_mem (Some bs) n = Undef"
  by (auto simp: read_mem_def)

lemma read_mem_Ok_length: "read_mem p n = Ok bs \<Longrightarrow> length bs = n"
  by (auto simp: read_mem_def split: if_splits option.splits)

text \<open>The bytes a pointer gives access to, cut to a length, and whether there are as many.\<close>

definition mem_bytes :: "ptr \<Rightarrow> nat \<Rightarrow> bytes" where
  "mem_bytes p n = (case p of None \<Rightarrow> [] | Some bs \<Rightarrow> take n bs)"

definition mem_ok :: "ptr \<Rightarrow> nat \<Rightarrow> bool" where
  "mem_ok p n \<longleftrightarrow> length (mem_bytes p n) = n"

lemma mem_bytes_simps [simp]: "mem_bytes None n = []" "mem_bytes (Some bs) n = take n bs"
  by (simp_all add: mem_bytes_def)

lemma mem_bytes_0 [simp]: "mem_bytes p 0 = []"
  by (cases p) simp_all

lemma mem_ok_length [simp]: "mem_ok p n \<Longrightarrow> length (mem_bytes p n) = n"
  by (simp add: mem_ok_def)

lemma mem_ok_simps [simp]: "mem_ok p 0" "mem_ok (Some bs) n \<longleftrightarrow> n \<le> length bs"
  "mem_ok None n \<longleftrightarrow> n = 0"
  by (auto simp: mem_ok_def min_def)

lemma read_mem_ok [simp]: "mem_ok p n \<Longrightarrow> read_mem p n = Ok (mem_bytes p n)"
  by (cases p) auto

lemma read_mem_not_ok: "\<not> mem_ok p n \<Longrightarrow> read_mem p n = Undef"
  by (cases p) (auto simp: read_mem_def)

lemma read_mem_not_Fail [simp]: "read_mem p n \<noteq> Fail e"
  by (auto simp: read_mem_def split: option.splits)

lemma write_mem_in [mem_simps]:
  "nat off + length bs \<le> length dest \<Longrightarrow> 0 \<le> off \<Longrightarrow>
   write_mem dest off bs = Ok (take (nat off) dest @ bs @ drop (nat off + length bs) dest)"
  by (simp add: write_mem_def)

lemma write_mem_at_end [mem_simps]:
  "length bs \<le> length rest \<Longrightarrow>
   write_mem (pre @ rest) (int (length pre)) bs = Ok (pre @ bs @ drop (length bs) rest)"
  by (simp add: write_mem_def)

lemma write_mem_length: "write_mem dest off bs = Ok d \<Longrightarrow> length d = length dest"
  by (auto simp: write_mem_def split: if_splits)

lemma write_mem_not_Fail [simp]: "write_mem dest off bs \<noteq> Fail e"
  by (auto simp: write_mem_def)

lemma arr_get_in [simp, mem_simps]: "i < length arr \<Longrightarrow> arr_get arr i = Ok (arr ! i)"
  by (simp add: arr_get_def)

lemma arr_set_in [simp, mem_simps]: "i < length arr \<Longrightarrow> arr_set arr i x = Ok (arr[i := x])"
  by (simp add: arr_set_def)

lemma arr_out [simp, mem_simps]:
  "length arr \<le> i \<Longrightarrow> arr_get arr i = Undef" "length arr \<le> i \<Longrightarrow> arr_set arr i x = Undef"
  by (simp_all add: arr_get_def arr_set_def)

lemma arr_not_Fail [simp]: "arr_get arr i \<noteq> Fail e" "arr_set arr i x \<noteq> Fail e"
  by (simp_all add: arr_get_def arr_set_def)

section \<open>Counted loops over an array\<close>

text \<open>\<open>for_arr k i arr body s\<close> is \<^verbatim>\<open>for (j = i; j < i + k; j++) { body(arr[j]) }\<close>; the body
  may fail, which leaves the loop and the function.\<close>

fun for_arr :: "nat \<Rightarrow> nat \<Rightarrow> 'a list \<Rightarrow> ('a \<Rightarrow> 's \<Rightarrow> 's res) \<Rightarrow> 's \<Rightarrow> 's res" where
  "for_arr 0 i arr body s = Ok s"
| "for_arr (Suc k) i arr body s =
     TRY (arr_get arr i) (\<lambda>x. TRY (body x s) (\<lambda>s'. for_arr k (Suc i) arr body s'))"

fun foldR :: "('a \<Rightarrow> 's \<Rightarrow> 's res) \<Rightarrow> 'a list \<Rightarrow> 's \<Rightarrow> 's res" where
  "foldR body [] s = Ok s"
| "foldR body (x # xs) s = TRY (body x s) (foldR body xs)"

text \<open>Inside the array the loop is a fold over the elements it visits.\<close>

lemma for_arr_foldR:
  "i + k \<le> length arr \<Longrightarrow> for_arr k i arr body s = foldR body (take k (drop i arr)) s"
proof (induction k arbitrary: i s)
  case 0
  then show ?case by simp
next
  case (Suc k)
  then have "take (Suc k) (drop i arr) = arr ! i # take k (drop (Suc i) arr)"
    by (simp add: Cons_nth_drop_Suc [symmetric])
  moreover have "\<And>s. for_arr k (Suc i) arr body s = foldR body (take k (drop (Suc i) arr)) s"
    using Suc by simp
  ultimately show ?case using Suc.prems by (simp cong: TRY_cong)
qed

lemma foldR_append [simp]: "foldR body (xs @ ys) s = TRY (foldR body xs s) (foldR body ys)"
  by (induction xs arbitrary: s) (auto simp: res_simps cong: TRY_cong)

lemma foldR_Ok:
  "(\<And>x s. x \<in> set xs \<Longrightarrow> body x s = Ok (f x s)) \<Longrightarrow> foldR body xs s = Ok (fold f xs s)"
  by (induction xs arbitrary: s) auto

lemma foldR_invariant:
  assumes "foldR body xs s = Ok s'" and "P s"
    and "\<And>x s s'. x \<in> set xs \<Longrightarrow> P s \<Longrightarrow> body x s = Ok s' \<Longrightarrow> P s'"
  shows "P s'"
  using assms
proof (induction xs arbitrary: s)
  case Nil
  then show ?case by simp
next
  case (Cons x xs)
  from Cons.prems(1) obtain s1 where s1: "body x s = Ok s1" "foldR body xs s1 = Ok s'"
    by (auto simp: res_simps)
  with Cons.prems have "P s1" by auto
  with s1(2) Cons show ?case by auto
qed

section \<open>Lists filled from the left\<close>

lemma take_list_update_append [simp]:
  "i < length xs \<Longrightarrow> take (Suc i) (xs[i := x]) = take i xs @ [x]"
  by (simp add: take_Suc_conv_app_nth)

lemma u8_nat_less: "unat (x :: u8) < 256"
  by (rule order_less_le_trans [OF unsigned_less]) simp

lemma unat_u8_Suc: "unat (x + 1 :: u8) = (unat x + 1) mod 256"
  by (simp add: unat_word_ariths)

lemma u16_nat_less: "unat (x :: u16) < 65536"
  by (rule order_less_le_trans [OF unsigned_less]) simp

lemma unat_of_nat_u32 [simp]: "n < 2 ^ 32 \<Longrightarrow> unat (of_nat n :: u32) = n"
  by (simp add: unsigned_of_nat take_bit_nat_eq_self)

lemma unat_ucast_u8_u32 [simp]: "unat (ucast (x :: u8) :: u32) = unat x"
  using u8_nat_less [of x] by (simp add: unsigned_ucast_eq take_bit_nat_eq_self)

lemma unat_ucast_u8_u16 [simp]: "unat (ucast (x :: u8) :: u16) = unat x"
  using u8_nat_less [of x] by (simp add: unsigned_ucast_eq take_bit_nat_eq_self)

lemma unat_ucast_u16_u32 [simp]: "unat (ucast (x :: u16) :: u32) = unat x"
  using u16_nat_less [of x] by (simp add: unsigned_ucast_eq take_bit_nat_eq_self)

section \<open>Bytes, nibbles and narrowing\<close>

lemma word_less_16_bits: "x < 16 \<Longrightarrow> bit (x :: u8) n \<Longrightarrow> n < 4"
proof -
  assume x: "x < 16" and b: "bit x n"
  from x have "unat x < 16" by (simp add: word_less_nat_alt)
  then have t: "take_bit 4 (unat x) = unat x" by (simp add: take_bit_nat_eq_self)
  from b have "bit (unat x) n" by (simp add: bit_unsigned_iff)
  then have "bit (take_bit 4 (unat x)) n" unfolding t .
  then show "n < 4" by (simp add: bit_take_bit_iff)
qed

lemma byte_masks:
  "(0xF0 :: u8) = push_bit 4 (mask 4)" "(0x0F :: u8) = mask 4"
  "(0xFF00 :: u16) = push_bit 8 (mask 8)" "(0x00FF :: u16) = mask 8"
  by (simp_all add: mask_eq_exp_minus_1 push_bit_eq_mult)

lemma nibbles:
  fixes x y :: u8
  assumes "x < 16" "y < 16"
  shows "drop_bit 4 ((push_bit 4 x OR y) AND 0xF0) = x"
    and "(push_bit 4 x OR y) AND 0x0F = y"
  unfolding byte_masks using assms
  by (auto intro!: bit_word_eqI simp: bit_simps dest: word_less_16_bits)

lemma two_bytes:
  "push_bit 8 (ucast (ucast (drop_bit 8 (t AND 0xFF00 :: u16)) :: u8)) OR ucast (ucast (t AND 0x00FF) :: u8)
   = (ucast t :: u32)"
  unfolding byte_masks by (rule bit_word_eqI) (auto simp: bit_simps dest: bit_imp_le_length)

lemma ucast_push_bit_4: "ucast (push_bit 4 (d :: u16)) = (push_bit 4 (ucast d) :: u8)"
  by (rule bit_word_eqI) (auto simp: bit_simps)

lemma take_bit_8_cut:
  fixes a b :: int
  assumes "8 \<le> n"
  shows "take_bit 8 (take_bit n a + take_bit n b) = take_bit 8 (a + b)"
    and "take_bit 8 (take_bit n a - take_bit n b) = take_bit 8 (a - b)"
proof -
  have t: "take_bit 8 (take_bit n x) = take_bit 8 x" for x :: int using assms by (simp add: min_def)
  show "take_bit 8 (take_bit n a + take_bit n b) = take_bit 8 (a + b)"
    using take_bit_add [of 8 "take_bit n a" "take_bit n b"] take_bit_add [of 8 a b]
    unfolding t by simp
  show "take_bit 8 (take_bit n a - take_bit n b) = take_bit 8 (a - b)"
    using take_bit_diff [of 8 "take_bit n a" "take_bit n b"] take_bit_diff [of 8 a b]
    unfolding t by simp
qed

text \<open>Cutting to 8 bits is a ring homomorphism.\<close>

lemma ucast_plus_u8: "8 \<le> LENGTH('a) \<Longrightarrow> (ucast (a + b :: 'a :: len word) :: u8) = ucast a + ucast b"
  by transfer (simp add: take_bit_8_cut)

lemma ucast_minus_u8: "8 \<le> LENGTH('a) \<Longrightarrow> (ucast (a - b :: 'a :: len word) :: u8) = ucast a - ucast b"
  by transfer (simp add: take_bit_8_cut)

lemma ucast_ucast_u16_u8: "d < 256 \<Longrightarrow> ucast (ucast d :: u8) = (d :: u16)"
  by (rule word_unat_eq_iff [THEN iffD2])
    (simp add: unsigned_ucast_eq unsigned_take_bit_eq word_less_nat_alt take_bit_nat_eq_self)

lemma word_ge_243: "243 \<le> (d :: u16) \<Longrightarrow> 13 \<le> d" "243 \<le> (l :: u8) \<Longrightarrow> 13 \<le> l"
  by (simp_all add: word_le_nat_alt)

lemma unat_of_nat_u16 [simp]: "n < 2 ^ 16 \<Longrightarrow> unat (of_nat n :: u16) = n"
  by (simp add: unsigned_of_nat take_bit_nat_eq_self)

lemma unat_of_nat_u8 [simp]: "n < 2 ^ 8 \<Longrightarrow> unat (of_nat n :: u8) = n"
  by (simp add: unsigned_of_nat take_bit_nat_eq_self)

lemma of_nat_less_u16: "m < n \<Longrightarrow> n < 2 ^ 16 \<Longrightarrow> (of_nat m :: u16) < of_nat n"
  by (simp add: word_less_nat_alt)

lemma ucast_of_nat_u8: "n < 2 ^ 8 \<Longrightarrow> (ucast (of_nat n :: u8) :: 'a :: len word) = of_nat n"
  by (metis of_nat_unat unat_of_nat_u8)

lemma ucast_as_of_nat: "(ucast (x :: 'a :: len word) :: 'b :: len word) = of_nat (unat x)"
  by (simp add: of_nat_unat)

lemma u32_nat_less: "unat (x :: u32) < 2 ^ 32"
  by (rule order_less_le_trans [OF unsigned_less]) simp

lemma unat_minus_u32: "n \<le> unat c \<Longrightarrow> unat (c - of_nat n :: u32) = unat c - n"
  using u32_nat_less [of c] by (simp add: unat_sub word_le_nat_alt)

lemma unat_less_bits: "unat (x :: 'a :: len word) < 2 ^ k \<Longrightarrow> bit x n \<Longrightarrow> n < k"
proof -
  assume x: "unat x < 2 ^ k" and b: "bit x n"
  from x have t: "take_bit k (unat x) = unat x" by (simp add: take_bit_nat_eq_self)
  from b have "bit (unat x) n" by (simp add: bit_unsigned_iff bit_imp_le_length)
  then have "bit (take_bit k (unat x)) n" unfolding t .
  then show "n < k" by (simp add: bit_take_bit_iff)
qed

lemma ucast_u16_u32_u8: "ucast (ucast (x :: u16) :: u32) = (ucast x :: u8)"
  by (rule bit_word_eqI) (auto simp: bit_simps)

lemma ucast_u8_u16_u8 [simp]: "ucast (ucast (x :: u8) :: u16) = x"
  by (rule bit_word_eqI) (auto simp: bit_simps)

end
