(* ===== verification/Byte_Array.thy ===== *)
theory Byte_Array
  imports Uoscore_Prelude
begin

text \<open>
  \<^verbatim>\<open>src/common/byte_array.c\<close> and \<^verbatim>\<open>src/common/memcpy_s.c\<close>: arrays with a length, their
  comparison, and the checked copy every component of the library goes through.
\<close>

section \<open>Byte arrays\<close>

record byte_array =
  ba_len :: u32
  ba_ptr :: ptr

definition EMPTY_ARRAY :: byte_array where
  "EMPTY_ARRAY = \<lparr>ba_len = 0, ba_ptr = Some [0]\<rparr>"

definition NULL_ARRAY :: byte_array where
  "NULL_ARRAY = \<lparr>ba_len = 0, ba_ptr = None\<rparr>"

definition byte_array_init :: "ptr \<Rightarrow> u32 \<Rightarrow> byte_array" where
  "byte_array_init buf buf_len = \<lparr>ba_len = buf_len, ba_ptr = buf\<rparr>"

text \<open>A byte array that owns exactly the bytes \<open>bs\<close>.\<close>

abbreviation array_of :: "bytes \<Rightarrow> byte_array" where
  "array_of bs \<equiv> \<lparr>ba_len = of_nat (length bs), ba_ptr = Some bs\<rparr>"

text \<open>The loop of \<^verbatim>\<open>array_equals\<close>, with \<open>n\<close> rounds left.\<close>

fun array_equals_loop :: "nat \<Rightarrow> ptr \<Rightarrow> ptr \<Rightarrow> bool res" where
  "array_equals_loop 0 left right = Ok True"
| "array_equals_loop (Suc n) left right =
     TRY (deref left) (\<lambda>a.
     TRY (deref right) (\<lambda>b.
     if a \<noteq> b then Ok False
     else array_equals_loop n (advance left 1) (advance right 1)))"

definition array_equals :: "byte_array \<Rightarrow> byte_array \<Rightarrow> bool res" where
  "array_equals left right =
     (if ba_len left \<noteq> ba_len right then Ok False
      else array_equals_loop (unat (ba_len left)) (ba_ptr left) (ba_ptr right))"

lemma array_equals_loop_content:
  "n \<le> length xs \<Longrightarrow> n \<le> length ys \<Longrightarrow>
   array_equals_loop n (Some xs) (Some ys) = Ok (take n xs = take n ys)"
proof (induction n arbitrary: xs ys)
  case 0
  then show ?case by simp
next
  case (Suc n)
  from Suc.prems obtain x xs' y ys' where "xs = x # xs'" "ys = y # ys'"
    by (meson Suc_le_length_iff)
  with Suc show ?case by simp
qed

text \<open>A comparison never fails, and never reads a null pointer of an empty array.\<close>

lemma array_equals_loop_not_Fail: "array_equals_loop n p q \<noteq> Fail e"
proof (induction n arbitrary: p q)
  case 0
  then show ?case by simp
next
  case (Suc n)
  then show ?case by (auto simp: res_simps deref_def split: if_splits option.splits list.splits)
qed

lemma array_equals_not_Fail [simp]: "array_equals l r \<noteq> Fail e"
  by (simp add: array_equals_def array_equals_loop_not_Fail)

section \<open>Checked copies\<close>

definition check_buffer_size :: "u32 \<Rightarrow> u32 \<Rightarrow> unit res" where
  "check_buffer_size is_size required_size =
     (if is_size < required_size then Fail buffer_to_small else Ok ())"

text \<open>\<open>memcpy_s dest off dest_len source source_len\<close> is
  \<^verbatim>\<open>_memcpy_s(&dest[off], dest_len, source, source_len)\<close>; \<open>dest\<close> is the whole object
  written to and the result its new contents.\<close>

definition memcpy_s :: "bytes \<Rightarrow> int \<Rightarrow> u32 \<Rightarrow> ptr \<Rightarrow> u32 \<Rightarrow> bytes res" where
  "memcpy_s dest off dest_len source source_len =
     TRY (check_buffer_size dest_len source_len) (\<lambda>_.
     TRY (read_mem source (unat source_len)) (\<lambda>bs.
     write_mem dest off bs))"

lemma check_buffer_size_eq [res_simps]:
  "check_buffer_size n m = Ok u \<longleftrightarrow> m \<le> n"
  "check_buffer_size n m = Fail e \<longleftrightarrow> n < m \<and> e = buffer_to_small"
  "check_buffer_size n m \<noteq> Undef"
  by (auto simp: check_buffer_size_def)

lemma check_buffer_size_fits [simp]: "m \<le> n \<Longrightarrow> check_buffer_size n m = Ok ()"
  by (simp add: check_buffer_size_def not_less)

lemma check_buffer_size_short [simp]: "n < m \<Longrightarrow> check_buffer_size n m = Fail buffer_to_small"
  by (simp add: check_buffer_size_def)

text \<open>A copy that passes its check and stays inside both objects.\<close>

lemma memcpy_s_in [mem_simps]:
  assumes "source_len \<le> dest_len" and "unat source_len \<le> length src"
    and "0 \<le> off" and "nat off + unat source_len \<le> length dest"
  shows "memcpy_s dest off dest_len (Some src) source_len =
    Ok (take (nat off) dest @ take (unat source_len) src @ drop (nat off + unat source_len) dest)"
  using assms by (simp add: memcpy_s_def write_mem_def)

text \<open>The only error of a copy is a destination declared too small.\<close>

lemma memcpy_s_eq_Fail [res_simps]:
  "memcpy_s dest off dest_len src source_len = Fail e
     \<longleftrightarrow> dest_len < source_len \<and> e = buffer_to_small"
  by (auto simp: memcpy_s_def res_simps)

lemma memcpy_s_length: "memcpy_s dest off dest_len src n = Ok d \<Longrightarrow> length d = length dest"
  by (auto simp: memcpy_s_def res_simps dest: write_mem_length)

text \<open>\<^verbatim>\<open>array_equals\<close> decides equality of contents.\<close>

lemma array_equals_content:
  "length xs < 2 ^ 32 \<Longrightarrow> length ys < 2 ^ 32 \<Longrightarrow>
   array_equals (array_of xs) (array_of ys) = Ok (xs = ys)"
proof -
  assume len: "length xs < 2 ^ 32" "length ys < 2 ^ 32"
  have "(of_nat (length xs) :: u32) = of_nat (length ys) \<longleftrightarrow> length xs = length ys"
    using len unat_of_nat_u32 by metis
  with len show ?thesis
    by (auto simp: array_equals_def array_equals_loop_content)
qed

text \<open>A copy behind the bytes already written, checked against what is left of a buffer.\<close>

lemma memcpy_s_at_end:
  assumes "mem_ok src (unat n)" and "n \<le> dest_len" and "unat n \<le> length rest"
  shows "memcpy_s (pre @ rest) (int (length pre)) dest_len src n
    = Ok (pre @ mem_bytes src (unat n) @ drop (unat n) rest)"
  using assms write_mem_at_end [of "mem_bytes src (unat n)" rest pre] by (simp add: memcpy_s_def)

lemma memcpy_s_rest [mem_simps]:
  assumes "mem_ok src (unat n)" and "length pre + unat n \<le> unat room"
    and "unat room \<le> length (pre @ rest)" and "p = length pre"
  shows "memcpy_s (pre @ rest) (int p) (room - of_nat p) src n
    = Ok (pre @ mem_bytes src (unat n) @ drop (unat n) rest)"
proof -
  have "n \<le> room - of_nat (length pre)"
    using assms(2) by (simp add: word_le_nat_alt unat_minus_u32)
  with assms show ?thesis using memcpy_s_at_end [of src n "room - of_nat (length pre)" rest pre] by simp
qed

end
