(* ===== verification/Coap_Packet.thy ===== *)
theory Coap_Packet
  imports Byte_Array
begin

text \<open>
  \<^verbatim>\<open>inc/oscore/oscore_coap.h\<close> and \<^verbatim>\<open>src/oscore/oscore_coap.c\<close>: the CoAP packet structure,
  the serialisation of its options and of the packet (\<open>options_into_byte_string\<close>,
  \<open>coap2buf\<close>) and the parser of received packets (\<open>buf2options\<close>, \<open>buf2coap\<close>).

  An array of options is the list of all its elements, so that a write past its end is
  \<open>Undef\<close>; \<open>options_cnt\<close> says how many of them are in use.  \<open>buf2coap\<close> takes the contents
  the output structure had before the call, because it does not set all of its fields.
\<close>

section \<open>Packet structure\<close>

record o_coap_header =
  hdr_ver :: u8
  hdr_type :: u8
  hdr_TKL :: u8
  hdr_code :: u8
  hdr_MID :: u16

record o_coap_option =
  opt_delta :: u16
  opt_len :: u8
  opt_value :: ptr
  opt_number :: u8

record o_coap_packet =
  header :: o_coap_header
  token :: ptr
  options_cnt :: u8
  options :: "o_coap_option list"
  payload_len :: u32
  payload :: ptr

definition MAX_OPTION_COUNT :: nat where "MAX_OPTION_COUNT = 20"
definition MAX_COAP_OPTIONS_LEN :: u32 where "MAX_COAP_OPTIONS_LEN = 128"
definition HEADER_LEN :: u32 where "HEADER_LEN = 4"

definition TYPE_ACK :: u8 where "TYPE_ACK = 2"
definition CODE_EMPTY :: u8 where "CODE_EMPTY = 0"
definition CODE_REQ_POST :: u8 where "CODE_REQ_POST = 0x02"
definition CODE_RESP_CHANGED :: u8 where "CODE_RESP_CHANGED = 0x44"
definition CODE_CLASS_MASK :: u8 where "CODE_CLASS_MASK = 0xE0"
definition REQUEST_CLASS :: u8 where "REQUEST_CLASS = 0"

lemmas coap_consts [simp] =
  MAX_OPTION_COUNT_def MAX_COAP_OPTIONS_LEN_def HEADER_LEN_def TYPE_ACK_def CODE_EMPTY_def
  CODE_REQ_POST_def CODE_RESP_CHANGED_def CODE_CLASS_MASK_def REQUEST_CLASS_def

section \<open>Options to bytes\<close>

definition delta_extra_byte :: "u16 \<Rightarrow> nat" where
  "delta_extra_byte d = (if 13 \<le> d \<and> d < 243 then 1 else if 243 \<le> d then 2 else 0)"

definition len_extra_byte :: "u8 \<Rightarrow> nat" where
  "len_extra_byte l = (if 13 \<le> l \<and> l < 243 then 1 else if 243 \<le> l then 2 else 0)"

text \<open>The two \<^verbatim>\<open>switch\<close> statements: the nibble each puts in the first byte and the
  extension bytes.\<close>

definition delta_field :: "u16 \<Rightarrow> (u8 \<times> bytes) res" where
  "delta_field d = (case delta_extra_byte d of
       0 \<Rightarrow> Ok (ucast (push_bit 4 d), [])
     | Suc 0 \<Rightarrow> Ok (push_bit 4 13, [ucast (d + 13)])
     | Suc (Suc 0) \<Rightarrow>
         (let temp_delta = d + 269 in
          Ok (push_bit 4 14,
              [ucast (drop_bit 8 (temp_delta AND 0xFF00)), ucast (temp_delta AND 0x00FF)]))
     | _ \<Rightarrow> Fail delta_extra_byte_error)"

definition len_field :: "u8 \<Rightarrow> (u8 \<times> bytes) res" where
  "len_field l = (case len_extra_byte l of
       0 \<Rightarrow> Ok (l, [])
     | Suc 0 \<Rightarrow> Ok (13, [l + 13])
     | Suc (Suc 0) \<Rightarrow>
         (let temp_len = (ucast l :: u16) + 269 in
          Ok (14, [ucast (drop_bit 8 (temp_len AND 0xFF00)), ucast (temp_len AND 0x00FF)]))
     | _ \<Rightarrow> Fail len_extra_byte_error)"

text \<open>The bytes an option starts with: delta and length nibble, delta extension, length
  extension.\<close>

definition option_header :: "u16 \<Rightarrow> u8 \<Rightarrow> bytes res" where
  "option_header d l =
     (if d < 13 \<and> l < 13 then Ok [ucast (push_bit 4 d) OR l]
      else TRY (delta_field d) (\<lambda>(dn, dext).
           TRY (len_field l) (\<lambda>(ln, lext).
           Ok ((dn OR ln) # dext @ lext))))"

text \<open>One round of the loop; the state is the output buffer, the offset of \<^verbatim>\<open>temp_ptr\<close> and
  \<^verbatim>\<open>out_byte_string->len\<close>.\<close>

definition option_into_byte_string ::
    "u32 \<Rightarrow> o_coap_option \<Rightarrow> bytes \<times> nat \<times> u32 \<Rightarrow> (bytes \<times> nat \<times> u32) res" where
  "option_into_byte_string capacity opt = (\<lambda>(buf, pos, out_len).
     TRY (option_header (opt_delta opt) (opt_len opt)) (\<lambda>hdr.
     TRY (write_mem buf (int pos) hdr) (\<lambda>buf1.
     let pos1 = pos + length hdr;
         out_len1 = out_len + of_nat (length hdr) + ucast (opt_len opt);
         dest_size = capacity - of_nat pos1
     in TRY (memcpy_s buf1 (int pos1) dest_size (opt_value opt) (ucast (opt_len opt))) (\<lambda>buf2.
        Ok (buf2, pos1 + unat (opt_len opt), out_len1)))))"

definition options_into_byte_string ::
    "o_coap_option list \<Rightarrow> u8 \<Rightarrow> bytes \<Rightarrow> u32 \<Rightarrow> (bytes \<times> u32) res" where
  "options_into_byte_string opts cnt out capacity =
     TRY (for_arr (unat cnt) 0 opts (option_into_byte_string capacity) (out, 0, 0))
       (\<lambda>(buf, pos, out_len). Ok (buf, out_len))"

section \<open>Bytes to options\<close>

text \<open>The loop over an option string, which \<open>buf2options\<close> and the parser of the protected
  options share up to the two \<^verbatim>\<open>switch\<close> statements, the arguments \<open>delta_switch\<close> and
  \<open>len_switch\<close>: value, header length so far, pointer behind the extension.  \<open>cnt\<close> is
  \<^verbatim>\<open>temp_options_count\<close>; it indexes the output array, so a round beyond the array is
  \<open>Undef\<close> and the loop ends after at most as many rounds as the array has elements.\<close>

type_synonym field_switch = "u8 \<Rightarrow> u8 \<Rightarrow> ptr \<Rightarrow> (u8 \<times> u8 \<times> ptr) res"

function options_parse_loop ::
    "field_switch \<Rightarrow> field_switch \<Rightarrow> u16 \<Rightarrow> ptr \<Rightarrow> u16 \<Rightarrow> nat \<Rightarrow> u8 \<Rightarrow> o_coap_option list \<Rightarrow>
     (o_coap_option list \<times> nat) res"
where
  "options_parse_loop delta_switch len_switch in_data_len p i cnt num arr =
     (if i < in_data_len then
        TRY (deref p) (\<lambda>b.
        TRY (delta_switch (drop_bit 4 (b AND 0xF0)) 1 (advance p 1)) (\<lambda>(delta, hl, p1).
        TRY (len_switch (b AND 0x0F) hl p1) (\<lambda>(len, hl', p2).
        TRY (arr_set arr cnt
               \<lparr>opt_delta = ucast delta, opt_len = len,
                opt_value = (if len = 0 then None else p2), opt_number = num + delta\<rparr>) (\<lambda>arr'.
        options_parse_loop delta_switch len_switch in_data_len (advance p2 (unat len))
          (i + ucast hl' + ucast len) (Suc cnt) (num + delta) arr'))))
      else Ok (arr, cnt))"
  by pat_completeness auto
termination
  by (relation "measure (\<lambda>(d, l, in_data_len, p, i, cnt, num, arr). length arr - cnt)")
    (auto simp: arr_set_def split: if_splits)

declare options_parse_loop.simps [simp del]

text \<open>The \<^verbatim>\<open>switch\<close> statements of \<open>buf2options\<close>.  The sums are computed in \<^verbatim>\<open>int\<close> and cut
  to 8 bits.\<close>

definition buf2options_delta :: field_switch where
  "buf2options_delta nib hl p =
     (if nib = 13 then TRY (deref p) (\<lambda>b. Ok (b - 13, hl + 1, advance p 1))
      else if nib = 14 then
        TRY (deref p) (\<lambda>hi. TRY (deref (advance p 1)) (\<lambda>lo.
        Ok (ucast (push_bit 8 (ucast hi :: u32) OR (ucast lo - 269)), hl + 2, advance p 2)))
      else if nib = 15 then Fail oscore_inpkt_invalid_option_delta
      else Ok (nib, hl, p))"

definition buf2options_len :: field_switch where
  "buf2options_len nib hl p =
     (if nib = 13 then TRY (deref p) (\<lambda>b. Ok (b + 13, hl + 1, advance p 1))
      else if nib = 14 then
        TRY (deref p) (\<lambda>hi. TRY (deref (advance p 1)) (\<lambda>lo.
        Ok (ucast (push_bit 8 (ucast hi :: u32) OR (ucast lo + 269)), hl + 2, advance p 2)))
      else if nib = 15 then Fail oscore_inpkt_invalid_optionlen
      else Ok (nib, hl, p))"

definition buf2options ::
    "ptr \<Rightarrow> u16 \<Rightarrow> o_coap_option list \<Rightarrow> (o_coap_option list \<times> u8) res" where
  "buf2options in_data in_data_len out_options =
     TRY (options_parse_loop buf2options_delta buf2options_len in_data_len in_data 0 0 0
            out_options) (\<lambda>(arr, cnt). Ok (arr, of_nat cnt))"

section \<open>Received packet to structure\<close>

text \<open>The scan for the payload marker: the pointer where it stops, the bytes left and
  \<^verbatim>\<open>options_len\<close>.\<close>

fun options_extent :: "bytes \<Rightarrow> u32 \<Rightarrow> u16 \<Rightarrow> (ptr \<times> u32 \<times> u16) res" where
  "options_extent [] pl ol = Undef"
| "options_extent (b # bs) pl ol =
     (if b = 0xFF then Ok (Some (b # bs), pl, ol)
      else if pl - 1 = 0 then Ok (Some bs, pl - 1, ol + 1)
      else options_extent bs (pl - 1) (ol + 1))"

definition buf2coap_token ::
    "o_coap_packet \<Rightarrow> ptr \<Rightarrow> u32 \<Rightarrow> (o_coap_packet \<times> ptr \<times> u32) res" where
  "buf2coap_token out p pl =
     (let tkl = hdr_TKL (header out) in
      if pl \<noteq> 0 then
        if tkl = 0 then Ok (out\<lparr>token := None\<rparr>, p, pl)
        else if tkl \<le> 8 then Ok (out\<lparr>token := p\<rparr>, advance p (unat tkl), pl - ucast tkl)
        else Fail oscore_inpkt_invalid_tkl
      else Ok (out, p, pl))"

definition buf2coap_options ::
    "o_coap_packet \<Rightarrow> ptr \<Rightarrow> u32 \<Rightarrow> (o_coap_packet \<times> ptr \<times> u32) res" where
  "buf2coap_options out p pl =
     (if pl \<noteq> 0 then
        TRY (deref p) (\<lambda>b.
        if b = 0xFF then Ok (out\<lparr>options_cnt := 0\<rparr>, p, pl)
        else TRY (case p of None \<Rightarrow> Undef | Some bs \<Rightarrow> options_extent bs pl 0) (\<lambda>(p', pl', ol).
          if 0 < ol then
            TRY (buf2options p ol (options out)) (\<lambda>(arr, cnt).
            Ok (out\<lparr>options := arr, options_cnt := cnt\<rparr>, p', pl'))
          else Ok (out\<lparr>options_cnt := 0\<rparr>, p', pl')))
      else Ok (out, p, pl))"

definition buf2coap_payload :: "o_coap_packet \<Rightarrow> ptr \<Rightarrow> u32 \<Rightarrow> o_coap_packet" where
  "buf2coap_payload out p pl =
     (if pl = 0 then out\<lparr>payload_len := 0, payload := None\<rparr>
      else out\<lparr>payload_len := pl - 1, payload := advance p 1\<rparr>)"

definition buf2coap_header :: "u8 \<Rightarrow> u8 \<Rightarrow> u8 \<Rightarrow> u8 \<Rightarrow> o_coap_header" where
  "buf2coap_header b0 b1 b2 b3 =
     \<lparr>hdr_ver = drop_bit 6 (b0 AND 0xC0), hdr_type = drop_bit 4 (b0 AND 0x30),
      hdr_TKL = drop_bit 0 (b0 AND 0x0F), hdr_code = b1,
      hdr_MID = push_bit 8 (ucast b2) OR ucast b3\<rparr>"

definition buf2coap :: "o_coap_packet \<Rightarrow> bytes \<Rightarrow> o_coap_packet res" where
  "buf2coap out0 inb =
     (let p = Some inb; pl = of_nat (length inb) in
      if pl < HEADER_LEN then Fail not_valid_input_packet
      else
        TRY (deref p) (\<lambda>b0.
        TRY (deref (advance p 1)) (\<lambda>b1.
        TRY (deref (advance p 3)) (\<lambda>b3.
        TRY (deref (advance p 2)) (\<lambda>b2.
        let out1 = out0\<lparr>header := buf2coap_header b0 b1 b2 b3\<rparr> in
        TRY (buf2coap_token out1 (advance p 4) (pl - 4)) (\<lambda>(out2, p2, pl2).
        TRY (buf2coap_options out2 p2 pl2) (\<lambda>(out3, p3, pl3).
        Ok (buf2coap_payload out3 p3 pl3))))))))"

section \<open>Structure to packet\<close>

definition coap_first_byte :: "o_coap_header \<Rightarrow> u8" where
  "coap_first_byte h = push_bit 6 (hdr_ver h) OR push_bit 4 (hdr_type h) OR hdr_TKL h"

definition coap_header_bytes :: "o_coap_header \<Rightarrow> bytes" where
  "coap_header_bytes h =
     [coap_first_byte h, hdr_code h,
      ucast (drop_bit 8 (hdr_MID h AND 0xFF00)), ucast (hdr_MID h AND 0x00FF)]"

definition options_max_len :: "o_coap_packet \<Rightarrow> u32 res" where
  "options_max_len pkt =
     for_arr (unat (options_cnt pkt)) 0 (options pkt)
       (\<lambda>opt n. Ok (n + 5 + ucast (opt_len opt))) 0"

text \<open>The option bytes are assembled in a local buffer, of which the code clears the part
  it may use; nothing reads the rest, which is 0 here.\<close>

definition coap2buf :: "o_coap_packet \<Rightarrow> bytes \<Rightarrow> u32 \<Rightarrow> (bytes \<times> u32) res" where
  "coap2buf pkt out out_len =
     (let tkl = hdr_TKL (header pkt) in
      TRY (write_mem out 0 (coap_header_bytes (header pkt))) (\<lambda>out1.
      TRY (if 0 < tkl then memcpy_s out1 4 (out_len - 4) (token pkt) (ucast tkl) else Ok out1)
        (\<lambda>out2.
      let pos = 4 + unat tkl in
      TRY (options_max_len pkt) (\<lambda>temp_opt_bytes_len.
      TRY (check_buffer_size MAX_COAP_OPTIONS_LEN temp_opt_bytes_len) (\<lambda>_.
      TRY (options_into_byte_string (options pkt) (options_cnt pkt)
             (replicate (unat MAX_COAP_OPTIONS_LEN) 0) temp_opt_bytes_len) (\<lambda>(temp_opt_bytes, obl).
      TRY (memcpy_s out2 (int pos) (out_len - of_nat pos) (Some temp_opt_bytes) obl) (\<lambda>out3.
      let pos1 = pos + unat obl in
      TRY (if payload_len pkt \<noteq> 0 then
             TRY (write_mem out3 (int pos1) [0xFF]) (\<lambda>out4.
             memcpy_s out4 (int (pos1 + 1)) (out_len - of_nat (pos1 + 1)) (payload pkt)
               (payload_len pkt))
           else Ok out3) (\<lambda>out5.
      Ok (out5,
          4 + ucast tkl + obl + (if payload_len pkt \<noteq> 0 then 1 + payload_len pkt else 0))))))))))"

end
