(* ===== verification/Coap_Option.thy ===== *)
theory Coap_Option
  imports Coap_Packet
begin

text \<open>
  \<^verbatim>\<open>inc/oscore/option.h\<close> and \<^verbatim>\<open>src/oscore/option.c\<close>: option numbers, the protection class
  of an option, and the length and encoding of the options of one class, as they enter the
  additional authenticated data.
\<close>

section \<open>Option numbers and classes\<close>

definition COAP_OPTION_URI_HOST :: u16 where "COAP_OPTION_URI_HOST = 3"
definition COAP_OPTION_URI_PORT :: u16 where "COAP_OPTION_URI_PORT = 7"
definition COAP_OPTION_OSCORE :: u16 where "COAP_OPTION_OSCORE = 9"
definition COAP_OPTION_PROXY_URI :: u16 where "COAP_OPTION_PROXY_URI = 35"
definition COAP_OPTION_PROXY_SCHEME :: u16 where "COAP_OPTION_PROXY_SCHEME = 39"

lemmas option_numbers [simp] =
  COAP_OPTION_URI_HOST_def COAP_OPTION_URI_PORT_def COAP_OPTION_OSCORE_def
  COAP_OPTION_PROXY_URI_def COAP_OPTION_PROXY_SCHEME_def

datatype option_class = CLASS_U | CLASS_I | CLASS_E

definition is_class_e :: "u16 \<Rightarrow> bool" where
  "is_class_e code \<longleftrightarrow>
     code \<noteq> COAP_OPTION_URI_HOST \<and> code \<noteq> COAP_OPTION_URI_PORT \<and>
     code \<noteq> COAP_OPTION_OSCORE \<and> code \<noteq> COAP_OPTION_PROXY_URI \<and>
     code \<noteq> COAP_OPTION_PROXY_SCHEME"

definition option_belongs_to_class :: "u16 \<Rightarrow> option_class \<Rightarrow> bool" where
  "option_belongs_to_class option_num class = (case class of
       CLASS_I \<Rightarrow> False
     | CLASS_E \<Rightarrow> is_class_e option_num
     | _ \<Rightarrow> False)"

section \<open>Encoding the options of a class\<close>

definition option_field_len :: "u16 \<Rightarrow> u8" where
  "option_field_len value = (if value < 13 then 0 else if value < 269 then 1 else 2)"

definition encoded_option_len :: "o_coap_option list \<Rightarrow> u16 \<Rightarrow> option_class \<Rightarrow> u32 res" where
  "encoded_option_len opts opt_num class =
     TRY (for_arr (unat opt_num) 0 opts
       (\<lambda>opt (len, total_delta).
          let code = total_delta + opt_delta opt in
          if \<not> option_belongs_to_class code class then Ok (len, code)
          else Ok (len + 1 + ucast (option_field_len (opt_delta opt))
                       + ucast (option_field_len (ucast (opt_len opt)))
                       + ucast (opt_len opt), code))
       (0, 0))
     (\<lambda>(len, _). Ok len)"

text \<open>The extended field of a delta or a length: its nibble and its bytes.  The length is an
  8-bit value, so for it the two-byte case never arises.\<close>

definition extended_field :: "u16 \<Rightarrow> u8 \<times> bytes" where
  "extended_field v =
     (if option_field_len v = 0 then (ucast v, [])
      else if option_field_len v = 1 then (13, [ucast (v - 13)])
      else (14, [ucast (drop_bit 8 (v - 269) AND 0xFF), ucast ((v - 269) AND 0xFF)]))"

definition encode_option_header :: "u16 \<Rightarrow> u8 \<Rightarrow> bytes" where
  "encode_option_header delta len =
     (let (dn, dext) = extended_field delta; (ln, lext) = extended_field (ucast len)
      in (push_bit 4 dn OR ln) # dext @ lext)"

text \<open>One round of the loop; the state is the output buffer, \<open>index\<close> and
  \<open>skipped_delta\<close>.\<close>

definition encode_option ::
    "option_class \<Rightarrow> u32 \<Rightarrow> o_coap_option \<Rightarrow> bytes \<times> u32 \<times> u16 \<Rightarrow> (bytes \<times> u32 \<times> u16) res" where
  "encode_option class out_buf_len opt = (\<lambda>(out, index, skipped_delta).
     let delta = opt_delta opt + skipped_delta in
     if \<not> option_belongs_to_class delta class then Ok (out, index, skipped_delta + opt_delta opt)
     else
       let hdr = encode_option_header delta (opt_len opt);
           index1 = index + of_nat (length hdr)
       in TRY (write_mem out (int (unat index)) hdr) (\<lambda>out1.
          TRY (memcpy_s out1 (int (unat index1)) (out_buf_len - index1) (opt_value opt)
                 (ucast (opt_len opt))) (\<lambda>out2.
          Ok (out2, index1 + ucast (opt_len opt), 0))))"

definition encode_options ::
    "o_coap_option list \<Rightarrow> u16 \<Rightarrow> option_class \<Rightarrow> bytes \<Rightarrow> u32 \<Rightarrow> bytes res" where
  "encode_options opts opt_num class out out_buf_len =
     TRY (for_arr (unat opt_num) 0 opts (encode_option class out_buf_len) (out, 0, 0))
       (\<lambda>(out', _, _). Ok out')"

section \<open>Class I is empty\<close>

text \<open>No option is of class I, so the class I part of the additional data is empty: nothing
  is counted and nothing is written.\<close>

lemma class_I_empty [simp]: "\<not> option_belongs_to_class n CLASS_I"
  by (simp add: option_belongs_to_class_def)

lemma encoded_option_len_class_I:
  "unat opt_num \<le> length opts \<Longrightarrow> encoded_option_len opts opt_num CLASS_I = Ok 0"
proof -
  assume len: "unat opt_num \<le> length opts"
  have "foldR (\<lambda>opt (len, total_delta).
          let code = total_delta + opt_delta opt in
          if \<not> option_belongs_to_class code CLASS_I then Ok (len, code)
          else Ok (len + 1 + ucast (option_field_len (opt_delta opt))
                       + ucast (option_field_len (ucast (opt_len opt)))
                       + ucast (opt_len opt), code)) (os :: o_coap_option list) (0 :: u32, t)
        = Ok (0, fold (\<lambda>opt t. t + opt_delta opt) os t)" for os t
    by (induction os arbitrary: t) (auto simp: Let_def)
  with len show ?thesis
    by (simp add: encoded_option_len_def for_arr_foldR)
qed

lemma encode_options_class_I:
  assumes "unat opt_num \<le> length opts"
  shows "encode_options opts opt_num CLASS_I out n = Ok out"
proof -
  have "foldR (encode_option CLASS_I n) os (out, i, s)
        = Ok (out, i, fold (\<lambda>opt t. t + opt_delta opt) os s)" for os i s
    by (induction os arbitrary: s) (auto simp: encode_option_def Let_def)
  with assms show ?thesis
    by (simp add: encode_options_def for_arr_foldR)
qed

end
