(* ===== verification/Cbor_Encode.thy ===== *)
theory Cbor_Encode
  imports Byte_Array
begin

text \<open>
  The CBOR encoders of the OSCORE side, \<^verbatim>\<open>src/cbor/oscore_aad_array.c\<close>,
  \<^verbatim>\<open>src/cbor/oscore_enc_structure.c\<close> and \<^verbatim>\<open>src/cbor/oscore_info.c\<close>, over the zcbor library.
  zcbor is a submodule: its functions are the fields of a record \<open>Z\<close> that every encoder
  takes, with the state type \<open>'z\<close> left open.  \<open>zcbor_canonical Z\<close> collects what the library
  documents of them (compiled with \<^verbatim>\<open>ZCBOR_CANONICAL\<close>): each appends the canonical encoding
  (RFC 8949) of its argument if it fits into the payload buffer and reports failure
  otherwise.  \<open>rfc8949_zcbor\<close> is a library that satisfies it.
\<close>

section \<open>The zcbor interface\<close>

type_synonym i32 = "32 word"
type_synonym 'z zcall = "'z \<Rightarrow> bool \<times> 'z"

text \<open>\<open>zcbor_payload\<close> are the bytes between the start of the payload and the write position
  of a state, \<open>zcbor_room\<close> what is left of the payload buffer, \<open>zcbor_backups\<close> how many
  lists or maps can still be opened, \<open>zcbor_items\<close> the number of items announced for each open
  list and the number encoded so far, the innermost list first.\<close>

record 'z zcbor =
  zcbor_new_state :: "nat \<Rightarrow> nat \<Rightarrow> nat \<Rightarrow> 'z"
  zcbor_list_start_encode :: "nat \<Rightarrow> 'z zcall"
  zcbor_list_end_encode :: "nat \<Rightarrow> 'z zcall"
  zcbor_map_start_encode :: "nat \<Rightarrow> 'z zcall"
  zcbor_map_end_encode :: "nat \<Rightarrow> 'z zcall"
  zcbor_uint32_encode :: "u32 \<Rightarrow> 'z zcall"
  zcbor_uint32_put :: "u32 \<Rightarrow> 'z zcall"
  zcbor_int32_encode :: "i32 \<Rightarrow> 'z zcall"
  zcbor_tstr_encode :: "bytes \<Rightarrow> 'z zcall"
  zcbor_bstr_encode :: "bytes \<Rightarrow> 'z zcall"
  zcbor_nil_put :: "'z zcall"
  zcbor_present_encode :: "bool \<Rightarrow> 'z zcall \<Rightarrow> 'z zcall"
  zcbor_multi_encode_minmax :: "nat \<Rightarrow> nat \<Rightarrow> nat \<Rightarrow> (i32 \<Rightarrow> 'z zcall) \<Rightarrow> i32 list \<Rightarrow> 'z zcall"
  zcbor_payload :: "'z \<Rightarrow> bytes"
  zcbor_room :: "'z \<Rightarrow> nat"
  zcbor_backups :: "'z \<Rightarrow> nat"
  zcbor_items :: "'z \<Rightarrow> (nat \<times> nat) list"

text \<open>\<^verbatim>\<open>p && q\<close> on calls that change the state, and the generated pattern
  \<^verbatim>\<open>start && (int_res = body, end && int_res)\<close>.\<close>

definition z_and :: "'z zcall \<Rightarrow> 'z zcall \<Rightarrow> 'z zcall" where
  "z_and p q = (\<lambda>s. case p s of (True, s') \<Rightarrow> q s' | (False, s') \<Rightarrow> (False, s'))"

definition z_false :: "'z zcall" where
  "z_false = (\<lambda>s. (False, s))"

definition z_list :: "'z zcbor \<Rightarrow> nat \<Rightarrow> 'z zcall \<Rightarrow> 'z zcall" where
  "z_list Z n body = z_and (zcbor_list_start_encode Z n)
     (\<lambda>s. let (int_res, s1) = body s; (end_res, s2) = zcbor_list_end_encode Z n s1
          in (end_res \<and> int_res, s2))"

text \<open>The entry points \<^verbatim>\<open>cbor_encode_X\<close>: a fresh state over a payload buffer of \<open>cap\<close>
  bytes, and the bytes written if the encoder succeeds.\<close>

definition cbor_entry ::
    "'z zcbor \<Rightarrow> nat \<Rightarrow> nat \<Rightarrow> nat \<Rightarrow> 'z zcall \<Rightarrow> bytes option" where
  "cbor_entry Z n_states cap elem_count enc =
     (let (ret, st) = enc (zcbor_new_state Z n_states cap elem_count)
      in if ret then Some (take cap (zcbor_payload Z st)) else None)"

text \<open>What an encoder has written when it returns, successful or not.\<close>

definition cbor_written :: "'z zcbor \<Rightarrow> nat \<Rightarrow> nat \<Rightarrow> nat \<Rightarrow> 'z zcall \<Rightarrow> bytes" where
  "cbor_written Z n_states cap elem_count enc =
     take cap (zcbor_payload Z (snd (enc (zcbor_new_state Z n_states cap elem_count))))"

section \<open>The OSCORE structures\<close>

datatype alg_choice = alg_aead_int i32 | alg_aead_tstr bytes

record aad_array =
  aad_array_oscore_version :: u32
  aad_array_algorithms_alg_aead :: alg_choice
  aad_array_request_kid :: bytes
  aad_array_request_piv :: bytes
  aad_array_options :: bytes

record oscore_enc_structure =
  enc_structure_context :: bytes
  enc_structure_protected :: bytes
  enc_structure_external_aad :: bytes

datatype id_context_choice = id_context_bstr bytes | id_context_nil

record oscore_info =
  oscore_info_id :: bytes
  oscore_info_id_context :: id_context_choice
  oscore_info_alg_aead :: alg_choice
  oscore_info_type :: bytes
  oscore_info_L :: u32

definition encode_alg :: "'z zcbor \<Rightarrow> alg_choice \<Rightarrow> 'z zcall" where
  "encode_alg Z c = (case c of
      alg_aead_int i \<Rightarrow> zcbor_int32_encode Z i
    | alg_aead_tstr t \<Rightarrow> zcbor_tstr_encode Z t)"

definition encode_aad_array :: "'z zcbor \<Rightarrow> aad_array \<Rightarrow> 'z zcall" where
  "encode_aad_array Z input = z_list Z 5
     (z_and (zcbor_uint32_encode Z (aad_array_oscore_version input))
     (z_and (z_list Z 1 (encode_alg Z (aad_array_algorithms_alg_aead input)))
     (z_and (zcbor_bstr_encode Z (aad_array_request_kid input))
     (z_and (zcbor_bstr_encode Z (aad_array_request_piv input))
            (zcbor_bstr_encode Z (aad_array_options input))))))"

definition cbor_encode_aad_array :: "'z zcbor \<Rightarrow> nat \<Rightarrow> aad_array \<Rightarrow> bytes option" where
  "cbor_encode_aad_array Z cap input = cbor_entry Z 5 cap 1 (encode_aad_array Z input)"

definition encode_oscore_enc_structure :: "'z zcbor \<Rightarrow> oscore_enc_structure \<Rightarrow> 'z zcall" where
  "encode_oscore_enc_structure Z input = z_list Z 3
     (z_and (zcbor_tstr_encode Z (enc_structure_context input))
     (z_and (zcbor_bstr_encode Z (enc_structure_protected input))
            (zcbor_bstr_encode Z (enc_structure_external_aad input))))"

definition cbor_encode_oscore_enc_structure ::
    "'z zcbor \<Rightarrow> nat \<Rightarrow> oscore_enc_structure \<Rightarrow> bytes option" where
  "cbor_encode_oscore_enc_structure Z cap input =
     cbor_entry Z 3 cap 1 (encode_oscore_enc_structure Z input)"

definition encode_oscore_info :: "'z zcbor \<Rightarrow> oscore_info \<Rightarrow> 'z zcall" where
  "encode_oscore_info Z input = z_list Z 5
     (z_and (zcbor_bstr_encode Z (oscore_info_id input))
     (z_and (case oscore_info_id_context input of
               id_context_bstr b \<Rightarrow> zcbor_bstr_encode Z b
             | id_context_nil \<Rightarrow> zcbor_nil_put Z)
     (z_and (encode_alg Z (oscore_info_alg_aead input))
     (z_and (zcbor_tstr_encode Z (oscore_info_type input))
            (zcbor_uint32_encode Z (oscore_info_L input))))))"

definition cbor_encode_oscore_info :: "'z zcbor \<Rightarrow> nat \<Rightarrow> oscore_info \<Rightarrow> bytes option" where
  "cbor_encode_oscore_info Z cap input = cbor_entry Z 4 cap 1 (encode_oscore_info Z input)"

section \<open>Canonical CBOR\<close>

text \<open>The head of a data item (RFC 8949, section 3): major type and argument in the
  shortest form.\<close>

definition cbor_head :: "nat \<Rightarrow> nat \<Rightarrow> bytes" where
  "cbor_head major n =
     (if n < 24 then [of_nat (major * 32 + n)]
      else if n < 2 ^ 8 then [of_nat (major * 32 + 24), of_nat n]
      else if n < 2 ^ 16 then [of_nat (major * 32 + 25), of_nat (n div 256), of_nat n]
      else [of_nat (major * 32 + 26), of_nat (n div 2 ^ 24), of_nat (n div 2 ^ 16),
            of_nat (n div 2 ^ 8), of_nat n])"

definition cbor_uint :: "nat \<Rightarrow> bytes" where "cbor_uint n = cbor_head 0 n"
definition cbor_int :: "int \<Rightarrow> bytes" where
  "cbor_int i = (if 0 \<le> i then cbor_head 0 (nat i) else cbor_head 1 (nat (-1 - i)))"
definition cbor_bstr :: "bytes \<Rightarrow> bytes" where "cbor_bstr b = cbor_head 2 (length b) @ b"
definition cbor_tstr :: "bytes \<Rightarrow> bytes" where "cbor_tstr b = cbor_head 3 (length b) @ b"
definition cbor_array :: "nat \<Rightarrow> bytes" where "cbor_array n = cbor_head 4 n"
definition cbor_nil :: bytes where "cbor_nil = [0xF6]"

text \<open>\<open>encodes Z d k p e\<close>: from a state with \<open>d\<close> backups left, the call \<open>p\<close> appends
  exactly the \<open>k\<close> items \<open>e\<close> if there is room for them, and fails if there is not.\<close>

definition encodes :: "'z zcbor \<Rightarrow> nat \<Rightarrow> nat \<Rightarrow> 'z zcall \<Rightarrow> bytes \<Rightarrow> bool" where
  "encodes Z d k p e \<longleftrightarrow> (\<forall>s a i is. d \<le> zcbor_backups Z s \<and> zcbor_items Z s = (a, i) # is \<longrightarrow>
     (if length e \<le> zcbor_room Z s
      then \<exists>s'. p s = (True, s') \<and> zcbor_payload Z s' = zcbor_payload Z s @ e \<and>
                zcbor_room Z s' = zcbor_room Z s - length e \<and>
                zcbor_backups Z s' = zcbor_backups Z s \<and> zcbor_items Z s' = (a, i + k) # is
      else \<not> fst (p s)))"

text \<open>Opening a list writes its header and starts a new item count.  Closing a list that
  got the announced number of items writes nothing and counts it as an item of the
  enclosing list.\<close>

definition zcbor_list_laws :: "'z zcbor \<Rightarrow> bool" where
  "zcbor_list_laws Z \<longleftrightarrow>
     (\<forall>n s. 1 \<le> zcbor_backups Z s \<longrightarrow>
        (if length (cbor_array n) \<le> zcbor_room Z s
         then \<exists>s'. zcbor_list_start_encode Z n s = (True, s') \<and>
                   zcbor_payload Z s' = zcbor_payload Z s @ cbor_array n \<and>
                   zcbor_room Z s' = zcbor_room Z s - length (cbor_array n) \<and>
                   Suc (zcbor_backups Z s') = zcbor_backups Z s \<and>
                   zcbor_items Z s' = (n, 0) # zcbor_items Z s
         else \<not> fst (zcbor_list_start_encode Z n s))) \<and>
     (\<forall>n s a i is. zcbor_items Z s = (n, n) # (a, i) # is \<longrightarrow>
        (\<exists>s'. zcbor_list_end_encode Z n s = (True, s') \<and>
              zcbor_payload Z s' = zcbor_payload Z s \<and> zcbor_room Z s' = zcbor_room Z s \<and>
              zcbor_backups Z s' = Suc (zcbor_backups Z s) \<and> zcbor_items Z s' = (a, Suc i) # is))"

definition zcbor_canonical :: "'z zcbor \<Rightarrow> bool" where
  "zcbor_canonical Z \<longleftrightarrow>
     (\<forall>n cap k. zcbor_payload Z (zcbor_new_state Z n cap k) = [] \<and>
                zcbor_room Z (zcbor_new_state Z n cap k) = cap \<and>
                zcbor_backups Z (zcbor_new_state Z n cap k) = n - 2 \<and>
                zcbor_items Z (zcbor_new_state Z n cap k) = [(k, 0)]) \<and>
     (\<forall>u. encodes Z 0 1 (zcbor_uint32_encode Z u) (cbor_uint (unat u))) \<and>
     (\<forall>u. encodes Z 0 1 (zcbor_uint32_put Z u) (cbor_uint (unat u))) \<and>
     (\<forall>i. encodes Z 0 1 (zcbor_int32_encode Z i) (cbor_int (sint i))) \<and>
     (\<forall>b. length b < 2 ^ 32 \<longrightarrow> encodes Z 0 1 (zcbor_bstr_encode Z b) (cbor_bstr b)) \<and>
     (\<forall>b. length b < 2 ^ 32 \<longrightarrow> encodes Z 0 1 (zcbor_tstr_encode Z b) (cbor_tstr b)) \<and>
     encodes Z 0 1 (zcbor_nil_put Z) cbor_nil \<and>
     zcbor_list_laws Z"

lemma encodesD:
  assumes "encodes Z d k p e" and "d \<le> zcbor_backups Z s" and "zcbor_items Z s = (a, i) # is"
  shows "length e \<le> zcbor_room Z s \<Longrightarrow>
           \<exists>s'. p s = (True, s') \<and> zcbor_payload Z s' = zcbor_payload Z s @ e \<and>
                zcbor_room Z s' = zcbor_room Z s - length e \<and>
                zcbor_backups Z s' = zcbor_backups Z s \<and> zcbor_items Z s' = (a, i + k) # is"
    and "zcbor_room Z s < length e \<Longrightarrow> \<not> fst (p s)"
  using assms unfolding encodes_def by (metis linorder_not_less)+

lemma encodesI:
  assumes "\<And>s a i is. d \<le> zcbor_backups Z s \<Longrightarrow> zcbor_items Z s = (a, i) # is \<Longrightarrow>
      length e \<le> zcbor_room Z s \<Longrightarrow>
      \<exists>s'. p s = (True, s') \<and> zcbor_payload Z s' = zcbor_payload Z s @ e \<and>
           zcbor_room Z s' = zcbor_room Z s - length e \<and>
           zcbor_backups Z s' = zcbor_backups Z s \<and> zcbor_items Z s' = (a, i + k) # is"
    and "\<And>s a i is. d \<le> zcbor_backups Z s \<Longrightarrow> zcbor_items Z s = (a, i) # is \<Longrightarrow>
      zcbor_room Z s < length e \<Longrightarrow> \<not> fst (p s)"
  shows "encodes Z d k p e"
  using assms unfolding encodes_def by (simp add: not_le)

lemma z_and_not_fst: "\<not> fst (p s) \<Longrightarrow> \<not> fst (z_and p q s)"
  by (auto simp: z_and_def split: prod.splits bool.splits)

text \<open>Encoders compose as their encodings do.\<close>

lemma encodes_mono: "encodes Z d k p e \<Longrightarrow> d \<le> d' \<Longrightarrow> encodes Z d' k p e"
  unfolding encodes_def by (meson le_trans)

lemma encodes_and:
  assumes p: "encodes Z d k p e" and q: "encodes Z d k' q e'"
  shows "encodes Z d (k + k') (z_and p q) (e @ e')"
proof (rule encodesI)
  fix s a i "is"
  assume s: "d \<le> zcbor_backups Z s" "zcbor_items Z s = (a, i) # is"
  {
    assume room: "length (e @ e') \<le> zcbor_room Z s"
    then have "length e \<le> zcbor_room Z s" by simp
    from encodesD(1) [OF p s this] obtain s1 where s1: "p s = (True, s1)"
      "zcbor_payload Z s1 = zcbor_payload Z s @ e" "zcbor_room Z s1 = zcbor_room Z s - length e"
      "zcbor_backups Z s1 = zcbor_backups Z s" "zcbor_items Z s1 = (a, i + k) # is" by blast
    with s(1) room have "d \<le> zcbor_backups Z s1" "length e' \<le> zcbor_room Z s1" by auto
    from encodesD(1) [OF q this(1) s1(5) this(2)] s1
    show "\<exists>s'. z_and p q s = (True, s') \<and> zcbor_payload Z s' = zcbor_payload Z s @ e @ e' \<and>
           zcbor_room Z s' = zcbor_room Z s - length (e @ e') \<and>
           zcbor_backups Z s' = zcbor_backups Z s \<and> zcbor_items Z s' = (a, i + (k + k')) # is"
      by (auto simp: z_and_def add.assoc)
  next
    assume room: "zcbor_room Z s < length (e @ e')"
    show "\<not> fst (z_and p q s)"
    proof (cases "length e \<le> zcbor_room Z s")
      case True
      from encodesD(1) [OF p s this] obtain s1 where s1: "p s = (True, s1)"
        "zcbor_room Z s1 = zcbor_room Z s - length e"
        "zcbor_backups Z s1 = zcbor_backups Z s" "zcbor_items Z s1 = (a, i + k) # is" by blast
      with s(1) room True have "d \<le> zcbor_backups Z s1" "zcbor_room Z s1 < length e'" by auto
      from encodesD(2) [OF q this(1) s1(4) this(2)] s1(1) show ?thesis
        by (simp add: z_and_def)
    next
      case False
      with encodesD(2) [OF p s] show ?thesis by (simp add: z_and_not_fst)
    qed
  }
qed

lemma zcbor_list_startD:
  assumes "zcbor_list_laws Z" and "1 \<le> zcbor_backups Z s"
  shows "length (cbor_array n) \<le> zcbor_room Z s \<Longrightarrow>
      \<exists>s'. zcbor_list_start_encode Z n s = (True, s') \<and>
           zcbor_payload Z s' = zcbor_payload Z s @ cbor_array n \<and>
           zcbor_room Z s' = zcbor_room Z s - length (cbor_array n) \<and>
           Suc (zcbor_backups Z s') = zcbor_backups Z s \<and>
           zcbor_items Z s' = (n, 0) # zcbor_items Z s"
    and "zcbor_room Z s < length (cbor_array n) \<Longrightarrow> \<not> fst (zcbor_list_start_encode Z n s)"
proof -
  from assms have laws: "if length (cbor_array n) \<le> zcbor_room Z s
     then \<exists>s'. zcbor_list_start_encode Z n s = (True, s') \<and>
               zcbor_payload Z s' = zcbor_payload Z s @ cbor_array n \<and>
               zcbor_room Z s' = zcbor_room Z s - length (cbor_array n) \<and>
               Suc (zcbor_backups Z s') = zcbor_backups Z s \<and>
               zcbor_items Z s' = (n, 0) # zcbor_items Z s
     else \<not> fst (zcbor_list_start_encode Z n s)"
    unfolding zcbor_list_laws_def by blast
  {
    assume "length (cbor_array n) \<le> zcbor_room Z s"
    with laws show "\<exists>s'. zcbor_list_start_encode Z n s = (True, s') \<and>
           zcbor_payload Z s' = zcbor_payload Z s @ cbor_array n \<and>
           zcbor_room Z s' = zcbor_room Z s - length (cbor_array n) \<and>
           Suc (zcbor_backups Z s') = zcbor_backups Z s \<and>
           zcbor_items Z s' = (n, 0) # zcbor_items Z s" by simp
  next
    assume "zcbor_room Z s < length (cbor_array n)"
    with laws show "\<not> fst (zcbor_list_start_encode Z n s)" by simp
  }
qed

lemma encodes_list:
  assumes laws: "zcbor_list_laws Z" and body: "encodes Z d n body e"
  shows "encodes Z (Suc d) 1 (z_list Z n body) (cbor_array n @ e)"
proof (rule encodesI)
  fix s a i "is"
  assume s: "Suc d \<le> zcbor_backups Z s" "zcbor_items Z s = (a, i) # is"
  let ?h = "cbor_array n"
  have start: "\<exists>s1. zcbor_list_start_encode Z n s = (True, s1) \<and>
      zcbor_payload Z s1 = zcbor_payload Z s @ ?h \<and>
      zcbor_room Z s1 = zcbor_room Z s - length ?h \<and>
      Suc (zcbor_backups Z s1) = zcbor_backups Z s \<and> zcbor_items Z s1 = (n, 0) # (a, i) # is"
    if "length ?h \<le> zcbor_room Z s"
    using zcbor_list_startD(1) [OF laws _ that] s by simp
  {
    assume room: "length (?h @ e) \<le> zcbor_room Z s"
    then have "length ?h \<le> zcbor_room Z s" by simp
    from start [OF this] obtain s1 where s1: "zcbor_list_start_encode Z n s = (True, s1)"
      "zcbor_payload Z s1 = zcbor_payload Z s @ ?h" "zcbor_room Z s1 = zcbor_room Z s - length ?h"
      "Suc (zcbor_backups Z s1) = zcbor_backups Z s" "zcbor_items Z s1 = (n, 0) # (a, i) # is" by blast
    with s(1) room have "d \<le> zcbor_backups Z s1" "length e \<le> zcbor_room Z s1" by auto
    from encodesD(1) [OF body this(1) s1(5) this(2)] obtain s2 where s2: "body s1 = (True, s2)"
      "zcbor_payload Z s2 = zcbor_payload Z s1 @ e" "zcbor_room Z s2 = zcbor_room Z s1 - length e"
      "zcbor_backups Z s2 = zcbor_backups Z s1" "zcbor_items Z s2 = (n, n) # (a, i) # is" by auto
    with laws obtain s3 where s3: "zcbor_list_end_encode Z n s2 = (True, s3)"
      "zcbor_payload Z s3 = zcbor_payload Z s2" "zcbor_room Z s3 = zcbor_room Z s2"
      "zcbor_backups Z s3 = Suc (zcbor_backups Z s2)" "zcbor_items Z s3 = (a, Suc i) # is"
      unfolding zcbor_list_laws_def by blast
    from s1 s2 s3
    show "\<exists>s'. z_list Z n body s = (True, s') \<and>
           zcbor_payload Z s' = zcbor_payload Z s @ ?h @ e \<and>
           zcbor_room Z s' = zcbor_room Z s - length (?h @ e) \<and>
           zcbor_backups Z s' = zcbor_backups Z s \<and> zcbor_items Z s' = (a, i + 1) # is"
      by (auto simp: z_list_def z_and_def)
  next
    assume room: "zcbor_room Z s < length (?h @ e)"
    show "\<not> fst (z_list Z n body s)"
    proof (cases "length ?h \<le> zcbor_room Z s")
      case True
      from start [OF this] obtain s1 where s1: "zcbor_list_start_encode Z n s = (True, s1)"
        "zcbor_room Z s1 = zcbor_room Z s - length ?h"
        "Suc (zcbor_backups Z s1) = zcbor_backups Z s" "zcbor_items Z s1 = (n, 0) # (a, i) # is" by blast
      with s(1) room True have "d \<le> zcbor_backups Z s1" "zcbor_room Z s1 < length e" by auto
      from encodesD(2) [OF body this(1) s1(4) this(2)] s1(1) show ?thesis
        by (auto simp: z_list_def z_and_def split: prod.splits)
    next
      case False
      then have "\<not> fst (zcbor_list_start_encode Z n s)"
        using zcbor_list_startD(2) [OF laws] s(1) by simp
      then show ?thesis by (simp add: z_list_def z_and_not_fst)
    qed
  }
qed


text \<open>An entry point returns the encoding of its structure if it fits the buffer.\<close>

lemma cbor_entry_encodes:
  assumes Z: "zcbor_canonical Z" and enc: "encodes Z d k enc e" and d: "d \<le> n - 2"
  shows "cbor_entry Z n cap m enc = (if length e \<le> cap then Some e else None)"
proof -
  let ?s = "zcbor_new_state Z n cap m"
  have s: "zcbor_payload Z ?s = []" "zcbor_room Z ?s = cap" "d \<le> zcbor_backups Z ?s"
    "zcbor_items Z ?s = [(m, 0)]"
    using Z d by (auto simp: zcbor_canonical_def)
  show ?thesis
  proof (cases "length e \<le> cap")
    case True
    with encodesD(1) [OF enc s(3,4)] s(1,2) obtain s' where
      "enc ?s = (True, s')" "zcbor_payload Z s' = e" by auto
    with True show ?thesis by (simp add: cbor_entry_def)
  next
    case False
    with encodesD(2) [OF enc s(3,4)] s(2) have "\<not> fst (enc ?s)" by simp
    with False show ?thesis by (auto simp: cbor_entry_def split: prod.splits)
  qed
qed

lemma zcbor_canonical_items:
  assumes "zcbor_canonical Z"
  shows "encodes Z d (Suc 0) (zcbor_uint32_encode Z u) (cbor_uint (unat u))"
    and "encodes Z d (Suc 0) (zcbor_uint32_put Z u) (cbor_uint (unat u))"
    and "encodes Z d (Suc 0) (zcbor_int32_encode Z i) (cbor_int (sint i))"
    and "length b < 2 ^ 32 \<Longrightarrow> encodes Z d (Suc 0) (zcbor_bstr_encode Z b) (cbor_bstr b)"
    and "length b < 2 ^ 32 \<Longrightarrow> encodes Z d (Suc 0) (zcbor_tstr_encode Z b) (cbor_tstr b)"
    and "encodes Z d (Suc 0) (zcbor_nil_put Z) cbor_nil"
    and "zcbor_list_laws Z"
  using assms by (auto simp: zcbor_canonical_def intro: encodes_mono [of Z 0])

text \<open>The same composition for a list of \<open>n\<close> items, taken one by one.\<close>

lemma encodes_cons:
  "encodes Z d (Suc 0) p e \<Longrightarrow> encodes Z d (n - 1) q e' \<Longrightarrow> 0 < n \<Longrightarrow>
   encodes Z d n (z_and p q) (e @ e')"
  using encodes_and [of Z d "Suc 0" p e "n - 1" q e'] by simp

lemma encodes_array:
  "zcbor_canonical Z \<Longrightarrow> encodes Z (d - 1) n body e \<Longrightarrow> 0 < d \<Longrightarrow>
   encodes Z d (Suc 0) (z_list Z n body) (cbor_array n @ e)"
  using encodes_list [OF zcbor_canonical_items(7), of Z "d - 1" n body e] by simp

section \<open>The encodings of the OSCORE structures\<close>

definition alg_cbor :: "alg_choice \<Rightarrow> bytes" where
  "alg_cbor c = (case c of alg_aead_int i \<Rightarrow> cbor_int (sint i) | alg_aead_tstr t \<Rightarrow> cbor_tstr t)"

definition aad_array_cbor :: "aad_array \<Rightarrow> bytes" where
  "aad_array_cbor a = cbor_array 5 @ cbor_uint (unat (aad_array_oscore_version a)) @
     (cbor_array 1 @ alg_cbor (aad_array_algorithms_alg_aead a)) @
     cbor_bstr (aad_array_request_kid a) @ cbor_bstr (aad_array_request_piv a) @
     cbor_bstr (aad_array_options a)"

definition enc_structure_cbor :: "oscore_enc_structure \<Rightarrow> bytes" where
  "enc_structure_cbor e = cbor_array 3 @ cbor_tstr (enc_structure_context e) @
     cbor_bstr (enc_structure_protected e) @ cbor_bstr (enc_structure_external_aad e)"

definition oscore_info_cbor :: "oscore_info \<Rightarrow> bytes" where
  "oscore_info_cbor i = cbor_array 5 @ cbor_bstr (oscore_info_id i) @
     (case oscore_info_id_context i of id_context_bstr b \<Rightarrow> cbor_bstr b | id_context_nil \<Rightarrow> cbor_nil) @
     alg_cbor (oscore_info_alg_aead i) @ cbor_tstr (oscore_info_type i) @
     cbor_uint (unat (oscore_info_L i))"

definition alg_small :: "alg_choice \<Rightarrow> bool" where
  "alg_small c = (case c of alg_aead_int i \<Rightarrow> True | alg_aead_tstr t \<Rightarrow> length t < 2 ^ 32)"

lemma encodes_alg:
  "zcbor_canonical Z \<Longrightarrow> alg_small c \<Longrightarrow> encodes Z d (Suc 0) (encode_alg Z c) (alg_cbor c)"
  by (cases c) (auto simp: encode_alg_def alg_cbor_def alg_small_def zcbor_canonical_items)

lemma cbor_encode_aad_array_eq:
  assumes Z: "zcbor_canonical Z" and "alg_small (aad_array_algorithms_alg_aead a)"
    and "length (aad_array_request_kid a) < 2 ^ 32" "length (aad_array_request_piv a) < 2 ^ 32"
      "length (aad_array_options a) < 2 ^ 32"
  shows "cbor_encode_aad_array Z cap a =
    (if length (aad_array_cbor a) \<le> cap then Some (aad_array_cbor a) else None)"
proof -
  have "encodes Z 2 (Suc 0) (encode_aad_array Z a) (aad_array_cbor a)"
    unfolding encode_aad_array_def aad_array_cbor_def
    by (intro encodes_array encodes_cons) (use assms in \<open>simp_all add: zcbor_canonical_items encodes_alg\<close>)
  then show ?thesis
    unfolding cbor_encode_aad_array_def by (rule cbor_entry_encodes [OF Z]) simp
qed

lemma cbor_encode_oscore_enc_structure_eq:
  assumes Z: "zcbor_canonical Z" and "length (enc_structure_context a) < 2 ^ 32"
    "length (enc_structure_protected a) < 2 ^ 32" "length (enc_structure_external_aad a) < 2 ^ 32"
  shows "cbor_encode_oscore_enc_structure Z cap a =
    (if length (enc_structure_cbor a) \<le> cap then Some (enc_structure_cbor a) else None)"
proof -
  have "encodes Z 1 (Suc 0) (encode_oscore_enc_structure Z a) (enc_structure_cbor a)"
    unfolding encode_oscore_enc_structure_def enc_structure_cbor_def
    by (intro encodes_array encodes_cons) (use assms in \<open>simp_all add: zcbor_canonical_items\<close>)
  then show ?thesis
    unfolding cbor_encode_oscore_enc_structure_def by (rule cbor_entry_encodes [OF Z]) simp
qed

definition id_context_small :: "id_context_choice \<Rightarrow> bool" where
  "id_context_small c = (case c of id_context_bstr b \<Rightarrow> length b < 2 ^ 32 | id_context_nil \<Rightarrow> True)"

lemma cbor_encode_oscore_info_eq:
  assumes Z: "zcbor_canonical Z" and "length (oscore_info_id a) < 2 ^ 32"
    "id_context_small (oscore_info_id_context a)" "alg_small (oscore_info_alg_aead a)"
    "length (oscore_info_type a) < 2 ^ 32"
  shows "cbor_encode_oscore_info Z cap a =
    (if length (oscore_info_cbor a) \<le> cap then Some (oscore_info_cbor a) else None)"
proof -
  have "encodes Z d (Suc 0) (case c of
      id_context_bstr b \<Rightarrow> zcbor_bstr_encode Z b | id_context_nil \<Rightarrow> zcbor_nil_put Z)
    (case c of id_context_bstr b \<Rightarrow> cbor_bstr b | id_context_nil \<Rightarrow> cbor_nil)"
    if "id_context_small c" for c d
    using that by (cases c) (simp_all add: zcbor_canonical_items Z id_context_small_def)
  then have "encodes Z 2 (Suc 0) (encode_oscore_info Z a) (oscore_info_cbor a)"
    unfolding encode_oscore_info_def oscore_info_cbor_def
    by (intro encodes_array encodes_cons)
      (use assms in \<open>simp_all add: zcbor_canonical_items encodes_alg\<close>)
  then show ?thesis
    unfolding cbor_encode_oscore_info_def by (rule cbor_entry_encodes [OF Z]) simp
qed

section \<open>A library that satisfies the laws\<close>

text \<open>A state holds the capacity, the backups and the open lists and maps, the innermost first;
  the last is the payload itself.  Each has the number announced in its header (of items, or of
  pairs for a map), the number of items encoded and their bytes.  Closing a list writes the
  header again, for the number of items it got, if that is not longer than the first.\<close>

datatype zkind = Z_payload | Z_list | Z_map

type_synonym zframe = "zkind \<times> nat \<times> nat \<times> bytes"
type_synonym zstate = "nat \<times> nat \<times> zframe list"

fun frame_header :: "zkind \<Rightarrow> nat \<Rightarrow> bytes" where
  "frame_header Z_payload n = []"
| "frame_header Z_list n = cbor_array n"
| "frame_header Z_map n = cbor_head 5 n"

fun frame_items :: "zkind \<Rightarrow> nat \<Rightarrow> nat" where
  "frame_items Z_map n = 2 * n"
| "frame_items m n = n"

fun frame_number :: "zkind \<Rightarrow> nat \<Rightarrow> nat" where
  "frame_number Z_map i = i div 2"
| "frame_number m i = i"

fun frames_payload :: "zframe list \<Rightarrow> bytes" where
  "frames_payload [] = []"
| "frames_payload ((m, a, i, c) # fs) = frames_payload fs @ frame_header m a @ c"

fun rfc_item :: "bytes \<Rightarrow> zstate zcall" where
  "rfc_item e (cap, bk, (m, a, i, c) # fs) =
     (if length e \<le> cap - length (frames_payload ((m, a, i, c) # fs))
      then (True, (cap, bk, (m, a, Suc i, c @ e) # fs))
      else (False, (cap, bk, (m, a, i, c) # fs)))"
| "rfc_item e (cap, bk, []) = (False, (cap, bk, []))"

fun rfc_list_start :: "zkind \<Rightarrow> nat \<Rightarrow> zstate zcall" where
  "rfc_list_start m n (cap, bk, fs) =
     (if 1 \<le> bk \<and> length (frame_header m n) \<le> cap - length (frames_payload fs)
      then (True, (cap, bk - 1, (m, n, 0, []) # fs))
      else (False, (cap, bk, fs)))"

fun rfc_list_end :: "nat \<Rightarrow> zstate zcall" where
  "rfc_list_end n (cap, bk, (m, a, i, c) # (m', a', i', c') # fs) =
     (let new = frame_header m (frame_number m i) in
      (length new \<le> length (frame_header m a), (cap, Suc bk, (m', a', Suc i', c' @ new @ c) # fs)))"
| "rfc_list_end n s = (False, s)"

fun rfc_multi :: "(i32 \<Rightarrow> zstate zcall) \<Rightarrow> i32 list \<Rightarrow> zstate zcall" where
  "rfc_multi enc [] s = (True, s)"
| "rfc_multi enc (x # xs) s = z_and (enc x) (rfc_multi enc xs) s"

definition rfc8949_zcbor :: "zstate zcbor" where
  "rfc8949_zcbor = \<lparr>
     zcbor_new_state = (\<lambda>n cap k. (cap, n - 2, [(Z_payload, k, 0, [])])),
     zcbor_list_start_encode = rfc_list_start Z_list,
     zcbor_list_end_encode = rfc_list_end,
     zcbor_map_start_encode = rfc_list_start Z_map,
     zcbor_map_end_encode = rfc_list_end,
     zcbor_uint32_encode = (\<lambda>u. rfc_item (cbor_uint (unat u))),
     zcbor_uint32_put = (\<lambda>u. rfc_item (cbor_uint (unat u))),
     zcbor_int32_encode = (\<lambda>i. rfc_item (cbor_int (sint i))),
     zcbor_tstr_encode = (\<lambda>b. rfc_item (cbor_tstr b)),
     zcbor_bstr_encode = (\<lambda>b. rfc_item (cbor_bstr b)),
     zcbor_nil_put = rfc_item cbor_nil,
     zcbor_present_encode = (\<lambda>b enc s. if b then enc s else (True, s)),
     zcbor_multi_encode_minmax = (\<lambda>lo hi n enc xs s.
        if lo \<le> n \<and> n \<le> hi then rfc_multi enc (take n xs) s else (False, s)),
     zcbor_payload = (\<lambda>(cap, bk, fs). frames_payload fs),
     zcbor_room = (\<lambda>(cap, bk, fs). cap - length (frames_payload fs)),
     zcbor_backups = (\<lambda>(cap, bk, fs). bk),
     zcbor_items = (\<lambda>(cap, bk, fs). map (\<lambda>(m, a, i, c). (frame_items m a, i)) fs)\<rparr>"

lemma rfc_item_encodes: "encodes rfc8949_zcbor d 1 (rfc_item e) e"
proof (rule encodesI)
  fix s a i "is"
  assume "zcbor_items rfc8949_zcbor s = (a, i) # is"
  then obtain cap bk m n c fs where [simp]: "s = (cap, bk, (m, n, i, c) # fs)" "a = frame_items m n"
    "is = map (\<lambda>(m, a, i, c). (frame_items m a, i)) fs"
    by (cases s) (auto simp: rfc8949_zcbor_def)
  {
    assume "length e \<le> zcbor_room rfc8949_zcbor s"
    then show "\<exists>s'. rfc_item e s = (True, s') \<and>
        zcbor_payload rfc8949_zcbor s' = zcbor_payload rfc8949_zcbor s @ e \<and>
        zcbor_room rfc8949_zcbor s' = zcbor_room rfc8949_zcbor s - length e \<and>
        zcbor_backups rfc8949_zcbor s' = zcbor_backups rfc8949_zcbor s \<and>
        zcbor_items rfc8949_zcbor s' = (a, i + 1) # is"
      by (auto simp: rfc8949_zcbor_def)
  next
    assume "zcbor_room rfc8949_zcbor s < length e"
    then show "\<not> fst (rfc_item e s)" by (auto simp: rfc8949_zcbor_def)
  }
qed

lemma frame_number_items [simp]: "frame_number m (frame_items m n) = n"
  by (cases m) simp_all

lemma rfc8949_list_laws: "zcbor_list_laws rfc8949_zcbor"
proof -
  have "1 \<le> zcbor_backups rfc8949_zcbor s \<longrightarrow>
        (if length (cbor_array n) \<le> zcbor_room rfc8949_zcbor s
         then \<exists>s'. zcbor_list_start_encode rfc8949_zcbor n s = (True, s') \<and>
                   zcbor_payload rfc8949_zcbor s' = zcbor_payload rfc8949_zcbor s @ cbor_array n \<and>
                   zcbor_room rfc8949_zcbor s' = zcbor_room rfc8949_zcbor s - length (cbor_array n) \<and>
                   Suc (zcbor_backups rfc8949_zcbor s') = zcbor_backups rfc8949_zcbor s \<and>
                   zcbor_items rfc8949_zcbor s' = (n, 0) # zcbor_items rfc8949_zcbor s
         else \<not> fst (zcbor_list_start_encode rfc8949_zcbor n s))" for n s
    by (cases s) (auto simp: rfc8949_zcbor_def)
  moreover have "zcbor_items rfc8949_zcbor s = (n, n) # (a, i) # is \<longrightarrow>
        (\<exists>s'. zcbor_list_end_encode rfc8949_zcbor n s = (True, s') \<and>
              zcbor_payload rfc8949_zcbor s' = zcbor_payload rfc8949_zcbor s \<and>
              zcbor_room rfc8949_zcbor s' = zcbor_room rfc8949_zcbor s \<and>
              zcbor_backups rfc8949_zcbor s' = Suc (zcbor_backups rfc8949_zcbor s) \<and>
              zcbor_items rfc8949_zcbor s' = (a, Suc i) # is)" for n s a i "is"
    by (cases s) (auto simp: rfc8949_zcbor_def Let_def)
  ultimately show ?thesis unfolding zcbor_list_laws_def by blast
qed

lemma rfc8949_canonical: "zcbor_canonical rfc8949_zcbor"
  unfolding zcbor_canonical_def
  using rfc_item_encodes rfc8949_list_laws
  by (simp add: rfc8949_zcbor_def)

end
