(* ===== verification/Crypto_Wrapper.thy ===== *)
theory Crypto_Wrapper
  imports Byte_Array
begin

text \<open>
  \<^verbatim>\<open>inc/common/crypto_wrapper.h\<close> and \<^verbatim>\<open>src/common/crypto_wrapper.c\<close>, in the configuration
  TINYCRYPT with COMPACT25519.  The two libraries are not part of the repository: their
  functions are the fields of the records \<open>T\<close> and \<open>C\<close> that every wrapper takes, a pair of
  ``returned the expected value'' and the outputs.

  All wrappers are weak symbols, which an application may replace; the components above
  them therefore use the record \<open>crypto\<close> of wrapper functions.  \<open>tinycrypt_crypto\<close> is the
  record of the wrappers of this file.

  Enumerations the callers convert from received integers are \<open>int\<close> with named constants.
\<close>

section \<open>Algorithm identifiers\<close>

definition AES_CCM_16_64_128 :: int where "AES_CCM_16_64_128 = 10"
definition AES_CCM_16_128_128 :: int where "AES_CCM_16_128_128 = 30"
definition SHA_256 :: int where "SHA_256 = -16"
definition P256 :: int where "P256 = 1"
definition X25519 :: int where "X25519 = 4"
definition ES256 :: int where "ES256 = -7"
definition EdDSA :: int where "EdDSA = -8"

lemmas alg_consts [simp] =
  AES_CCM_16_64_128_def AES_CCM_16_128_128_def SHA_256_def P256_def X25519_def ES256_def
  EdDSA_def

datatype aes_operation = ENCRYPT | DECRYPT

section \<open>The libraries\<close>

record ('k, 'c, 'h, 's) tinycrypt =
  tc_aes128_set_encrypt_key :: "bytes \<Rightarrow> bool \<times> 'k"
  tc_ccm_config :: "'k \<Rightarrow> bytes \<Rightarrow> u32 \<Rightarrow> bool \<times> 'c"
  tc_ccm_decryption_verification :: "'c \<Rightarrow> u32 \<Rightarrow> bytes \<Rightarrow> bytes \<Rightarrow> bool \<times> bytes"
  tc_ccm_generation_encryption :: "'c \<Rightarrow> u32 \<Rightarrow> bytes \<Rightarrow> bytes \<Rightarrow> bool \<times> bytes"
  tc_hmac_zero :: 'h
  tc_hmac_set_key :: "'h \<Rightarrow> bytes \<Rightarrow> bool \<times> 'h"
  tc_hmac_init :: "'h \<Rightarrow> bool \<times> 'h"
  tc_hmac_update :: "'h \<Rightarrow> bytes \<Rightarrow> bool \<times> 'h"
  tc_hmac_final :: "'h \<Rightarrow> bool \<times> bytes"
  tc_sha256_init :: "bool \<times> 's"
  tc_sha256_update :: "'s \<Rightarrow> bytes \<Rightarrow> bool \<times> 's"
  tc_sha256_final :: "'s \<Rightarrow> bool \<times> bytes"

record compact25519 =
  edsign_sign :: "bytes \<Rightarrow> bytes \<Rightarrow> bytes \<Rightarrow> bytes"
  edsign_verify :: "bytes \<Rightarrow> bytes \<Rightarrow> bytes \<Rightarrow> bool"
  c25519_prepare :: "bytes \<Rightarrow> bytes"
  c25519_smult :: "bytes \<Rightarrow> bytes \<Rightarrow> bytes"
  compact_x25519_keygen :: "bytes \<Rightarrow> bytes \<times> bytes"

fun EXPECT_1 :: "bool \<times> 'a \<Rightarrow> 'a option" where
  "EXPECT_1 (True, a) = Some a"
| "EXPECT_1 (False, a) = None"

section \<open>The interface of the wrappers\<close>

text \<open>\<open>crypto_aead op in key nonce aad out_len tag_len\<close> are the bytes written through
  \<^verbatim>\<open>out\<close> and through \<^verbatim>\<open>tag\<close>; decryption writes no tag.\<close>

record crypto =
  crypto_aead :: "aes_operation \<Rightarrow> bytes \<Rightarrow> bytes \<Rightarrow> bytes \<Rightarrow> bytes \<Rightarrow> u32 \<Rightarrow> u32 \<Rightarrow> (bytes \<times> bytes) res"
  crypto_sign :: "int \<Rightarrow> bytes \<Rightarrow> bytes \<Rightarrow> bytes \<Rightarrow> bytes res"
  crypto_verify :: "int \<Rightarrow> bytes \<Rightarrow> bytes \<Rightarrow> bytes \<Rightarrow> bool res"
  crypto_hkdf_extract :: "int \<Rightarrow> bytes \<Rightarrow> bytes \<Rightarrow> bytes res"
  crypto_hkdf_expand :: "int \<Rightarrow> bytes \<Rightarrow> bytes \<Rightarrow> nat \<Rightarrow> bytes res"
  crypto_hkdf_sha_256 :: "bytes \<Rightarrow> bytes \<Rightarrow> bytes \<Rightarrow> nat \<Rightarrow> bytes res"
  crypto_shared_secret_derive :: "int \<Rightarrow> bytes \<Rightarrow> bytes \<Rightarrow> bytes res"
  crypto_hash :: "int \<Rightarrow> bytes \<Rightarrow> bytes res"

section \<open>Authenticated encryption\<close>

text \<open>AES-128 reads 16 bytes of the key, whatever its length.  The encryption writes
  ciphertext and tag through \<^verbatim>\<open>out\<close>; the tag is copied from \<^verbatim>\<open>out + out_len\<close>.\<close>

definition aead ::
    "('k, 'c, 'h, 's) tinycrypt \<Rightarrow> aes_operation \<Rightarrow> bytes \<Rightarrow> bytes \<Rightarrow> bytes \<Rightarrow> bytes \<Rightarrow>
     u32 \<Rightarrow> u32 \<Rightarrow> (bytes \<times> bytes) res" where
  "aead T op inb key nonce aad out_len tag_len =
     TRY (read_mem (Some key) 16) (\<lambda>key16.
     TRY_EXPECT (EXPECT_1 (tc_aes128_set_encrypt_key T key16)) (\<lambda>sched.
     TRY_EXPECT (EXPECT_1 (tc_ccm_config T sched nonce tag_len)) (\<lambda>c.
     if op = DECRYPT then
       TRY_EXPECT (EXPECT_1 (tc_ccm_decryption_verification T c out_len aad inb)) (\<lambda>out.
       Ok (out, []))
     else
       TRY_EXPECT (EXPECT_1 (tc_ccm_generation_encryption T c (out_len + tag_len) aad inb)) (\<lambda>out.
       TRY (read_mem (Some (drop (unat out_len) out)) (unat tag_len)) (\<lambda>tag.
       Ok (out, tag))))))"

section \<open>Signatures, key agreement, hash\<close>

definition sign :: "compact25519 \<Rightarrow> int \<Rightarrow> bytes \<Rightarrow> bytes \<Rightarrow> bytes \<Rightarrow> bytes res" where
  "sign C alg sk pk msg =
     (if alg = EdDSA then Ok (edsign_sign C pk sk msg) else Fail unsupported_ecdh_curve)"

definition verify :: "compact25519 \<Rightarrow> int \<Rightarrow> bytes \<Rightarrow> bytes \<Rightarrow> bytes \<Rightarrow> bool res" where
  "verify C alg pk msg sgnt =
     (if alg = EdDSA then Ok (edsign_verify C sgnt pk msg)
      else Fail crypto_operation_not_implemented)"

definition shared_secret_derive :: "compact25519 \<Rightarrow> int \<Rightarrow> bytes \<Rightarrow> bytes \<Rightarrow> bytes res" where
  "shared_secret_derive C alg sk pk =
     (if alg = X25519 then
        TRY (read_mem (Some sk) 32) (\<lambda>e. Ok (c25519_smult C pk (c25519_prepare C e)))
      else Fail crypto_operation_not_implemented)"

definition hash :: "('k, 'c, 'h, 's) tinycrypt \<Rightarrow> int \<Rightarrow> bytes \<Rightarrow> bytes res" where
  "hash T alg inb =
     (if alg = SHA_256 then
        TRY_EXPECT (EXPECT_1 (tc_sha256_init T)) (\<lambda>s.
        TRY_EXPECT (EXPECT_1 (tc_sha256_update T s inb)) (\<lambda>s1.
        TRY_EXPECT (EXPECT_1 (tc_sha256_final T s1)) Ok))
      else Fail crypto_operation_not_implemented)"

text \<open>The seed is hashed as it lies in memory (little endian) and expanded to a key pair;
  the sizes are those of X25519.  P-256 keys need another configuration: the function then
  returns without having written a key.\<close>

definition u32_le_bytes :: "u32 \<Rightarrow> bytes" where
  "u32_le_bytes x = map (\<lambda>i. ucast (drop_bit (8 * i) x)) [0, 1, 2, 3]"

definition X25519_KEY_SIZE :: u32 where "X25519_KEY_SIZE = 32"

definition ephemeral_dh_key_gen ::
    "('k, 'c, 'h, 's) tinycrypt \<Rightarrow> compact25519 \<Rightarrow> int \<Rightarrow> u32 \<Rightarrow> bytes \<times> bytes \<times> u32 \<Rightarrow>
     (bytes \<times> bytes \<times> u32) res" where
  "ephemeral_dh_key_gen T C alg seed old =
     (if alg = X25519 then
        TRY_EXPECT (EXPECT_1 (tc_sha256_init T)) (\<lambda>s.
        TRY_EXPECT (EXPECT_1 (tc_sha256_update T s (u32_le_bytes seed))) (\<lambda>s1.
        TRY_EXPECT (EXPECT_1 (tc_sha256_final T s1)) (\<lambda>extended_seed.
        let (sk, pk) = compact_x25519_keygen C extended_seed in Ok (sk, pk, X25519_KEY_SIZE))))
      else if alg = P256 then Ok old
      else Fail unsupported_ecdh_curve)"

section \<open>Key derivation\<close>

definition hkdf_extract :: "('k, 'c, 'h, 's) tinycrypt \<Rightarrow> int \<Rightarrow> bytes \<Rightarrow> bytes \<Rightarrow> bytes res" where
  "hkdf_extract T alg salt ikm =
     (if alg \<noteq> SHA_256 then Fail crypto_operation_not_implemented
      else
        TRY_EXPECT (EXPECT_1 (tc_hmac_set_key T (tc_hmac_zero T)
                                (if salt = [] then replicate 32 0 else salt))) (\<lambda>h.
        TRY_EXPECT (EXPECT_1 (tc_hmac_init T h)) (\<lambda>h1.
        TRY_EXPECT (EXPECT_1 (tc_hmac_update T h1 ikm)) (\<lambda>h2.
        TRY_EXPECT (EXPECT_1 (tc_hmac_final T h2)) Ok))))"

text \<open>One round of the expansion: the next block \<^verbatim>\<open>t\<close>.\<close>

definition hkdf_expand_block ::
    "('k, 'c, 'h, 's) tinycrypt \<Rightarrow> bytes \<Rightarrow> bytes \<Rightarrow> u8 \<Rightarrow> bytes \<Rightarrow> bytes res" where
  "hkdf_expand_block T prk info i t =
     TRY_EXPECT (EXPECT_1 (tc_hmac_set_key T (tc_hmac_zero T) prk)) (\<lambda>h.
     let h1 = snd (tc_hmac_init T h) in
     TRY_EXPECT (if 1 < i then EXPECT_1 (tc_hmac_update T h1 t) else Some h1) (\<lambda>h2.
     TRY_EXPECT (EXPECT_1 (tc_hmac_update T h2 info)) (\<lambda>h3.
     TRY_EXPECT (EXPECT_1 (tc_hmac_update T h3 [i])) (\<lambda>h4.
     TRY_EXPECT (EXPECT_1 (tc_hmac_final T h4)) Ok))))"

text \<open>The loop counter is an 8-bit integer, the number of rounds a 32-bit one.\<close>

function hkdf_expand_loop ::
    "('k, 'c, 'h, 's) tinycrypt \<Rightarrow> bytes \<Rightarrow> bytes \<Rightarrow> u32 \<Rightarrow> u32 \<Rightarrow> u8 \<Rightarrow> bytes \<Rightarrow> bytes \<Rightarrow> bytes res"
where
  "hkdf_expand_loop T prk info out_len iterations i t out =
     (if ucast i \<le> iterations then
        TRY (hkdf_expand_block T prk info i t) (\<lambda>t'.
        TRY (write_mem out ((int (unat i) - 1) * 32)
               (take (if out_len < ucast i * 32 then unat (out_len mod 32) else 32) t')) (\<lambda>out'.
        hkdf_expand_loop T prk info out_len iterations (i + 1) t' out'))
      else Ok out)"
  by pat_completeness auto
termination
proof (relation "measure (\<lambda>(T, prk, info, out_len, iterations, i, t, out).
      if i = 0 then 0 else 256 - unat i)", goal_cases)
  case 1
  then show ?case by simp
next
  case (2 T prk info out_len iterations i t out t' out')
  then have "i \<noteq> 0" by (auto simp: write_mem_def)
  then have "unat i \<noteq> 0" by (metis unsigned_0 word_unat_eq_iff)
  with u8_nat_less [of i] have "i + 1 = 0 \<or> unat (i + 1) = unat i + 1"
    by (cases "unat i = 255") (auto simp: unat_u8_Suc word_unat_eq_iff)
  with \<open>i \<noteq> 0\<close> u8_nat_less [of i] show ?case by auto
qed

declare hkdf_expand_loop.simps [simp del]

definition hkdf_expand ::
    "('k, 'c, 'h, 's) tinycrypt \<Rightarrow> int \<Rightarrow> bytes \<Rightarrow> bytes \<Rightarrow> bytes \<Rightarrow> u32 \<Rightarrow> bytes res" where
  "hkdf_expand T alg prk info out out_len =
     (if alg \<noteq> SHA_256 then Fail crypto_operation_not_implemented
      else let iterations = (out_len + 31) div 32 in
        if 255 < iterations then Fail hkdf_fialed
        else hkdf_expand_loop T prk info out_len iterations 1 (replicate 32 0) out)"

definition hkdf_sha_256 ::
    "('k, 'c, 'h, 's) tinycrypt \<Rightarrow> bytes \<Rightarrow> bytes \<Rightarrow> bytes \<Rightarrow> bytes \<Rightarrow> bytes res" where
  "hkdf_sha_256 T master_secret master_salt info out =
     TRY (hkdf_extract T SHA_256 master_salt master_secret) (\<lambda>prk.
     hkdf_expand T SHA_256 prk info out (of_nat (length out)))"

definition tinycrypt_crypto :: "('k, 'c, 'h, 's) tinycrypt \<Rightarrow> compact25519 \<Rightarrow> crypto" where
  "tinycrypt_crypto T C = \<lparr>
     crypto_aead = aead T,
     crypto_sign = sign C,
     crypto_verify = verify C,
     crypto_hkdf_extract = hkdf_extract T,
     crypto_hkdf_expand = (\<lambda>alg prk info n. hkdf_expand T alg prk info (replicate n 0) (of_nat n)),
     crypto_hkdf_sha_256 = (\<lambda>secret salt info n. hkdf_sha_256 T secret salt info (replicate n 0)),
     crypto_shared_secret_derive = shared_secret_derive C,
     crypto_hash = hash T\<rparr>"

end
