(* ===== verification/Oscore_Context.thy ===== *)
theory Oscore_Context
  imports Coap_Option Cbor_Encode Crypto_Wrapper
begin

text \<open>
  The security context of OSCORE: \<^verbatim>\<open>inc/oscore/security_context.h\<close>,
  \<^verbatim>\<open>inc/oscore/supported_algorithm.h\<close>, \<^verbatim>\<open>inc/oscore.h\<close>, and \<^verbatim>\<open>nonce.c\<close>, \<^verbatim>\<open>aad.c\<close>,
  \<^verbatim>\<open>oscore_hkdf_info.c\<close> and \<^verbatim>\<open>security_context.c\<close> of \<^verbatim>\<open>src/oscore\<close>.

  A byte array of the context is the list of its \<^verbatim>\<open>len\<close> bytes.  The buffer behind it may
  be longer; no function reads it beyond \<^verbatim>\<open>len\<close>, and where a copy is checked against the
  size of the buffer, that size is the constant of the source.  The wrappers of the crypto
  libraries are the parameter \<open>C\<close>, the zcbor library the parameter \<open>Z\<close>.
\<close>

section \<open>Constants and the context\<close>

definition MAX_PIV_LEN :: nat where "MAX_PIV_LEN = 5"
definition MAX_KID_CONTEXT_LEN :: nat where "MAX_KID_CONTEXT_LEN = 8"
definition MAX_KID_LEN :: nat where "MAX_KID_LEN = 7"
definition MAX_AAD_LEN :: nat where "MAX_AAD_LEN = 30"
definition MAX_INFO_LEN :: nat where "MAX_INFO_LEN = 50"
definition MAX_I_OPTIONS :: nat where "MAX_I_OPTIONS = 30"
definition AUTH_TAG_LEN :: nat where "AUTH_TAG_LEN = 8"
definition NONCE_LEN :: nat where "NONCE_LEN = 13"
definition COMMON_IV_LEN :: nat where "COMMON_IV_LEN = 13"
definition MASTER_SECRET_LEN :: nat where "MASTER_SECRET_LEN = 16"
definition SENDER_KEY_LEN :: nat where "SENDER_KEY_LEN = MASTER_SECRET_LEN"
definition RECIPIENT_KEY_LEN :: nat where "RECIPIENT_KEY_LEN = MASTER_SECRET_LEN"
definition REPLAY_WINDOW_LEN :: nat where "REPLAY_WINDOW_LEN = 32"
definition OSCORE_SHA_256 :: int where "OSCORE_SHA_256 = 0"
definition OSCORE_AES_CCM_16_64_128 :: int where "OSCORE_AES_CCM_16_64_128 = 10"

lemmas context_consts [simp] =
  MAX_PIV_LEN_def MAX_KID_CONTEXT_LEN_def MAX_KID_LEN_def MAX_AAD_LEN_def MAX_INFO_LEN_def
  MAX_I_OPTIONS_def AUTH_TAG_LEN_def NONCE_LEN_def COMMON_IV_LEN_def MASTER_SECRET_LEN_def
  SENDER_KEY_LEN_def RECIPIENT_KEY_LEN_def REPLAY_WINDOW_LEN_def OSCORE_SHA_256_def
  OSCORE_AES_CCM_16_64_128_def

datatype dev_type = SERVER | CLIENT
datatype derive_type = KEY | IV

record common_context =
  cc_aead_alg :: int
  cc_kdf :: int
  cc_master_secret :: bytes
  cc_master_salt :: bytes
  cc_id_context :: bytes
  cc_common_iv :: bytes

record sender_context =
  sc_sender_id :: bytes
  sc_sender_key :: bytes
  sc_sender_seq_num :: u64

record recipient_context =
  rc_recipient_id :: bytes
  rc_recipient_key :: bytes
  rc_replay_window :: "u64 list"
  rc_replay_window_len :: u8

record req_resp_context =
  rrc_nonce :: bytes
  rrc_aad :: bytes
  rrc_piv :: bytes
  rrc_kid_context :: bytes
  rrc_kid :: bytes

record oscore_ctx =
  rrc :: req_resp_context
  cc :: common_context
  sc :: sender_context
  rc :: recipient_context

record oscore_init_params =
  p_dev_type :: dev_type
  p_master_secret :: bytes
  p_sender_id :: bytes
  p_recipient_id :: bytes
  p_id_context :: bytes
  p_master_salt :: bytes
  p_aead_alg :: int
  p_hkdf :: int

section \<open>The nonce\<close>

text \<open>The exclusive or with the Common IV, byte by byte.\<close>

definition xor_into :: "bytes \<Rightarrow> bytes \<Rightarrow> bytes res" where
  "xor_into nonce iv =
     TRY (for_arr (length iv) 0 iv
       (\<lambda>b (n, i). TRY (arr_get n i) (\<lambda>x. TRY (arr_set n i (x XOR b)) (\<lambda>n'. Ok (n', Suc i))))
       (nonce, 0)) (\<lambda>(n, i). Ok n)"

definition create_nonce :: "bytes \<Rightarrow> bytes \<Rightarrow> bytes \<Rightarrow> bytes \<Rightarrow> bytes res" where
  "create_nonce id_piv piv common_iv nonce =
     TRY (memcpy_s (replicate MAX_PIV_LEN 0) (int MAX_PIV_LEN - int (length piv))
            (of_nat (length piv)) (Some piv) (of_nat (length piv))) (\<lambda>padded_piv.
     let padded_id_piv_len = NONCE_LEN - MAX_PIV_LEN - 1 in
     TRY (memcpy_s (replicate padded_id_piv_len 0) (int padded_id_piv_len - int (length id_piv))
            (of_nat (length id_piv)) (Some id_piv) (of_nat (length id_piv))) (\<lambda>padded_id_piv.
     TRY (arr_set nonce 0 (of_nat (length id_piv))) (\<lambda>n1.
     TRY (memcpy_s n1 1 (of_nat padded_id_piv_len) (Some padded_id_piv)
            (of_nat padded_id_piv_len)) (\<lambda>n2.
     TRY (memcpy_s n2 (1 + int padded_id_piv_len) (of_nat MAX_PIV_LEN) (Some padded_piv)
            (of_nat MAX_PIV_LEN)) (\<lambda>n3.
     xor_into n3 common_iv)))))"

section \<open>The additional authenticated data\<close>

text \<open>\<open>out\<close> is the byte array the result goes to: its length is the room the encoder gets.
  A failing encoder may have written part of its output.\<close>

definition create_aad ::
    "'z zcbor \<Rightarrow> o_coap_option list \<Rightarrow> u16 \<Rightarrow> int \<Rightarrow> bytes \<Rightarrow> bytes \<Rightarrow> (bytes, unit) act" where
  "create_aad Z opts opt_num aead_alg kid piv = (\<lambda>out.
     TRYS (liftS (encoded_option_len opts opt_num CLASS_I)) (\<lambda>encoded_opt_i_len.
     TRYS (liftS (check_buffer_size (of_nat MAX_I_OPTIONS) encoded_opt_i_len)) (\<lambda>_.
     TRYS (liftS (encode_options opts opt_num CLASS_I
                    (replicate (unat encoded_opt_i_len) 0) encoded_opt_i_len)) (\<lambda>opts_i.
     let aad = \<lparr>aad_array_oscore_version = 1,
                aad_array_algorithms_alg_aead = alg_aead_int (of_int aead_alg),
                aad_array_request_kid = kid, aad_array_request_piv = piv,
                aad_array_options = opts_i\<rparr>
     in (\<lambda>out. case cbor_encode_aad_array Z (length out) aad of
           Some b \<Rightarrow> (Ok (), b)
         | None \<Rightarrow> (let w = cbor_written Z 5 (length out) 1 (encode_aad_array Z aad)
                    in (Fail unexpected_result_from_ext_lib, w @ drop (length w) out)))))) out)"

section \<open>Key derivation\<close>

definition derive_type_bytes :: "derive_type \<Rightarrow> bytes" where
  "derive_type_bytes t = (case t of KEY \<Rightarrow> [0x4B, 0x65, 0x79] | IV \<Rightarrow> [0x49, 0x56])"

definition derive_type_len :: "derive_type \<Rightarrow> u8" where
  "derive_type_len t = (case t of KEY \<Rightarrow> 16 | IV \<Rightarrow> 13)"

definition oscore_create_hkdf_info ::
    "'z zcbor \<Rightarrow> bytes \<Rightarrow> bytes \<Rightarrow> int \<Rightarrow> derive_type \<Rightarrow> nat \<Rightarrow> bytes res" where
  "oscore_create_hkdf_info Z id_bytes id_context aead_alg type out_len =
     (case cbor_encode_oscore_info Z out_len
        \<lparr>oscore_info_id = id_bytes,
         oscore_info_id_context =
           (if length id_context = 0 then id_context_nil else id_context_bstr id_context),
         oscore_info_alg_aead = alg_aead_int (of_int aead_alg),
         oscore_info_type = derive_type_bytes type,
         oscore_info_L = ucast (derive_type_len type)\<rparr> of
        None \<Rightarrow> Fail cbor_encoding_error
      | Some b \<Rightarrow> Ok b)"

definition derive ::
    "crypto \<Rightarrow> 'z zcbor \<Rightarrow> common_context \<Rightarrow> bytes \<Rightarrow> derive_type \<Rightarrow> nat \<Rightarrow> bytes res" where
  "derive C Z c id_bytes type n =
     TRY (oscore_create_hkdf_info Z id_bytes (cc_id_context c) (cc_aead_alg c) type MAX_INFO_LEN) (\<lambda>info.
     if cc_kdf c = OSCORE_SHA_256
     then crypto_hkdf_sha_256 C (cc_master_secret c) (cc_master_salt c) info n
     else Fail oscore_unknown_hkdf)"

definition derive_common_iv :: "crypto \<Rightarrow> 'z zcbor \<Rightarrow> (oscore_ctx, unit) act" where
  "derive_common_iv C Z = (\<lambda>c.
     TRYS (liftS (derive C Z (cc c) [] IV (length (cc_common_iv (cc c))))) (\<lambda>iv.
     setS (\<lambda>c. c\<lparr>cc := (cc c)\<lparr>cc_common_iv := iv\<rparr>\<rparr>)) c)"

definition derive_sender_key :: "crypto \<Rightarrow> 'z zcbor \<Rightarrow> (oscore_ctx, unit) act" where
  "derive_sender_key C Z = (\<lambda>c.
     TRYS (liftS (derive C Z (cc c) (sc_sender_id (sc c)) KEY (length (sc_sender_key (sc c))))) (\<lambda>k.
     setS (\<lambda>c. c\<lparr>sc := (sc c)\<lparr>sc_sender_key := k\<rparr>\<rparr>)) c)"

definition derive_recipient_key :: "crypto \<Rightarrow> 'z zcbor \<Rightarrow> (oscore_ctx, unit) act" where
  "derive_recipient_key C Z = (\<lambda>c.
     TRYS (liftS (derive C Z (cc c) (rc_recipient_id (rc c)) KEY
                    (length (rc_recipient_key (rc c))))) (\<lambda>k.
     setS (\<lambda>c. c\<lparr>rc := (rc c)\<lparr>rc_recipient_key := k\<rparr>\<rparr>)) c)"

section \<open>Updating the context\<close>

text \<open>A checked copy to a byte array of the context, whose length becomes that of the
  source.\<close>

definition copy_array :: "u32 \<Rightarrow> byte_array \<Rightarrow> bytes res" where
  "copy_array dest_len a =
     TRY (check_buffer_size dest_len (ba_len a)) (\<lambda>_. read_mem (ba_ptr a) (unat (ba_len a)))"

definition context_update_ids ::
    "crypto \<Rightarrow> 'z zcbor \<Rightarrow> byte_array \<Rightarrow> (oscore_ctx, unit) act" where
  "context_update_ids C Z new_kid_context =
     TRYS (liftS (copy_array (of_nat MAX_KID_CONTEXT_LEN) new_kid_context)) (\<lambda>kc.
     TRYS (setS (\<lambda>c. c\<lparr>rrc := (rrc c)\<lparr>rrc_kid_context := kc\<rparr>\<rparr>)) (\<lambda>_.
     TRYS (getS (\<lambda>c. length (cc_id_context (cc c)))) (\<lambda>room.
     TRYS (liftS (copy_array (of_nat room) new_kid_context)) (\<lambda>ic.
     TRYS (setS (\<lambda>c. c\<lparr>cc := (cc c)\<lparr>cc_id_context := ic\<rparr>\<rparr>)) (\<lambda>_.
     TRYS (derive_common_iv C Z) (\<lambda>_.
     TRYS (derive_sender_key C Z) (\<lambda>_.
     derive_recipient_key C Z)))))))"

definition context_update_server ::
    "crypto \<Rightarrow> 'z zcbor \<Rightarrow> byte_array \<Rightarrow> byte_array \<Rightarrow> (oscore_ctx, unit) act" where
  "context_update_server C Z new_piv new_kid_context =
     TRYS (liftS (copy_array (of_nat MAX_PIV_LEN) new_piv)) (\<lambda>piv.
     TRYS (setS (\<lambda>c. c\<lparr>rrc := (rrc c)\<lparr>rrc_piv := piv\<rparr>\<rparr>)) (\<lambda>_.
     TRYS (\<lambda>c. liftS (array_equals (array_of (cc_id_context (cc c))) new_kid_context) c) (\<lambda>eq.
     if \<not> eq then context_update_ids C Z new_kid_context else liftS (Ok ()))))"

definition context_update_nonce :: "(oscore_ctx, unit) act" where
  "context_update_nonce = (\<lambda>c.
     TRYS (liftS (create_nonce (rrc_kid (rrc c)) (rrc_piv (rrc c)) (cc_common_iv (cc c))
                    (rrc_nonce (rrc c)))) (\<lambda>nonce.
     setS (\<lambda>c. c\<lparr>rrc := (rrc c)\<lparr>rrc_nonce := nonce\<rparr>\<rparr>)) c)"

definition context_update_aad ::
    "'z zcbor \<Rightarrow> o_coap_option list \<Rightarrow> u16 \<Rightarrow> (oscore_ctx, unit) act" where
  "context_update_aad Z opts opt_num = (\<lambda>c.
     let (r, aad) = create_aad Z opts opt_num (cc_aead_alg (cc c)) (rrc_kid (rrc c))
                      (rrc_piv (rrc c)) (rrc_aad (rrc c))
     in (r, c\<lparr>rrc := (rrc c)\<lparr>rrc_aad := aad\<rparr>\<rparr>))"

definition context_update ::
    "crypto \<Rightarrow> 'z zcbor \<Rightarrow> dev_type \<Rightarrow> o_coap_option list \<Rightarrow> u16 \<Rightarrow> byte_array \<Rightarrow> byte_array \<Rightarrow>
     (oscore_ctx, unit) act" where
  "context_update C Z dev opts opt_num new_piv new_kid_context =
     TRYS (if dev = SERVER then context_update_server C Z new_piv new_kid_context
           else liftS (Ok ())) (\<lambda>_.
     TRYS context_update_nonce (\<lambda>_.
     context_update_aad Z opts opt_num))"

section \<open>Initialisation\<close>

text \<open>The buffers of the request-response context get their full length; their contents
  are those of the structure before the call, here zero.\<close>

definition oscore_context_init ::
    "crypto \<Rightarrow> 'z zcbor \<Rightarrow> oscore_init_params \<Rightarrow> (oscore_ctx, unit) act" where
  "oscore_context_init C Z params =
     TRYS (liftS (if p_aead_alg params \<noteq> OSCORE_AES_CCM_16_64_128
                  then Fail oscore_invalid_algorithm_aead else Ok ())) (\<lambda>_.
     TRYS (setS (\<lambda>c. c\<lparr>cc := (cc c)\<lparr>cc_aead_alg := OSCORE_AES_CCM_16_64_128\<rparr>\<rparr>)) (\<lambda>_.
     TRYS (liftS (if p_hkdf params \<noteq> OSCORE_SHA_256
                  then Fail oscore_invalid_algorithm_hkdf else Ok ())) (\<lambda>_.
     TRYS (setS (\<lambda>c. c\<lparr>cc := (cc c)\<lparr>cc_kdf := OSCORE_SHA_256,
             cc_master_secret := p_master_secret params,
             cc_master_salt := p_master_salt params,
             cc_id_context := p_id_context params,
             cc_common_iv := replicate COMMON_IV_LEN 0\<rparr>\<rparr>)) (\<lambda>_.
     TRYS (derive_common_iv C Z) (\<lambda>_.
     TRYS (setS (\<lambda>c. c\<lparr>rc := (rc c)\<lparr>rc_replay_window_len := of_nat REPLAY_WINDOW_LEN,
             rc_replay_window := replicate REPLAY_WINDOW_LEN 0,
             rc_recipient_id := p_recipient_id params,
             rc_recipient_key := replicate RECIPIENT_KEY_LEN 0\<rparr>\<rparr>)) (\<lambda>_.
     TRYS (derive_recipient_key C Z) (\<lambda>_.
     TRYS (setS (\<lambda>c. c\<lparr>sc := (sc c)\<lparr>sc_sender_id := p_sender_id params,
             sc_sender_key := replicate SENDER_KEY_LEN 0\<rparr>\<rparr>)) (\<lambda>_.
     TRYS (derive_sender_key C Z) (\<lambda>_.
     TRYS (setS (\<lambda>c. c\<lparr>sc := (sc c)\<lparr>sc_sender_seq_num := 0\<rparr>,
             rrc := \<lparr>rrc_nonce = replicate NONCE_LEN 0, rrc_aad = replicate MAX_AAD_LEN 0,
                     rrc_piv = replicate MAX_PIV_LEN 0,
                     rrc_kid_context = replicate MAX_KID_CONTEXT_LEN 0,
                     rrc_kid = replicate MAX_KID_LEN 0\<rparr>\<rparr>)) (\<lambda>_.
     if p_dev_type params = CLIENT then
       TRYS (liftS (copy_array (of_nat MAX_KID_CONTEXT_LEN) (array_of (p_id_context params)))) (\<lambda>kc.
       TRYS (setS (\<lambda>c. c\<lparr>rrc := (rrc c)\<lparr>rrc_kid_context := kc\<rparr>\<rparr>)) (\<lambda>_.
       TRYS (liftS (copy_array (of_nat MAX_KID_LEN) (array_of (p_sender_id params)))) (\<lambda>kid.
       setS (\<lambda>c. c\<lparr>rrc := (rrc c)\<lparr>rrc_kid := kid\<rparr>\<rparr>))))
     else
       TRYS (liftS (copy_array (of_nat MAX_KID_LEN) (array_of (p_recipient_id params)))) (\<lambda>kid.
       setS (\<lambda>c. c\<lparr>rrc := (rrc c)\<lparr>rrc_kid := kid\<rparr>\<rparr>))))))))))))"

section \<open>The Partial IV of a sequence number\<close>

text \<open>The sequence number as it lies in memory (little endian).  The loop looks for the
  most significant nonzero byte.\<close>

definition u64_le_bytes :: "u64 \<Rightarrow> bytes" where
  "u64_le_bytes x = map (\<lambda>i. ucast (drop_bit (8 * i) x)) [0, 1, 2, 3, 4, 5, 6, 7]"

fun sender_seq_num2piv_loop :: "nat \<Rightarrow> bytes \<Rightarrow> bytes res" where
  "sender_seq_num2piv_loop 0 p = Ok [0]"
| "sender_seq_num2piv_loop (Suc i) p =
     (if 0 < p ! i then copy_array (of_nat MAX_PIV_LEN) \<lparr>ba_len = of_nat (Suc i), ba_ptr = Some p\<rparr>
      else sender_seq_num2piv_loop i p)"

definition sender_seq_num2piv :: "u64 \<Rightarrow> bytes res" where
  "sender_seq_num2piv ssn = sender_seq_num2piv_loop 8 (u64_le_bytes ssn)"

end
