(* ===== verification/Oscore_Cose.thy ===== *)
theory Oscore_Cose
  imports Oscore_Context
begin

text \<open>
  \<^verbatim>\<open>src/oscore/oscore_cose.c\<close>: the Enc_structure of COSE, and encryption and decryption of
  the OSCORE plaintext.
\<close>

definition ENCRYPT0_ENCODING_OVERHEAD :: u32 where "ENCRYPT0_ENCODING_OVERHEAD = 16"

text \<open>The string ``Encrypt0''.\<close>

definition encrypt0_context :: bytes where
  "encrypt0_context = [0x45, 0x6e, 0x63, 0x72, 0x79, 0x70, 0x74, 0x30]"

definition create_enc_structure :: "'z zcbor \<Rightarrow> bytes \<Rightarrow> nat \<Rightarrow> bytes res" where
  "create_enc_structure Z external_aad out_len =
     (case cbor_encode_oscore_enc_structure Z out_len
        \<lparr>enc_structure_context = encrypt0_context, enc_structure_protected = [],
         enc_structure_external_aad = external_aad\<rparr> of
        None \<Rightarrow> Fail cbor_encoding_error
      | Some b \<Rightarrow> Ok b)"

text \<open>The result is the plaintext buffer \<open>out\<close> after the decryption.\<close>

definition oscore_cose_decrypt ::
    "crypto \<Rightarrow> 'z zcbor \<Rightarrow> byte_array \<Rightarrow> bytes \<Rightarrow> u32 \<Rightarrow> bytes \<Rightarrow> bytes \<Rightarrow> bytes \<Rightarrow> bytes res" where
  "oscore_cose_decrypt C Z in_ciphertext out out_len nonce recipient_aad key =
     (let aad_len = of_nat (length recipient_aad) + ENCRYPT0_ENCODING_OVERHEAD in
      TRY (check_buffer_size (of_nat MAX_AAD_LEN) aad_len) (\<lambda>_.
      TRY (create_enc_structure Z recipient_aad (unat aad_len)) (\<lambda>aad.
      TRY (read_mem (ba_ptr in_ciphertext) (unat (ba_len in_ciphertext))) (\<lambda>ct.
      TRY (crypto_aead C DECRYPT ct key nonce aad out_len 8) (\<lambda>(plain, _).
      write_mem out 0 plain)))))"

text \<open>The result is the ciphertext buffer \<open>out\<close> after the encryption: what the cipher wrote
  through \<^verbatim>\<open>out\<close>, and the tag behind the place of the ciphertext.\<close>

definition oscore_cose_encrypt ::
    "crypto \<Rightarrow> 'z zcbor \<Rightarrow> bytes \<Rightarrow> bytes \<Rightarrow> u32 \<Rightarrow> bytes \<Rightarrow> bytes \<Rightarrow> bytes \<Rightarrow> bytes res" where
  "oscore_cose_encrypt C Z in_plaintext out out_ciphertext_len nonce sender_aad key =
     (let aad_len = of_nat (length sender_aad) + ENCRYPT0_ENCODING_OVERHEAD in
      TRY (check_buffer_size (of_nat MAX_AAD_LEN) aad_len) (\<lambda>_.
      TRY (create_enc_structure Z sender_aad (unat aad_len)) (\<lambda>aad.
      TRY (crypto_aead C ENCRYPT in_plaintext key nonce aad (out_ciphertext_len - 8) 8) (\<lambda>(ct, tag).
      TRY (write_mem out 0 ct) (\<lambda>out1.
      write_mem out1 (int (length in_plaintext)) tag)))))"

end
