(* ===== verification/Oscore_Protect.thy ===== *)
theory Oscore_Protect
  imports Oscore_Cose
begin

text \<open>
  \<^verbatim>\<open>src/oscore/coap2oscore.c\<close>: protection of a CoAP packet.  The options are divided into
  protected (class E) and unprotected ones, code, E-options and payload make the plaintext,
  and the OSCORE packet carries the unprotected options, the OSCORE option and the
  ciphertext.

  The function has local structures and buffers that it does not initialise; what they hold
  before is the argument \<open>L\<close>.
\<close>

section \<open>Division of the options\<close>

definition extract_extra_bytes :: "u16 \<Rightarrow> u16" where
  "extract_extra_bytes v = (if 13 < v \<and> v < 243 then 1 else if 243 \<le> v then 2 else 0)"

record eu_state =
  eu_e_options :: "o_coap_option list"
  eu_e_cnt :: u8
  eu_e_len :: u16
  eu_u_options :: "o_coap_option list"
  eu_u_cnt :: u8
  eu_nr :: u8
  eu_e_sum :: u8
  eu_u_sum :: u8

definition e_u_option_extract :: "o_coap_option \<Rightarrow> eu_state \<Rightarrow> eu_state res" where
  "e_u_option_extract opt s =
     (let nr = ucast (ucast (eu_nr s) + opt_delta opt); len = opt_len opt in
      if is_class_e (ucast nr) then
        let delta = ucast nr - ucast (eu_e_sum s) in
        TRY (arr_set (eu_e_options s) (unat (eu_e_cnt s))
               \<lparr>opt_delta = delta, opt_len = len, opt_value = opt_value opt, opt_number = nr\<rparr>) (\<lambda>e.
        Ok (s\<lparr>eu_e_options := e, eu_e_cnt := eu_e_cnt s + 1,
              eu_e_len := eu_e_len s + 1 + extract_extra_bytes (opt_delta opt)
                          + extract_extra_bytes (ucast len) + ucast len,
              eu_nr := nr, eu_e_sum := ucast (ucast (eu_e_sum s) + delta)\<rparr>))
      else
        let delta = ucast nr - ucast (eu_u_sum s) in
        TRY (arr_set (eu_u_options s) (unat (eu_u_cnt s))
               \<lparr>opt_delta = delta, opt_len = len, opt_value = opt_value opt, opt_number = nr\<rparr>) (\<lambda>u.
        Ok (s\<lparr>eu_u_options := u, eu_u_cnt := eu_u_cnt s + 1,
              eu_nr := nr, eu_u_sum := ucast (ucast (eu_u_sum s) + delta)\<rparr>)))"

definition e_u_options_extract ::
    "o_coap_packet \<Rightarrow> o_coap_option list \<Rightarrow> o_coap_option list \<Rightarrow> eu_state res" where
  "e_u_options_extract pkt e u =
     for_arr (unat (options_cnt pkt)) 0 (options pkt) e_u_option_extract
       \<lparr>eu_e_options = e, eu_e_cnt = 0, eu_e_len = 0, eu_u_options = u, eu_u_cnt = 0,
        eu_nr = 0, eu_e_sum = 0, eu_u_sum = 0\<rparr>"

section \<open>The plaintext\<close>

definition MAX_PLAINTEXT_LEN :: nat where "MAX_PLAINTEXT_LEN = 128"
definition MAX_CIPHERTEXT_LEN :: nat where "MAX_CIPHERTEXT_LEN = MAX_PLAINTEXT_LEN + AUTH_TAG_LEN"
definition MAX_E_OPTIONS :: nat where "MAX_E_OPTIONS = 30"
definition OSCORE_OPT_VALUE_LEN :: nat where
  "OSCORE_OPT_VALUE_LEN = 2 + MAX_PIV_LEN + MAX_KID_CONTEXT_LEN + MAX_KID_LEN"

lemmas protect_consts [simp] =
  MAX_PLAINTEXT_LEN_def MAX_CIPHERTEXT_LEN_def MAX_E_OPTIONS_def OSCORE_OPT_VALUE_LEN_def

definition e_options_max_len :: "o_coap_option list \<Rightarrow> u8 \<Rightarrow> u16 res" where
  "e_options_max_len e cnt =
     for_arr (unat cnt) 0 e (\<lambda>opt n. Ok (n + 1 + 2 + 2 + ucast (opt_len opt))) 0"

text \<open>\<open>buf\<close> is the plaintext buffer, \<open>plaintext_len\<close> the length of the byte array on it.\<close>

definition plaintext_setup ::
    "o_coap_packet \<Rightarrow> o_coap_option list \<Rightarrow> u8 \<Rightarrow> bytes \<Rightarrow> u32 \<Rightarrow> bytes res" where
  "plaintext_setup pkt e cnt buf plaintext_len =
     TRY (write_mem buf 0 [hdr_code (header pkt)]) (\<lambda>buf1.
     TRY (e_options_max_len e cnt) (\<lambda>temp_opt_bytes_len.
     TRY (check_buffer_size (of_nat MAX_E_OPTIONS) (ucast temp_opt_bytes_len)) (\<lambda>_.
     TRY (options_into_byte_string e cnt (replicate MAX_E_OPTIONS 0) (ucast temp_opt_bytes_len))
       (\<lambda>(temp_opt_bytes, obl).
     TRY (memcpy_s buf1 1 (plaintext_len - 1) (Some temp_opt_bytes) obl) (\<lambda>buf2.
     let pos = 1 + unat obl in
     if payload_len pkt \<noteq> 0 then
       TRY (write_mem buf2 (int pos) [0xFF]) (\<lambda>buf3.
       memcpy_s buf3 (int (pos + 1)) (plaintext_len - of_nat (pos + 1)) (payload pkt)
         (payload_len pkt))
     else Ok buf2)))))"

definition plaintext_encrypt ::
    "crypto \<Rightarrow> 'z zcbor \<Rightarrow> oscore_ctx \<Rightarrow> bytes \<Rightarrow> bytes \<Rightarrow> u32 \<Rightarrow> bytes res" where
  "plaintext_encrypt C Z c in_plaintext out out_ciphertext_len =
     oscore_cose_encrypt C Z in_plaintext out out_ciphertext_len (rrc_nonce (rrc c))
       (rrc_aad (rrc c)) (sc_sender_key (sc c))"

section \<open>The OSCORE option\<close>

definition COMP_OSCORE_OPT_KIDC_H_MASK :: u8 where "COMP_OSCORE_OPT_KIDC_H_MASK = 0x10"
definition COMP_OSCORE_OPT_KID_K_MASK :: u8 where "COMP_OSCORE_OPT_KID_K_MASK = 0x08"
definition COMP_OSCORE_OPT_PIV_N_MASK :: u8 where "COMP_OSCORE_OPT_PIV_N_MASK = 0x07"

lemmas option_masks [simp] =
  COMP_OSCORE_OPT_KIDC_H_MASK_def COMP_OSCORE_OPT_KID_K_MASK_def COMP_OSCORE_OPT_PIV_N_MASK_def

definition get_oscore_opt_val_len :: "bytes \<Rightarrow> bytes \<Rightarrow> bytes \<Rightarrow> u8" where
  "get_oscore_opt_val_len piv kid kid_context =
     (let l = of_nat (length piv + length kid_context + length kid);
          l1 = (if l \<noteq> 0 then l + 1 else l)
      in if length kid_context \<noteq> 0 then l1 + 1 else l1)"

text \<open>The value of the option, \<open>opt_len\<close> bytes long.  \<open>pos\<close> is where \<^verbatim>\<open>temp_ptr\<close> points;
  after the Partial IV it points to the first byte not yet written, before it to the flag
  byte.\<close>

definition set_flags :: "bytes \<Rightarrow> u8 \<Rightarrow> bytes res" where
  "set_flags v m = TRY (arr_get v 0) (\<lambda>x. arr_set v 0 (x OR m))"

definition oscore_option_piv :: "u8 \<Rightarrow> bytes \<Rightarrow> bytes \<Rightarrow> (bytes \<times> nat) res" where
  "oscore_option_piv len piv v =
     (if length piv \<noteq> 0 then
        TRY (set_flags v (of_nat (length piv))) (\<lambda>v1.
        TRY (memcpy_s v1 1 (ucast len - 1) (Some piv) (of_nat (length piv))) (\<lambda>v2.
        Ok (v2, 1 + length piv)))
      else Ok (v, 0))"

definition oscore_option_kid_context :: "u8 \<Rightarrow> bytes \<Rightarrow> bytes \<Rightarrow> nat \<Rightarrow> (bytes \<times> nat) res" where
  "oscore_option_kid_context len kid_context v pos =
     (if length kid_context \<noteq> 0 then
        TRY (set_flags v COMP_OSCORE_OPT_KIDC_H_MASK) (\<lambda>v1.
        TRY (write_mem v1 (int pos) [of_nat (length kid_context)]) (\<lambda>v2.
        TRY (memcpy_s v2 (int (pos + 1)) (ucast len - of_nat (pos + 1)) (Some kid_context)
               (of_nat (length kid_context))) (\<lambda>v3.
        Ok (v3, pos + 1 + length kid_context))))
      else Ok (v, pos))"

definition oscore_option_kid :: "u8 \<Rightarrow> bytes \<Rightarrow> bytes \<Rightarrow> nat \<Rightarrow> bytes res" where
  "oscore_option_kid len kid v pos =
     TRY (set_flags v COMP_OSCORE_OPT_KID_K_MASK) (\<lambda>v1.
     if length kid \<noteq> 0
     then memcpy_s v1 (int pos) (ucast len - of_nat pos) (Some kid) (of_nat (length kid))
     else Ok v1)"

definition oscore_option_generate :: "bytes \<Rightarrow> bytes \<Rightarrow> bytes \<Rightarrow> u8 \<Rightarrow> o_coap_option res" where
  "oscore_option_generate piv kid kid_context len =
     (if len = 0 then
        Ok \<lparr>opt_delta = 0, opt_len = 0, opt_value = None, opt_number = ucast COAP_OPTION_OSCORE\<rparr>
      else
        TRY (oscore_option_piv len piv (replicate OSCORE_OPT_VALUE_LEN 0)) (\<lambda>(v1, pos1).
        TRY (oscore_option_kid_context len kid_context v1 pos1) (\<lambda>(v2, pos2).
        TRY (oscore_option_kid len kid v2 pos2) (\<lambda>v3.
        Ok \<lparr>opt_delta = 0, opt_len = len, opt_value = Some v3,
            opt_number = ucast COAP_OPTION_OSCORE\<rparr>))))"

section \<open>The OSCORE packet\<close>

text \<open>The position of the OSCORE option: before the first option with a greater number.\<close>

fun oscore_opt_pos_loop :: "nat \<Rightarrow> nat \<Rightarrow> o_coap_option list \<Rightarrow> nat \<Rightarrow> nat res" where
  "oscore_opt_pos_loop 0 i u dflt = Ok dflt"
| "oscore_opt_pos_loop (Suc k) i u dflt =
     TRY (arr_get u i) (\<lambda>opt.
     if COAP_OPTION_OSCORE < ucast (opt_number opt) then Ok i
     else oscore_opt_pos_loop k (Suc i) u dflt)"

text \<open>The loop over the output options with \<open>k\<close> rounds left, at output index \<open>i\<close>; \<open>upos\<close> is
  \<^verbatim>\<open>u_opt_pos\<close>, \<open>nsum\<close> the number of the last option.\<close>

fun oscore_pkg_options_loop ::
    "nat \<Rightarrow> nat \<Rightarrow> nat \<Rightarrow> u8 \<Rightarrow> nat \<Rightarrow> o_coap_option \<Rightarrow> o_coap_option list \<Rightarrow> o_coap_option list \<Rightarrow>
     o_coap_option list res" where
  "oscore_pkg_options_loop 0 i upos nsum pos osc u out = Ok out"
| "oscore_pkg_options_loop (Suc k) i upos nsum pos osc u out =
     TRY (if i = pos then Ok osc else arr_get u upos) (\<lambda>opt.
     let delta = ucast (opt_number opt) - ucast nsum in
     TRY (arr_set out i (opt\<lparr>opt_delta := delta\<rparr>)) (\<lambda>out'.
     oscore_pkg_options_loop k (Suc i) (if i = pos then upos else Suc upos)
       (ucast (ucast nsum + delta)) pos osc u out'))"

definition oscore_pkg_generate ::
    "o_coap_packet \<Rightarrow> o_coap_packet \<Rightarrow> o_coap_option list \<Rightarrow> u8 \<Rightarrow> bytes \<Rightarrow> u32 \<Rightarrow> o_coap_option \<Rightarrow>
     o_coap_packet res" where
  "oscore_pkg_generate pkt out u u_cnt ct ct_len osc =
     (let h = header pkt in
      TRY (oscore_opt_pos_loop (unat u_cnt) 0 u (unat u_cnt)) (\<lambda>pos.
      TRY (oscore_pkg_options_loop (Suc (unat u_cnt)) 0 0 0 pos osc u (options out)) (\<lambda>opts.
      Ok \<lparr>header = \<lparr>hdr_ver = hdr_ver h, hdr_type = hdr_type h, hdr_TKL = hdr_TKL h,
             hdr_code = (if hdr_code h AND CODE_CLASS_MASK = REQUEST_CLASS then CODE_REQ_POST
                         else CODE_RESP_CHANGED),
             hdr_MID = hdr_MID h\<rparr>,
          token = (if hdr_TKL h = 0 then None else token pkt),
          options_cnt = 1 + u_cnt, options = opts,
          payload_len = ct_len, payload = Some ct\<rparr>)))"

section \<open>Protection\<close>

text \<open>The local variables of \<^verbatim>\<open>coap2oscore\<close> that are not initialised.\<close>

record protect_locals =
  pl_o_coap_pkt :: o_coap_packet
  pl_e_options :: "o_coap_option list"
  pl_u_options :: "o_coap_option list"
  pl_plaintext :: bytes
  pl_ciphertext :: bytes
  pl_oscore_pkt :: o_coap_packet

definition protect_option ::
    "crypto \<Rightarrow> 'z zcbor \<Rightarrow> o_coap_packet \<Rightarrow> (oscore_ctx, o_coap_option) act" where
  "protect_option C Z pkt =
     (if CODE_CLASS_MASK AND hdr_code (header pkt) = 0 then
        TRYS (getS (\<lambda>c. sc_sender_seq_num (sc c))) (\<lambda>ssn.
        TRYS (setS (\<lambda>c. c\<lparr>sc := (sc c)\<lparr>sc_sender_seq_num := ssn + 1\<rparr>\<rparr>)) (\<lambda>_.
        TRYS (liftS (sender_seq_num2piv ssn)) (\<lambda>piv.
        TRYS (setS (\<lambda>c. c\<lparr>rrc := (rrc c)\<lparr>rrc_piv := piv\<rparr>\<rparr>)) (\<lambda>_.
        TRYS (context_update C Z CLIENT (options pkt) (ucast (options_cnt pkt))
                NULL_ARRAY NULL_ARRAY) (\<lambda>_.
        TRYS (getS rrc) (\<lambda>r.
        let len = get_oscore_opt_val_len (rrc_piv r) (rrc_kid r) (rrc_kid_context r) in
        liftS (if of_nat OSCORE_OPT_VALUE_LEN < len then Fail oscore_valuelen_to_long_error
               else oscore_option_generate (rrc_piv r) (rrc_kid r) (rrc_kid_context r) len)))))))
      else liftS (Ok \<lparr>opt_delta = 0, opt_len = 0, opt_value = None,
                      opt_number = ucast COAP_OPTION_OSCORE\<rparr>))"

text \<open>The OSCORE packet that is made from a CoAP packet, and its serialisation.\<close>

definition protect_to_packet ::
    "crypto \<Rightarrow> 'z zcbor \<Rightarrow> protect_locals \<Rightarrow> o_coap_packet \<Rightarrow> (oscore_ctx, o_coap_packet) act" where
  "protect_to_packet C Z L pkt =
     TRYS (liftS (e_u_options_extract pkt (pl_e_options L) (pl_u_options L))) (\<lambda>s.
     let plaintext_len0 = 1 + ucast (eu_e_len s);
         plaintext_len = (if payload_len pkt \<noteq> 0 then plaintext_len0 + 1 + payload_len pkt
                          else plaintext_len0) in
     TRYS (liftS (check_buffer_size (of_nat MAX_PLAINTEXT_LEN) plaintext_len)) (\<lambda>_.
     TRYS (liftS (plaintext_setup pkt (eu_e_options s) (eu_e_cnt s) (pl_plaintext L) plaintext_len))
       (\<lambda>plaintext.
     TRYS (protect_option C Z pkt) (\<lambda>osc.
     let ciphertext_len = plaintext_len + of_nat AUTH_TAG_LEN in
     TRYS (liftS (check_buffer_size (of_nat MAX_CIPHERTEXT_LEN) ciphertext_len)) (\<lambda>_.
     TRYS (\<lambda>c. liftS (plaintext_encrypt C Z c (take (unat plaintext_len) plaintext)
                        (pl_ciphertext L) ciphertext_len) c) (\<lambda>ct.
     liftS (oscore_pkg_generate pkt (pl_oscore_pkt L) (eu_u_options s) (eu_u_cnt s) ct
              ciphertext_len osc)))))))"

definition protect_packet ::
    "crypto \<Rightarrow> 'z zcbor \<Rightarrow> protect_locals \<Rightarrow> o_coap_packet \<Rightarrow> bytes \<Rightarrow> u32 \<Rightarrow>
     (oscore_ctx, bytes \<times> u32) act" where
  "protect_packet C Z L pkt out out_len =
     TRYS (protect_to_packet C Z L pkt) (\<lambda>oscore_pkt. liftS (coap2buf oscore_pkt out out_len))"

text \<open>\<open>inb\<close> is the packet, \<open>out\<close> the output buffer and \<open>out_len\<close> its declared size; the
  result is the output buffer and the length of the packet in it.\<close>

definition coap2oscore ::
    "crypto \<Rightarrow> 'z zcbor \<Rightarrow> protect_locals \<Rightarrow> bytes \<Rightarrow> bytes \<Rightarrow> u32 \<Rightarrow> (oscore_ctx, bytes \<times> u32) act"
where
  "coap2oscore C Z L inb out out_len =
     TRYS (liftS (buf2coap (pl_o_coap_pkt L) inb)) (\<lambda>pkt.
     if CODE_EMPTY = hdr_code (header pkt) \<and> TYPE_ACK = hdr_type (header pkt)
     then liftS (TRY (memcpy_s out 0 (of_nat (length inb)) (Some inb) (of_nat (length inb)))
                   (\<lambda>out'. Ok (out', of_nat (length inb))))
     else protect_packet C Z L pkt out out_len)"

end
