(* ===== verification/Replay_Window.thy ===== *)
theory Replay_Window
  imports Uoscore_Prelude "HOL-Library.Multiset"
begin

text \<open>
  The replay window of \<^verbatim>\<open>src/oscore/oscore2coap.c\<close>: \<open>replay_check\<close>,
  \<open>insert_sender_seq_number\<close> and \<open>update_replay_window\<close>.  The window is an array of sequence
  numbers, the list of its elements.
\<close>

section \<open>The check\<close>

fun replay_check_member :: "u64 \<Rightarrow> u64 list \<Rightarrow> nat \<Rightarrow> nat \<Rightarrow> unit res" where
  "replay_check_member ssn win 0 i = Ok ()"
| "replay_check_member ssn win (Suc k) i =
     TRY (arr_get win i) (\<lambda>x.
     if ssn = x then Fail replayed_packed_received else replay_check_member ssn win k (Suc i))"

text \<open>The window is compared only if \<^verbatim>\<open>first_run\<close> is false.  It is a local variable, set to
  true by its declaration.\<close>

definition replay_check_window :: "u64 \<Rightarrow> u64 list \<Rightarrow> u8 \<Rightarrow> unit res" where
  "replay_check_window ssn win len =
     TRY (arr_get win (unat len - 1)) (\<lambda>right.
     if right < ssn then Ok ()
     else TRY (arr_get win 0) (\<lambda>left.
       if ssn < left then Fail replayed_packed_received
       else replay_check_member ssn win (unat len) 0))"

definition replay_check :: "u64 \<Rightarrow> u64 list \<Rightarrow> u8 \<Rightarrow> unit res" where
  "replay_check ssn win len =
     (let first_run = True in if first_run then Ok () else replay_check_window ssn win len)"

section \<open>The update\<close>

fun shift_left_loop :: "nat \<Rightarrow> nat \<Rightarrow> u64 list \<Rightarrow> u64 list res" where
  "shift_left_loop 0 j win = Ok win"
| "shift_left_loop (Suc k) j win =
     TRY (arr_get win (j + 1)) (\<lambda>x. TRY (arr_set win j x) (\<lambda>win'. shift_left_loop k (Suc j) win'))"

definition insert_sender_seq_number :: "u64 \<Rightarrow> u64 list \<Rightarrow> nat \<Rightarrow> u64 list res" where
  "insert_sender_seq_number ssn win position =
     TRY (shift_left_loop position 0 win) (\<lambda>win'. arr_set win' position ssn)"

text \<open>The loop of \<^verbatim>\<open>update_replay_window\<close> with \<open>k\<close> rounds left; after it the number goes to
  position \<open>final_pos\<close>.\<close>

fun update_replay_window_loop :: "u64 \<Rightarrow> nat \<Rightarrow> nat \<Rightarrow> nat \<Rightarrow> u64 list \<Rightarrow> u64 list res" where
  "update_replay_window_loop ssn final_pos 0 i win = insert_sender_seq_number ssn win final_pos"
| "update_replay_window_loop ssn final_pos (Suc k) i win =
     TRY (arr_get win i) (\<lambda>a. TRY (arr_get win (i + 1)) (\<lambda>b.
     if a < ssn \<and> ssn < b then insert_sender_seq_number ssn win i
     else update_replay_window_loop ssn final_pos k (Suc i) win))"

definition update_replay_window :: "u64 \<Rightarrow> u64 list \<Rightarrow> u8 \<Rightarrow> u64 list res" where
  "update_replay_window ssn win len =
     update_replay_window_loop ssn (unat (len - 1)) (unat len - 1) 0 win"

section \<open>What the functions compute\<close>

lemma shift_left_loop_eq:
  "j + k < length win \<Longrightarrow>
   shift_left_loop k j win = Ok (take j win @ take k (drop (Suc j) win) @ drop (j + k) win)"
proof (induction k arbitrary: j win)
  case 0
  then show ?case by simp
next
  case (Suc k)
  let ?w = "win[j := win ! Suc j]"
  have "take j ?w = take j win" "?w ! j = win ! Suc j" "drop (Suc (Suc j)) ?w = drop (Suc (Suc j)) win"
    "drop (Suc (j + k)) ?w = drop (Suc (j + k)) win"
    using Suc.prems by simp_all
  moreover have "take (Suc j) ?w = take j win @ [win ! Suc j]" using Suc.prems by simp
  moreover have "take (Suc k) (drop (Suc j) win) = win ! Suc j # take k (drop (Suc (Suc j)) win)"
    using Suc.prems by (simp add: Cons_nth_drop_Suc [symmetric])
  ultimately show ?case using Suc.IH [of "Suc j" ?w] Suc.prems by simp
qed

text \<open>An insertion drops the first element.\<close>

lemma insert_sender_seq_number_eq:
  assumes "position < length win"
  shows "insert_sender_seq_number ssn win position =
    Ok (take position (tl win) @ ssn # drop (Suc position) win)"
proof -
  have "shift_left_loop position 0 win = Ok (take position (drop 1 win) @ drop position win)"
    using shift_left_loop_eq [of 0 position win] assms by simp
  moreover have "length (take position (drop 1 win)) = position" using assms by simp
  moreover have "drop position win = win ! position # drop (Suc position) win"
    using assms by (simp add: Cons_nth_drop_Suc)
  ultimately show ?thesis
    using assms by (simp add: insert_sender_seq_number_def list_update_append drop_Suc)
qed

definition between :: "u64 \<Rightarrow> u64 list \<Rightarrow> nat \<Rightarrow> bool" where
  "between ssn win i \<longleftrightarrow> win ! i < ssn \<and> ssn < win ! Suc i"

text \<open>The position the update chooses.\<close>

definition update_position :: "u64 \<Rightarrow> u64 list \<Rightarrow> nat" where
  "update_position ssn win =
     (case filter (between ssn win) [0..<length win - 1] of [] \<Rightarrow> length win - 1 | i # _ \<Rightarrow> i)"

lemma update_replay_window_loop_eq:
  assumes "i + k < length win" and "final_pos < length win"
  shows "update_replay_window_loop ssn final_pos k i win =
    insert_sender_seq_number ssn win
      (case filter (between ssn win) [i..<i + k] of [] \<Rightarrow> final_pos | j # _ \<Rightarrow> j)"
  using assms
proof (induction k arbitrary: i)
  case 0
  then show ?case by simp
next
  case (Suc k)
  then have "[i..<i + Suc k] = i # [Suc i..<Suc i + k]" by (simp add: upt_conv_Cons)
  with Suc show ?case by (simp add: between_def)
qed

lemma update_position_cases:
  obtains "update_position ssn win = length win - 1"
      and "\<And>i. Suc i < length win \<Longrightarrow> \<not> between ssn win i"
  | i where "update_position ssn win = i" and "Suc i < length win" and "between ssn win i"
proof (cases "filter (between ssn win) [0..<length win - 1]")
  case Nil
  then have "\<not> between ssn win i" if "Suc i < length win" for i
    using that by (simp add: filter_empty_conv)
  with Nil that(1) show ?thesis by (simp add: update_position_def)
next
  case (Cons i "is")
  have "i \<in> set (filter (between ssn win) [0..<length win - 1])" unfolding Cons by simp
  then have "Suc i < length win" "between ssn win i" by auto
  moreover have "update_position ssn win = i" using Cons by (simp add: update_position_def)
  ultimately show ?thesis using that(2) by blast
qed

lemma update_position_less: "win \<noteq> [] \<Longrightarrow> update_position ssn win < length win"
  by (rule update_position_cases [of ssn win]) auto

lemma update_replay_window_eq:
  assumes "win \<noteq> []" and "unat len = length win"
  shows "update_replay_window ssn win len =
    Ok (take (update_position ssn win) (tl win) @ ssn # drop (Suc (update_position ssn win)) win)"
proof -
  have "len \<noteq> 0" using assms by auto
  then have "unat (len - 1) = length win - 1" using assms by (metis unat_minus_one)
  then have "update_replay_window ssn win len = insert_sender_seq_number ssn win (update_position ssn win)"
    using assms update_replay_window_loop_eq [of 0 "length win - 1" win "length win - 1" ssn]
    by (simp add: update_replay_window_def update_position_def)
  then show ?thesis
    using insert_sender_seq_number_eq update_position_less [OF assms(1)] by simp
qed

section \<open>The window keeps the greatest numbers\<close>

definition window_update :: "u64 \<Rightarrow> u64 list \<Rightarrow> u64 list" where
  "window_update ssn win =
     take (update_position ssn win) (tl win) @ ssn # drop (Suc (update_position ssn win)) win"

lemma window_update_length [simp]: "win \<noteq> [] \<Longrightarrow> length (window_update ssn win) = length win"
  using update_position_less [of win ssn] by (simp add: window_update_def)

text \<open>Whatever the position, the new number takes the place of the first element.\<close>

lemma window_update_mset:
  assumes "win \<noteq> []"
  shows "mset (window_update ssn win) = add_mset ssn (mset (tl win))"
proof -
  have "drop (Suc p) win = drop p (tl win)" for p by (simp add: drop_Suc)
  then show ?thesis
    by (simp add: window_update_def) (metis append_take_drop_id mset_append union_commute)
qed

lemma window_update_set: "win \<noteq> [] \<Longrightarrow> set (window_update ssn win) = insert ssn (set (tl win))"
  by (metis set_mset_add_mset_insert set_mset_mset window_update_mset)

text \<open>A sorted window stays sorted if the number is new and above its first element.\<close>

lemma window_update_sorted:
  assumes sorted: "sorted win" and win: "win \<noteq> []" and new: "hd win < ssn" "ssn \<notin> set win"
  shows "sorted (window_update ssn win)"
proof -
  let ?p = "update_position ssn win"
  have tl: "sorted (tl win)" using sorted by (simp add: sorted_tl)
  have drop: "drop (Suc ?p) win = drop ?p (tl win)" by (simp add: drop_Suc)
  have split: "sorted (take ?p (tl win) @ drop ?p (tl win))" using tl by simp
  have below: "x < ssn" if "x \<in> set (take ?p (tl win))" for x
  proof -
    from that obtain j where j: "j < ?p" "Suc j < length win" "x = win ! Suc j"
      by (auto simp: in_set_conv_nth nth_tl)
    show ?thesis
    proof (cases ssn win rule: update_position_cases)
      case 1
      have "i < length win \<Longrightarrow> win ! i < ssn" for i
      proof (induction i)
        case 0
        then show ?case using new(1) win by (simp add: hd_conv_nth)
      next
        case (Suc i)
        then have "win ! i < ssn" by simp
        with 1(2) [of i] Suc.prems have "win ! Suc i \<le> ssn" by (simp add: between_def not_less)
        with new(2) Suc.prems show ?case by (metis nth_mem order_le_less)
      qed
      with j show ?thesis by simp
    next
      case (2 i)
      with j have "win ! Suc j \<le> win ! i" using sorted by (simp add: sorted_iff_nth_mono)
      with 2 j show ?thesis by (auto simp: between_def)
    qed
  qed
  have above: "ssn < x" if "x \<in> set (drop ?p (tl win))" for x
  proof -
    from that obtain i where "i < length win - Suc ?p" "x = win ! Suc (?p + i)"
      by (auto simp: in_set_conv_nth nth_tl)
    then obtain j where j: "?p \<le> j" "Suc j < length win" "x = win ! Suc j"
      by (intro that [of "?p + i"]) simp_all
    show ?thesis
    proof (cases ssn win rule: update_position_cases)
      case 1
      with j show ?thesis by simp
    next
      case (2 i)
      with j have "win ! Suc i \<le> win ! Suc j" using sorted by (simp add: sorted_iff_nth_mono)
      with 2 j show ?thesis by (auto simp: between_def)
    qed
  qed
  have "x \<le> y" if "x \<in> set (take ?p (tl win))" "y \<in> set (ssn # drop ?p (tl win))" for x y
    using that below [of x] above [of y] by auto
  moreover have "sorted (ssn # drop ?p (tl win))"
    using split above by (auto simp: sorted_append less_imp_le)
  ultimately show ?thesis
    using split unfolding window_update_def drop sorted_append by blast
qed

section \<open>The contract of a replay window\<close>

text \<open>What a receiver expects of its replay window: a number it has accepted is never
  accepted again.  It follows from laws of a single step.\<close>

locale replay_store =
  fixes accepts :: "'n \<Rightarrow> 'w \<Rightarrow> bool" and put :: "'n \<Rightarrow> 'w \<Rightarrow> 'w" and inv :: "'w \<Rightarrow> bool"
  assumes put_inv: "inv w \<Longrightarrow> accepts x w \<Longrightarrow> inv (put x w)"
    and put_rejects: "inv w \<Longrightarrow> accepts x w \<Longrightarrow> \<not> accepts x (put x w)"
    and rejects_stable: "inv w \<Longrightarrow> accepts x w \<Longrightarrow> \<not> accepts y w \<Longrightarrow> \<not> accepts y (put x w)"
begin

text \<open>The numbers accepted in a run.\<close>

fun run :: "'n list \<Rightarrow> 'w \<Rightarrow> 'n list" where
  "run [] w = []"
| "run (x # xs) w = (if accepts x w then x # run xs (put x w) else run xs w)"

lemma rejected_never_accepted: "inv w \<Longrightarrow> \<not> accepts x w \<Longrightarrow> x \<notin> set (run xs w)"
  by (induction xs arbitrary: w) (auto simp: put_inv rejects_stable)

lemma run_distinct: "inv w \<Longrightarrow> distinct (run xs w)"
  by (induction xs arbitrary: w) (auto simp: put_inv put_rejects rejected_never_accepted)

end

text \<open>The comparison with the window and the update satisfy the contract, on sorted windows.\<close>

lemma replay_check_member_eq:
  "i + k \<le> length win \<Longrightarrow> replay_check_member ssn win k i =
     (if ssn \<in> set (take k (drop i win)) then Fail replayed_packed_received else Ok ())"
proof (induction k arbitrary: i)
  case 0
  then show ?case by simp
next
  case (Suc k)
  then have "take (Suc k) (drop i win) = win ! i # take k (drop (Suc i) win)"
    by (simp add: Cons_nth_drop_Suc [symmetric])
  with Suc show ?case by auto
qed

definition window_accepts :: "u64 \<Rightarrow> u64 list \<Rightarrow> bool" where
  "window_accepts ssn win \<longleftrightarrow> last win < ssn \<or> hd win \<le> ssn \<and> ssn \<notin> set win"

lemma replay_check_window_eq:
  assumes "win \<noteq> []" and "unat len = length win"
  shows "replay_check_window ssn win len =
    (if window_accepts ssn win then Ok () else Fail replayed_packed_received)"
  using assms replay_check_member_eq [of 0 "length win" win ssn]
  by (auto simp: replay_check_window_def window_accepts_def last_conv_nth hd_conv_nth not_less)

lemma window_accepts_sorted:
  assumes "win \<noteq> []" and "sorted win"
  shows "window_accepts ssn win \<longleftrightarrow> hd win < ssn \<and> ssn \<notin> set win"
proof -
  have le_last: "x \<le> last win" if "x \<in> set win" for x
    using that assms(2) by (induction win) (auto simp: last_in_set)
  have hd: "hd win \<in> set win" using assms by simp
  have "hd win < ssn \<and> ssn \<notin> set win" if "last win < ssn"
    using that le_last [OF hd] le_last [of ssn] by auto
  moreover have "hd win \<noteq> ssn" if "ssn \<notin> set win" using that hd by auto
  ultimately show ?thesis by (auto simp: window_accepts_def)
qed

lemma sorted_hd_le: "sorted win \<Longrightarrow> x \<in> set win \<Longrightarrow> hd win \<le> x"
  by (cases win) auto

interpretation window: replay_store window_accepts window_update "\<lambda>win. win \<noteq> [] \<and> sorted win"
proof (unfold_locales, goal_cases)
  case (1 w x)
  then have "window_update x w \<noteq> []" by (metis length_0_conv window_update_length)
  with 1 show ?case by (simp add: window_accepts_sorted window_update_sorted)
next
  case (2 w x)
  then have "sorted (window_update x w)" "x \<in> set (window_update x w)"
    by (simp_all add: window_accepts_sorted window_update_sorted window_update_set)
  moreover from this have "window_update x w \<noteq> []" by auto
  ultimately show ?case by (simp add: window_accepts_sorted)
next
  case (3 w x y)
  let ?w = "window_update x w"
  have w: "sorted ?w" "set ?w = insert x (set (tl w))" "?w \<noteq> []"
    using 3 by (auto simp: window_accepts_sorted window_update_sorted window_update_set
        simp flip: length_greater_0_conv)
  have "hd w \<le> z" if "z \<in> set ?w" for z
    using that 3 w(2) sorted_hd_le [of w z] list.set_sel(2) [of w z]
    by (auto simp: window_accepts_sorted)
  then have "hd w \<le> hd ?w" using w(3) by simp
  moreover have "y \<le> hd w \<or> y \<in> set (tl w)"
    using 3 window_accepts_sorted [of w y] by (cases w) auto
  ultimately show ?case
    unfolding window_accepts_sorted [OF w(3,1)] w(2) by auto
qed

section \<open>Properties\<close>

text \<open>C28: \<open>update_replay_window\<close> puts the new number in place of the first element of the window
  and drops no other; a sorted window stays sorted when the number is new and greater than
  the first element, and neither function reads or writes outside the window.\<close>

theorem update_replay_window_spec:
  assumes "win \<noteq> []" and "unat len = length win"
  shows "\<exists>win'. update_replay_window ssn win len = Ok win' \<and> length win' = length win \<and>
    mset win' = add_mset ssn (mset (tl win)) \<and>
    (sorted win \<and> hd win < ssn \<and> ssn \<notin> set win \<longrightarrow> sorted win')"
  using assms update_replay_window_eq [OF assms, of ssn] window_update_mset [of win ssn]
    window_update_length [of win ssn] window_update_sorted [of win ssn]
  by (simp add: window_update_def)

theorem update_replay_window_spec_witness:
  "\<exists>win'. update_replay_window 5 [1, 3, 7, 9] 4 = Ok win' \<and> length win' = 4 \<and>
    mset win' = {#5, 3, 7, 9#} \<and> sorted win'"
  using update_replay_window_spec [of "[1, 3, 7, 9]" 4 5] by auto

text \<open>C27: The comparison with the window that \<open>replay_check\<close> contains is sound: on a sorted
  window, once a number has passed it and has been entered by \<open>update_replay_window\<close>, the
  comparison rejects this number, and goes on rejecting every number it rejected before.\<close>

theorem replay_check_window_sound:
  assumes "win \<noteq> []" and "sorted win" and "unat len = length win"
    and "replay_check_window ssn win len = Ok ()"
  shows "\<exists>win'. update_replay_window ssn win len = Ok win' \<and> sorted win' \<and> length win' = length win \<and>
    replay_check_window ssn win' len = Fail replayed_packed_received \<and>
    (\<forall>old. replay_check_window old win len = Fail replayed_packed_received \<longrightarrow>
           replay_check_window old win' len = Fail replayed_packed_received)"
proof -
  let ?w = "window_update ssn win"
  have acc: "window_accepts ssn win"
    using assms(4) replay_check_window_eq [OF assms(1,3)] by (simp split: if_splits)
  have inv: "win \<noteq> [] \<and> sorted win" using assms(1,2) by simp
  have "unat len = length ?w" using assms by simp
  moreover note window.put_inv [OF inv acc] window.put_rejects [OF inv acc]
    window.rejects_stable [OF inv acc]
  ultimately show ?thesis
    using assms replay_check_window_eq [of ?w len] replay_check_window_eq [OF assms(1,3)]
      update_replay_window_eq [OF assms(1,3), of ssn]
    by (auto simp: window_update_def)
qed

theorem replay_check_window_sound_witness:
  "\<exists>win'. update_replay_window 5 [1, 3, 7, 9] 4 = Ok win' \<and> sorted win' \<and>
    length win' = length [1, 3, 7, 9 :: u64] \<and> replay_check_window 5 win' 4 = Fail replayed_packed_received \<and>
    (\<forall>old. replay_check_window old [1, 3, 7, 9] 4 = Fail replayed_packed_received \<longrightarrow>
           replay_check_window old win' 4 = Fail replayed_packed_received)"
proof -
  have "replay_check_window 5 [1, 3, 7, 9] 4 = Ok ()" by code_simp
  then show ?thesis using replay_check_window_sound [of "[1, 3, 7, 9]" 4 5] by simp
qed

end
