(* ===== verification/Oscore_Unprotect.thy ===== *)
theory Oscore_Unprotect
  imports Oscore_Protect Replay_Window
begin

text \<open>
  \<^verbatim>\<open>src/oscore/oscore2coap.c\<close>: recognition and decryption of an OSCORE packet.  The OSCORE
  option is parsed into its fields, the request checked and the context updated, the
  payload decrypted, and the CoAP packet put together from its parts.

  The uninitialised local variables of the functions are the argument \<open>L\<close>.
\<close>

section \<open>The OSCORE option\<close>

record compressed_oscore_option =
  co_h :: u8
  co_k :: u8
  co_n :: u8
  co_piv :: byte_array
  co_kid_context :: byte_array
  co_kid :: byte_array

text \<open>The three parts of an option value.  Each takes the pointer and the remaining length
  \<^verbatim>\<open>temp_kid_len\<close>.\<close>

definition parse_piv :: "u8 \<Rightarrow> byte_array \<Rightarrow> ptr \<Rightarrow> u8 \<Rightarrow> (byte_array \<times> ptr \<times> u8) res" where
  "parse_piv n old p kid_len =
     (if n = 0 then Ok (old\<lparr>ba_ptr := None\<rparr>, p, kid_len)
      else if n = 6 \<or> n = 7 then Fail oscore_inpkt_invalid_piv
      else Ok (\<lparr>ba_len = ucast n, ba_ptr = p\<rparr>, advance p (unat n), kid_len - n))"

definition parse_kid_context :: "u8 \<Rightarrow> ptr \<Rightarrow> u8 \<Rightarrow> (byte_array \<times> ptr \<times> u8) res" where
  "parse_kid_context h p kid_len =
     (if h = 0 then Ok (NULL_ARRAY, p, kid_len)
      else TRY (deref p) (\<lambda>l.
        Ok (\<lparr>ba_len = ucast l, ba_ptr = advance p 1\<rparr>, advance p (1 + unat l), kid_len - (l + 1))))"

definition parse_kid :: "u8 \<Rightarrow> ptr \<Rightarrow> u8 \<Rightarrow> byte_array" where
  "parse_kid k p kid_len =
     (if k = 0 then NULL_ARRAY else \<lparr>ba_len = ucast kid_len, ba_ptr = p\<rparr>)"

definition parse_oscore_value ::
    "o_coap_option \<Rightarrow> compressed_oscore_option \<Rightarrow> compressed_oscore_option res" where
  "parse_oscore_value opt out =
     TRY (deref (opt_value opt)) (\<lambda>b.
     let h = drop_bit 4 (b AND COMP_OSCORE_OPT_KIDC_H_MASK);
         k = drop_bit 3 (b AND COMP_OSCORE_OPT_KID_K_MASK);
         n = b AND COMP_OSCORE_OPT_PIV_N_MASK
     in TRY (parse_piv n (co_piv out) (advance (opt_value opt) 1) (opt_len opt - 1)) (\<lambda>(piv, p1, l1).
        TRY (parse_kid_context h p1 l1) (\<lambda>(kc, p2, l2).
        Ok \<lparr>co_h = h, co_k = k, co_n = n, co_piv = piv, co_kid_context = kc,
            co_kid = parse_kid k p2 l2\<rparr>)))"

definition oscore_option_parse_step ::
    "o_coap_option \<Rightarrow> compressed_oscore_option \<times> bool \<Rightarrow> (compressed_oscore_option \<times> bool) res" where
  "oscore_option_parse_step opt = (\<lambda>(out, oscore_pkt).
     if ucast (opt_number opt) = COAP_OPTION_OSCORE then
       TRY (if opt_len opt = 0 then Ok (out\<lparr>co_h := 0, co_k := 0, co_n := 0\<rparr>)
            else parse_oscore_value opt out) (\<lambda>out'. Ok (out', True))
     else Ok (out, oscore_pkt))"

definition oscore_option_parser ::
    "o_coap_packet \<Rightarrow> compressed_oscore_option \<Rightarrow> (compressed_oscore_option \<times> bool) res" where
  "oscore_option_parser pkt out =
     for_arr (unat (options_cnt pkt)) 0 (options pkt) oscore_option_parse_step (out, False)"

section \<open>The decrypted payload\<close>

definition payload_decrypt ::
    "crypto \<Rightarrow> 'z zcbor \<Rightarrow> oscore_ctx \<Rightarrow> bytes \<Rightarrow> u32 \<Rightarrow> o_coap_packet \<Rightarrow> bytes res" where
  "payload_decrypt C Z c out out_len pkt =
     oscore_cose_decrypt C Z \<lparr>ba_len = payload_len pkt, ba_ptr = payload pkt\<rparr> out out_len
       (rrc_nonce (rrc c)) (rrc_aad (rrc c)) (rc_recipient_key (rc c))"

definition oscore_options_delta :: field_switch where
  "oscore_options_delta nib hl p =
     (if nib = 13 then TRY (deref p) (\<lambda>b. Ok (b - 13, hl + 1, advance p 1))
      else if nib = 14 then
        TRY (deref p) (\<lambda>hi. TRY (deref (advance p 1)) (\<lambda>lo.
        Ok (ucast ((push_bit 8 (ucast hi :: u32) OR ucast lo) - 269), hl + 2, advance p 2)))
      else if nib = 15 then Fail oscore_inpkt_invalid_option_delta
      else Ok (nib, hl, p))"

definition oscore_options_len :: field_switch where
  "oscore_options_len nib hl p =
     (if nib = 13 then TRY (deref p) (\<lambda>b. Ok (b - 13, hl + 1, advance p 1))
      else if nib = 14 then
        TRY (deref p) (\<lambda>hi. TRY (deref (advance p 1)) (\<lambda>lo.
        Ok (ucast ((push_bit 8 (ucast hi :: u32) OR ucast lo) - 269), hl + 2, advance p 2)))
      else if nib = 15 then Fail oscore_inpkt_invalid_optionlen
      else Ok (nib, hl, p))"

definition oscore_packet_options_parser ::
    "ptr \<Rightarrow> u16 \<Rightarrow> o_coap_option list \<Rightarrow> (o_coap_option list \<times> u8) res" where
  "oscore_packet_options_parser in_data in_data_len out_options =
     TRY (options_parse_loop oscore_options_delta oscore_options_len in_data_len in_data 0 0 0
            out_options) (\<lambda>(arr, cnt). Ok (arr, of_nat cnt))"

text \<open>The scan for the payload marker.\<close>

fun payload_extent :: "bytes \<Rightarrow> u32 \<Rightarrow> u16 \<Rightarrow> (ptr \<times> u32 \<times> u16) res" where
  "payload_extent [] l ol = Undef"
| "payload_extent (b # bs) l ol =
     (if b \<noteq> 0xFF \<and> l \<noteq> 0 then payload_extent bs (l - 1) (ol + 1)
      else Ok (Some (b # bs), l, ol))"

text \<open>\<open>buf\<close> is the plaintext buffer and \<open>len\<close> the length of the byte array on it; the result
  is the code, the E-options and their number, and the payload.\<close>

definition decrypted_options ::
    "ptr \<Rightarrow> u32 \<Rightarrow> o_coap_option list \<Rightarrow> (o_coap_option list \<times> u8 \<times> ptr \<times> u32) res" where
  "decrypted_options p l e =
     TRY (deref p) (\<lambda>b.
     if b = 0xFF \<or> l = 0 then Ok (e, 0, p, l)
     else TRY (case p of None \<Rightarrow> Undef | Some bs \<Rightarrow> payload_extent bs l 0) (\<lambda>(p', l', ol).
       if 0 < ol then
         TRY (oscore_packet_options_parser p ol e) (\<lambda>(e', cnt). Ok (e', cnt, p', l'))
       else Ok (e, 0, p', l')))"

definition oscore_decrypted_payload_parser ::
    "bytes \<Rightarrow> u32 \<Rightarrow> o_coap_option list \<Rightarrow> (u8 \<times> o_coap_option list \<times> u8 \<times> byte_array) res" where
  "oscore_decrypted_payload_parser buf len e =
     TRY (deref (Some buf)) (\<lambda>code.
     TRY (decrypted_options (advance (Some buf) 1) (len - 1) e) (\<lambda>(e', cnt, p, l).
     Ok (code, e', cnt,
         if l = 0 then NULL_ARRAY else \<lparr>ba_len = l - 1, ba_ptr = advance p 1\<rparr>)))"

section \<open>Reordering the options\<close>

text \<open>Collection of the option numbers: \<open>k\<close> rounds left, round \<open>i\<close>, \<open>j\<close> numbers stored.\<close>

fun reorder_collect ::
    "nat \<Rightarrow> nat \<Rightarrow> nat \<Rightarrow> o_coap_option list \<Rightarrow> nat \<Rightarrow> o_coap_option list \<Rightarrow> u8 list \<Rightarrow> u8 list res" where
  "reorder_collect 0 i j u u_cnt e nums = Ok nums"
| "reorder_collect (Suc k) i j u u_cnt e nums =
     (if i < u_cnt then
        TRY (arr_get u i) (\<lambda>opt.
        if ucast (opt_number opt) \<noteq> COAP_OPTION_OSCORE then
          TRY (arr_set nums j (opt_number opt)) (\<lambda>nums'.
          reorder_collect k (Suc i) (Suc j) u u_cnt e nums')
        else reorder_collect k (Suc i) j u u_cnt e nums)
      else
        TRY (arr_get e (i - u_cnt)) (\<lambda>opt.
        TRY (arr_set nums j (opt_number opt)) (\<lambda>nums'.
        reorder_collect k (Suc i) (Suc j) u u_cnt e nums')))"

text \<open>The exchange sort of the first \<open>n\<close> numbers.\<close>

definition exchange :: "nat \<Rightarrow> nat \<Rightarrow> u8 list \<Rightarrow> u8 list" where
  "exchange i k xs = (if xs ! k < xs ! i then xs[i := xs ! k, k := xs ! i] else xs)"

definition reorder_sort_inner :: "nat \<Rightarrow> nat \<Rightarrow> u8 list \<Rightarrow> u8 list" where
  "reorder_sort_inner n i xs = fold (exchange i) [Suc i..<n] xs"

definition reorder_sort :: "nat \<Rightarrow> u8 list \<Rightarrow> u8 list" where
  "reorder_sort n xs = fold (reorder_sort_inner n) [0..<n] xs"

text \<open>The merge by increasing number.  A number that is neither that of the next U-option
  nor that of the next E-option is skipped.\<close>

record merge_state =
  mg_u_idx :: nat
  mg_e_idx :: nat
  mg_delta_sum :: u16
  mg_cnt :: u8
  mg_out :: "o_coap_option list"

definition merge_put :: "o_coap_option \<Rightarrow> merge_state \<Rightarrow> merge_state res" where
  "merge_put opt s =
     (let delta = ucast (opt_number opt) - mg_delta_sum s in
      TRY (arr_set (mg_out s) (unat (mg_cnt s)) (opt\<lparr>opt_delta := delta\<rparr>)) (\<lambda>out.
      Ok (s\<lparr>mg_out := out, mg_delta_sum := mg_delta_sum s + delta, mg_cnt := mg_cnt s + 1\<rparr>)))"

definition reorder_merge_step ::
    "o_coap_option list \<Rightarrow> o_coap_option list \<Rightarrow> u8 \<Rightarrow> merge_state \<Rightarrow> merge_state res" where
  "reorder_merge_step u e num s =
     TRY (arr_get u (mg_u_idx s)) (\<lambda>uo.
     if num = opt_number uo then
       TRY (merge_put uo s) (\<lambda>s'. Ok (s'\<lparr>mg_u_idx := Suc (mg_u_idx s)\<rparr>))
     else
       TRY (arr_get e (mg_e_idx s)) (\<lambda>eo.
       if num = opt_number eo then
         TRY (merge_put eo s) (\<lambda>s'. Ok (s'\<lparr>mg_e_idx := Suc (mg_e_idx s)\<rparr>))
       else Ok s))"

definition options_from_oscore_reorder ::
    "o_coap_packet \<Rightarrow> o_coap_option list \<Rightarrow> u8 \<Rightarrow> o_coap_packet \<Rightarrow> o_coap_packet res" where
  "options_from_oscore_reorder pkt e e_cnt out =
     (let n = options_cnt pkt + e_cnt - 1 in
      if 0 < n then
        TRY (check_buffer_size (of_nat MAX_OPTION_COUNT) (ucast n)) (\<lambda>_.
        TRY (reorder_collect (Suc (unat n)) 0 0 (options pkt) (unat (options_cnt pkt)) e
               (replicate MAX_OPTION_COUNT 0)) (\<lambda>nums.
        TRY (for_arr (unat n) 0 (reorder_sort (unat n) nums) (reorder_merge_step (options pkt) e)
               \<lparr>mg_u_idx = 0, mg_e_idx = 0, mg_delta_sum = 0, mg_cnt = 0, mg_out = options out\<rparr>) (\<lambda>s.
        Ok (out\<lparr>options := mg_out s, options_cnt := mg_cnt s\<rparr>))))
      else Ok (out\<lparr>options_cnt := 0\<rparr>))"

section \<open>The CoAP packet\<close>

definition o_coap_pkg_generate ::
    "bytes \<Rightarrow> u32 \<Rightarrow> o_coap_packet \<Rightarrow> o_coap_option list \<Rightarrow> o_coap_packet \<Rightarrow> o_coap_packet res" where
  "o_coap_pkg_generate buf len pkt e out =
     TRY (oscore_decrypted_payload_parser buf len e) (\<lambda>(code, e', cnt, pl).
     let h = header pkt in
     options_from_oscore_reorder pkt e' cnt
       (out\<lparr>header := \<lparr>hdr_ver = hdr_ver h, hdr_type = hdr_type h, hdr_TKL = hdr_TKL h,
                       hdr_code = code, hdr_MID = hdr_MID h\<rparr>,
            token := (if hdr_TKL h = 0 then None else token pkt),
            payload_len := ba_len pl,
            payload := (if ba_len pl = 0 then None else ba_ptr pl)\<rparr>))"

definition is_request :: "o_coap_packet \<Rightarrow> bool" where
  "is_request pkt \<longleftrightarrow> CODE_CLASS_MASK AND hdr_code (header pkt) = REQUEST_CLASS"

section \<open>Unprotection\<close>

record unprotect_locals =
  ul_oscore_packet :: o_coap_packet
  ul_oscore_option :: compressed_oscore_option
  ul_plaintext :: bytes
  ul_E_options :: "o_coap_option list"
  ul_o_coap_packet :: o_coap_packet

text \<open>What is done for a request before the decryption.\<close>

definition unprotect_request ::
    "crypto \<Rightarrow> 'z zcbor \<Rightarrow> o_coap_packet \<Rightarrow> compressed_oscore_option \<Rightarrow> (oscore_ctx, unit) act" where
  "unprotect_request C Z pkt opt =
     TRYS (\<lambda>c. liftS (array_equals (array_of (rc_recipient_id (rc c))) (co_kid opt)) c) (\<lambda>eq.
     if \<not> eq then liftS (Fail oscore_kid_recipent_id_mismatch)
     else
       TRYS (liftS (deref (ba_ptr (co_piv opt)))) (\<lambda>b.
       TRYS (\<lambda>c. liftS (replay_check (ucast b) (rc_replay_window (rc c))
                           (rc_replay_window_len (rc c))) c) (\<lambda>_.
       context_update C Z SERVER (options pkt) (ucast (options_cnt pkt)) (co_piv opt)
         (co_kid_context opt))))"

definition unprotect_update_window ::
    "o_coap_packet \<Rightarrow> compressed_oscore_option \<Rightarrow> (oscore_ctx, unit) act" where
  "unprotect_update_window pkt opt =
     (if is_request pkt then
        TRYS (liftS (deref (ba_ptr (co_piv opt)))) (\<lambda>b.
        TRYS (\<lambda>c. liftS (update_replay_window (ucast b) (rc_replay_window (rc c))
                           (rc_replay_window_len (rc c))) c) (\<lambda>win.
        setS (\<lambda>c. c\<lparr>rc := (rc c)\<lparr>rc_replay_window := win\<rparr>\<rparr>)))
      else liftS (Ok ()))"

definition unprotect_packet ::
    "crypto \<Rightarrow> 'z zcbor \<Rightarrow> unprotect_locals \<Rightarrow> o_coap_packet \<Rightarrow> compressed_oscore_option \<Rightarrow>
     bytes \<Rightarrow> u32 \<Rightarrow> (oscore_ctx, bytes \<times> u32) act" where
  "unprotect_packet C Z L pkt opt out out_len =
     TRYS (if is_request pkt then unprotect_request C Z pkt opt else liftS (Ok ())) (\<lambda>_.
     let plaintext_len = payload_len pkt - of_nat AUTH_TAG_LEN in
     TRYS (liftS (check_buffer_size (of_nat MAX_PLAINTEXT_LEN) plaintext_len)) (\<lambda>_.
     TRYS (\<lambda>c. liftS (payload_decrypt C Z c (ul_plaintext L) plaintext_len pkt) c) (\<lambda>plaintext.
     TRYS (unprotect_update_window pkt opt) (\<lambda>_.
     TRYS (liftS (o_coap_pkg_generate plaintext plaintext_len pkt (ul_E_options L)
                    (ul_o_coap_packet L))) (\<lambda>o_coap_packet.
     liftS (coap2buf o_coap_packet out out_len))))))"

text \<open>The result is \<^verbatim>\<open>oscore_pkg_flag\<close>, the output buffer and the length of the packet in it.\<close>

definition oscore2coap ::
    "crypto \<Rightarrow> 'z zcbor \<Rightarrow> unprotect_locals \<Rightarrow> bytes \<Rightarrow> bytes \<Rightarrow> u32 \<Rightarrow>
     (oscore_ctx, bool \<times> bytes \<times> u32) act" where
  "oscore2coap C Z L inb out out_len =
     TRYS (liftS (buf2coap (ul_oscore_packet L) inb)) (\<lambda>pkt.
     TRYS (liftS (oscore_option_parser pkt (ul_oscore_option L))) (\<lambda>(opt, flag).
     if flag then
       TRYS (unprotect_packet C Z L pkt opt out out_len) (\<lambda>(out', n). liftS (Ok (True, out', n)))
     else liftS (Ok (False, out, out_len))))"

end
