(* ===== verification/Option_Codec.thy ===== *)
theory Option_Codec
  imports Coap_Option
begin

text \<open>
  What the option serialiser writes, and when a parser reads it back.  The interface
  between them is the locale \<open>option_codec\<close>: an option header and two \<^verbatim>\<open>switch\<close> statements
  that undo it on a domain of deltas and lengths.  In the locale the parser loop is shown to
  read back any string of such options.
\<close>

section \<open>Options as contents\<close>

text \<open>The bytes an option carries, whether its pointer covers its length, and the contents
  by which options are compared: pointers to equal bytes are equal.\<close>

definition opt_bytes :: "o_coap_option \<Rightarrow> bytes" where
  "opt_bytes opt = mem_bytes (opt_value opt) (unat (opt_len opt))"

definition opt_wf :: "o_coap_option \<Rightarrow> bool" where
  "opt_wf opt \<longleftrightarrow> mem_ok (opt_value opt) (unat (opt_len opt))"

definition opt_content :: "o_coap_option \<Rightarrow> u16 \<times> u8 \<times> u8 \<times> bytes" where
  "opt_content opt = (opt_delta opt, opt_len opt, opt_number opt, opt_bytes opt)"

text \<open>The option numbers are the sums of the deltas.\<close>

fun numbered :: "u8 \<Rightarrow> o_coap_option list \<Rightarrow> bool" where
  "numbered n [] \<longleftrightarrow> True"
| "numbered n (opt # opts) \<longleftrightarrow>
     opt_number opt = n + ucast (opt_delta opt) \<and> numbered (opt_number opt) opts"

definition option_string :: "(u16 \<Rightarrow> u8 \<Rightarrow> bytes) \<Rightarrow> o_coap_option list \<Rightarrow> bytes" where
  "option_string hdr opts = concat (map (\<lambda>opt. hdr (opt_delta opt) (opt_len opt) @ opt_bytes opt) opts)"

lemma option_string_simps [simp]:
  "option_string hdr [] = []"
  "option_string hdr (opt # opts) =
     hdr (opt_delta opt) (opt_len opt) @ opt_bytes opt @ option_string hdr opts"
  by (simp_all add: option_string_def)

lemma option_string_append [simp]:
  "option_string hdr (xs @ ys) = option_string hdr xs @ option_string hdr ys"
  by (simp add: option_string_def)

lemma opt_wf_length [simp]: "opt_wf opt \<Longrightarrow> length (opt_bytes opt) = unat (opt_len opt)"
  by (simp add: opt_wf_def opt_bytes_def)

section \<open>The interface of a codec\<close>

locale option_codec =
  fixes hdr :: "u16 \<Rightarrow> u8 \<Rightarrow> bytes"
    and delta_switch len_switch :: field_switch
    and covers :: "u16 \<Rightarrow> u8 \<Rightarrow> bool"
  assumes decodes: "covers d l \<Longrightarrow> \<exists>b bs. hdr d l = b # bs \<and>
      (\<exists>hl p. delta_switch (drop_bit 4 (b AND 0xF0)) 1 (Some (bs @ rest)) = Ok (ucast d, hl, p) \<and>
        len_switch (b AND 0x0F) hl p = Ok (l, of_nat (length (hdr d l)), Some rest))"
    and short: "length (hdr d l) \<le> 5"
    and narrow: "covers d l \<Longrightarrow> d < 256"
begin

definition codable :: "o_coap_option \<Rightarrow> bool" where
  "codable opt \<longleftrightarrow> opt_wf opt \<and> covers (opt_delta opt) (opt_len opt)"

lemma hdr_nonempty: "covers d l \<Longrightarrow> hdr d l \<noteq> []"
  using decodes [of d l "[]"] by auto

lemma parse_one:
  assumes "codable opt" and "opt_number opt = num + ucast (opt_delta opt)"
    and "ii + length (hdr (opt_delta opt) (opt_len opt) @ opt_bytes opt @ os) < 2 ^ 16"
    and "cnt < length arr"
  shows "options_parse_loop delta_switch len_switch
      (of_nat (ii + length (hdr (opt_delta opt) (opt_len opt) @ opt_bytes opt @ os)))
      (Some (hdr (opt_delta opt) (opt_len opt) @ opt_bytes opt @ os @ rest)) (of_nat ii) cnt num arr =
    options_parse_loop delta_switch len_switch
      (of_nat (ii + length (hdr (opt_delta opt) (opt_len opt) @ opt_bytes opt @ os)))
      (Some (os @ rest)) (of_nat (ii + length (hdr (opt_delta opt) (opt_len opt) @ opt_bytes opt)))
      (Suc cnt) (opt_number opt)
      (arr[cnt := \<lparr>opt_delta = opt_delta opt, opt_len = opt_len opt,
          opt_value = (if opt_len opt = 0 then None else Some (opt_bytes opt @ os @ rest)),
          opt_number = opt_number opt\<rparr>])"
proof -
  let ?d = "opt_delta opt" and ?l = "opt_len opt"
  let ?h = "hdr ?d ?l"
  let ?n = "ii + length (?h @ opt_bytes opt @ os)"
  from assms(1) have cov: "covers ?d ?l" and wf: "opt_wf opt" by (auto simp: codable_def)
  obtain b bs hl p where h: "?h = b # bs"
    "delta_switch (drop_bit 4 (b AND 0xF0)) 1 (Some (bs @ opt_bytes opt @ os @ rest)) = Ok (ucast ?d, hl, p)"
    "len_switch (b AND 0x0F) hl p = Ok (?l, of_nat (length ?h), Some (opt_bytes opt @ os @ rest))"
    using decodes [OF cov, of "opt_bytes opt @ os @ rest"] by blast
  have less: "(of_nat ii :: u16) < of_nat ?n"
    by (rule of_nat_less_u16) (use assms(3) h(1) in simp_all)
  have len5: "length ?h < 2 ^ 8" using short [of ?d ?l] by simp
  have i': "of_nat ii + ucast (of_nat (length ?h) :: u8) + ucast ?l
      = (of_nat (ii + length (?h @ opt_bytes opt)) :: u16)"
    using wf by (simp add: ucast_of_nat_u8 [OF len5] ucast_as_of_nat [of ?l] del: of_nat_unat)
  show ?thesis
    by (subst options_parse_loop.simps)
      (use assms(2,4) less h i' wf narrow [OF cov] in
        \<open>simp add: ucast_ucast_u16_u8 del: of_nat_add cong: if_cong\<close>)
qed

text \<open>The parser reads back a string of options.\<close>

lemma parse_options:
  assumes "\<forall>opt \<in> set opts. codable opt" and "numbered num opts"
    and "ii + length (option_string hdr opts) < 2 ^ 16" and "cnt + length opts \<le> length arr"
  shows "\<exists>arr'. options_parse_loop delta_switch len_switch
           (of_nat (ii + length (option_string hdr opts)))
           (Some (option_string hdr opts @ rest)) (of_nat ii) cnt num arr = Ok (arr', cnt + length opts)
         \<and> length arr' = length arr \<and> take cnt arr' = take cnt arr
         \<and> drop (cnt + length opts) arr' = drop (cnt + length opts) arr
         \<and> map opt_content (take (length opts) (drop cnt arr')) = map opt_content opts"
  using assms
proof (induction opts arbitrary: ii cnt num arr)
  case Nil
  then show ?case by (simp add: options_parse_loop.simps)
next
  case (Cons opt opts)
  let ?h = "hdr (opt_delta opt) (opt_len opt)" and ?os = "option_string hdr opts"
  let ?o = "\<lparr>opt_delta = opt_delta opt, opt_len = opt_len opt,
          opt_value = (if opt_len opt = 0 then None else Some (opt_bytes opt @ ?os @ rest)),
          opt_number = opt_number opt\<rparr> :: o_coap_option"
  let ?ii = "ii + length (?h @ opt_bytes opt)"
  from Cons.prems have rd: "codable opt" and wf: "opt_wf opt" by (auto simp: codable_def)
  have sum: "?ii + length ?os = ii + length (option_string hdr (opt # opts))" by simp
  from Cons.IH [of "opt_number opt" ?ii "Suc cnt" "arr[cnt := ?o]"] Cons.prems
  obtain arr' where arr':
    "options_parse_loop delta_switch len_switch (of_nat (?ii + length ?os)) (Some (?os @ rest))
       (of_nat ?ii) (Suc cnt) (opt_number opt) (arr[cnt := ?o]) = Ok (arr', Suc cnt + length opts)"
    "length arr' = length arr" "take (Suc cnt) arr' = take (Suc cnt) (arr[cnt := ?o])"
    "drop (Suc cnt + length opts) arr' = drop (Suc cnt + length opts) (arr[cnt := ?o])"
    "map opt_content (take (length opts) (drop (Suc cnt) arr')) = map opt_content opts"
    by (auto simp del: of_nat_add)
  have run: "options_parse_loop delta_switch len_switch
      (of_nat (ii + length (option_string hdr (opt # opts))))
      (Some (option_string hdr (opt # opts) @ rest)) (of_nat ii) cnt num arr
      = Ok (arr', cnt + length (opt # opts))"
    using parse_one [OF rd, of num ii ?os cnt arr rest] Cons.prems arr'(1)
    unfolding sum by (simp del: of_nat_add)
  have cnt: "cnt < length arr'" using Cons.prems(4) arr'(2) by simp
  have "arr' ! cnt = ?o"
    using arr'(3) cnt arr'(2) by (metis lessI nth_list_update_eq nth_take)
  then have "opt_content (arr' ! cnt) = opt_content opt"
    using wf by (auto simp: opt_content_def opt_bytes_def opt_wf_def)
  moreover have "take (Suc (length opts)) (drop cnt arr') =
      arr' ! cnt # take (length opts) (drop (Suc cnt) arr')"
    using cnt by (simp add: Cons_nth_drop_Suc [symmetric])
  moreover have "take cnt (take (Suc cnt) arr') = take cnt (take (Suc cnt) (arr[cnt := ?o]))"
    using arr'(3) by simp
  then have "take cnt arr' = take cnt arr" by simp
  ultimately show ?case using run arr' by auto
qed

end

section \<open>The header the serialiser writes\<close>

definition delta_nib :: "u16 \<Rightarrow> u8" where
  "delta_nib d = (if d < 13 then ucast d else if d < 243 then 13 else 14)"

definition delta_ext :: "u16 \<Rightarrow> bytes" where
  "delta_ext d = (if d < 13 then [] else if d < 243 then [ucast d + 13]
     else [ucast (drop_bit 8 ((d + 269) AND 0xFF00)), ucast ((d + 269) AND 0x00FF)])"

definition len_nib :: "u8 \<Rightarrow> u8" where
  "len_nib l = (if l < 13 then l else if l < 243 then 13 else 14)"

definition len_ext :: "u8 \<Rightarrow> bytes" where
  "len_ext l = (if l < 13 then [] else if l < 243 then [l + 13]
     else [ucast (drop_bit 8 ((ucast l + 269) AND 0xFF00 :: u16)),
           ucast ((ucast l + 269) AND 0x00FF :: u16)])"

definition option_header_bytes :: "u16 \<Rightarrow> u8 \<Rightarrow> bytes" where
  "option_header_bytes d l = (push_bit 4 (delta_nib d) OR len_nib l) # delta_ext d @ len_ext l"

lemma delta_field_Ok: "delta_field d = Ok (push_bit 4 (delta_nib d), delta_ext d)"
  by (auto simp: delta_field_def delta_extra_byte_def delta_nib_def delta_ext_def
      ucast_push_bit_4 ucast_plus_u8 Let_def not_less not_le dest: word_ge_243)

lemma len_field_Ok: "len_field l = Ok (len_nib l, len_ext l)"
  by (auto simp: len_field_def len_extra_byte_def len_nib_def len_ext_def Let_def not_less not_le
      dest: word_ge_243)

text \<open>The error codes for a delta or a length that needs three or more extra bytes are never
  returned.\<close>

lemma option_header_Ok: "option_header d l = Ok (option_header_bytes d l)"
  by (auto simp: option_header_def option_header_bytes_def delta_field_Ok len_field_Ok
      delta_nib_def delta_ext_def len_nib_def len_ext_def ucast_push_bit_4)

lemma nib_less_16: "delta_nib d < 16" "len_nib l < 16"
proof -
  have "ucast d < (16 :: u8)" if "d < 13"
    using that by (simp add: word_less_nat_alt unsigned_ucast_eq take_bit_nat_eq_self
        unsigned_take_bit_eq)
  then show "delta_nib d < 16" by (simp add: delta_nib_def)
  show "len_nib l < 16" by (simp add: len_nib_def word_less_nat_alt)
qed

lemmas header_nibbles = nibbles [OF nib_less_16]

lemma option_header_bytes_length: "length (option_header_bytes d l) \<le> 5"
  by (simp add: option_header_bytes_def delta_ext_def len_ext_def)

text \<open>\<open>buf2options\<close> reads this header for deltas below 243 and lengths below 13.\<close>

interpretation coap_codec:
  option_codec option_header_bytes buf2options_delta buf2options_len "\<lambda>d l. d < 243 \<and> l < 13"
proof (unfold_locales, goal_cases)
  case (1 d l rest)
  have "\<exists>hl p. buf2options_delta (delta_nib d) 1 (Some (delta_ext d @ rest)) = Ok (ucast d, hl, p) \<and>
      buf2options_len l hl p = Ok (l, of_nat (length (option_header_bytes d l)), Some rest)"
  proof -
    have l: "l \<noteq> 13" "l \<noteq> 14" "l \<noteq> 15" using 1 by (auto simp: word_less_nat_alt)
    have u: "ucast d < (13 :: u8)" if "d < 13"
      using that by (simp add: word_less_nat_alt unsigned_ucast_eq take_bit_nat_eq_self
          unsigned_take_bit_eq)
    then have "ucast d \<noteq> (13 :: u8)" "ucast d \<noteq> (14 :: u8)" "ucast d \<noteq> (15 :: u8)" if "d < 13"
      using that by (fastforce simp: word_less_nat_alt)+
    with 1 l show ?thesis
      by (auto simp: buf2options_delta_def buf2options_len_def option_header_bytes_def
          delta_nib_def delta_ext_def len_nib_def len_ext_def)
  qed
  moreover have "len_nib l = l" "len_ext l = []" using 1 by (simp_all add: len_nib_def len_ext_def)
  ultimately show ?case
    using header_nibbles [of d l] by (simp add: option_header_bytes_def)
next
  case (2 d l)
  then show ?case by (rule option_header_bytes_length)
next
  case (3 d l)
  then show ?case by (simp add: word_less_nat_alt)
qed

end
