(* ===== verification/Coap_Correct.thy ===== *)
theory Coap_Correct
  imports Option_Codec
begin

text \<open>
  What the functions of \<^verbatim>\<open>src/oscore/oscore_coap.c\<close> and \<^verbatim>\<open>src/oscore/option.c\<close> compute:
  the header of an option against RFC 7252, the serialisation of options and packets, and
  the parser reading it back.
\<close>

section \<open>The option header of RFC 7252\<close>

text \<open>RFC 7252, section 3.1: a value below 13 is its own nibble; a value below 269 has the
  nibble 13 and one byte, the value less 13; a greater value the nibble 14 and two bytes,
  the value less 269, most significant byte first.\<close>

definition rfc7252_nibble :: "nat \<Rightarrow> u8" where
  "rfc7252_nibble v = (if v < 13 then of_nat v else if v < 269 then 13 else 14)"

definition rfc7252_ext :: "nat \<Rightarrow> bytes" where
  "rfc7252_ext v = (if v < 13 then [] else if v < 269 then [of_nat (v - 13)]
     else [of_nat ((v - 269) div 256), of_nat ((v - 269) mod 256)])"

definition rfc7252_option_header :: "nat \<Rightarrow> nat \<Rightarrow> bytes" where
  "rfc7252_option_header d l =
     (push_bit 4 (rfc7252_nibble d) OR rfc7252_nibble l) # rfc7252_ext d @ rfc7252_ext l"

lemma extended_field_rfc7252: "extended_field v = (rfc7252_nibble (unat v), rfc7252_ext (unat v))"
proof -
  have [simp]: "(ucast (drop_bit 8 w AND 0xFF) :: u8) = of_nat (unat w div 256)"
    "(ucast (w AND 0xFF) :: u8) = of_nat (unat w mod 256)" for w :: u16
  proof -
    have "drop_bit 8 w AND 0xFF = drop_bit 8 w"
      unfolding byte_masks by (rule bit_word_eqI) (auto simp: bit_simps dest: bit_imp_le_length)
    then show "(ucast (drop_bit 8 w AND 0xFF) :: u8) = of_nat (unat w div 256)"
      by (simp add: ucast_as_of_nat drop_bit_eq_div unat_div del: of_nat_unat)
    have "w AND 0xFF = take_bit 8 w" unfolding byte_masks by (simp add: take_bit_eq_mask)
    then show "(ucast (w AND 0xFF) :: u8) = of_nat (unat w mod 256)"
      by (simp add: ucast_as_of_nat take_bit_eq_mod unat_mod del: of_nat_unat)
  qed
  have "unat (v - 13) = unat v - 13" if "13 \<le> v" using that by (simp add: unat_sub)
  moreover have "unat (v - 269) = unat v - 269" if "269 \<le> v" using that by (simp add: unat_sub)
  moreover have "(of_nat (n mod 256) :: u8) = of_nat n" for n
    by (simp add: word_unat_eq_iff unsigned_of_nat take_bit_eq_mod)
  ultimately show ?thesis
    by (auto simp: extended_field_def unat_div drop_bit_eq_div option_field_len_def rfc7252_nibble_def rfc7252_ext_def
        word_less_nat_alt word_le_nat_alt not_less ucast_as_of_nat [of "v - 13"]
        ucast_as_of_nat [of v] simp del: of_nat_unat)
qed

lemma encode_option_header_rfc7252:
  "encode_option_header d l = rfc7252_option_header (unat d) (unat l)"
  by (simp add: encode_option_header_def rfc7252_option_header_def extended_field_rfc7252)

text \<open>The serialiser of packets adds where the RFC subtracts.\<close>

lemma nibble_pair_eq:
  fixes a b a' b' :: u8
  assumes "push_bit 4 a OR b = push_bit 4 a' OR b'" and "a < 16" "b < 16" "a' < 16" "b' < 16"
  shows "a = a' \<and> b = b'"
  using assms nibbles by metis

lemma rfc7252_nibble_less: "rfc7252_nibble v < 16"
  by (auto simp: rfc7252_nibble_def word_less_nat_alt)

lemma shift_ne: "x + 13 \<noteq> x - (13 :: u8)" "y + 269 \<noteq> y - (269 :: u16)"
proof -
  have "x - 13 + 26 \<noteq> x - 13 + (0 :: u8)" "y - 269 + 538 \<noteq> y - 269 + (0 :: u16)"
    unfolding add_left_cancel by simp_all
  then show "x + 13 \<noteq> x - (13 :: u8)" "y + 269 \<noteq> y - (269 :: u16)" by simp_all
qed

lemma delta_ext_rfc7252:
  assumes "13 \<le> d" and "rfc7252_nibble (unat d) = delta_nib d"
    and "delta_ext d @ xs = rfc7252_ext (unat d) @ ys"
  shows False
proof (cases "d < 243")
  case True
  with assms have "ucast d + 13 = (of_nat (unat d - 13) :: u8)"
    by (auto simp: delta_ext_def rfc7252_ext_def word_less_nat_alt word_le_nat_alt)
  moreover have "(of_nat (unat d - 13) :: u8) = ucast d - 13"
    using assms(1) by (simp add: word_le_nat_alt of_nat_diff of_nat_unat)
  ultimately show False using shift_ne(1) by metis
next
  case False
  with assms(1,2) have ge: "269 \<le> unat d"
    by (auto simp: rfc7252_nibble_def delta_nib_def word_less_nat_alt split: if_splits)
  let ?e = "d - 269"
  have e: "unat ?e = unat d - 269" using ge by (simp add: unat_sub word_le_nat_alt)
  have "rfc7252_ext (unat d) = snd (extended_field d)" by (simp add: extended_field_rfc7252)
  also have "\<dots> = [ucast (drop_bit 8 ?e AND 0xFF), ucast (?e AND 0xFF)]"
    using ge by (simp add: extended_field_def option_field_len_def word_less_nat_alt)
  finally have "rfc7252_ext (unat d) = [ucast (drop_bit 8 ?e AND 0xFF), ucast (?e AND 0xFF)]" .
  moreover have "delta_ext d = [ucast (drop_bit 8 ((d + 269) AND 0xFF00)), ucast ((d + 269) AND 0x00FF)]"
    using leD [OF assms(1)] False by (simp add: delta_ext_def)
  ultimately have hi: "ucast (drop_bit 8 ((d + 269) AND 0xFF00)) = (ucast (drop_bit 8 ?e AND 0xFF) :: u8)"
    and lo: "ucast ((d + 269) AND 0x00FF) = (ucast (?e AND 0xFF) :: u8)"
    using assms(3) by simp_all
  have cut: "drop_bit 8 ?e AND 0xFF = drop_bit 8 (?e AND 0xFF00)"
    unfolding byte_masks by (rule bit_word_eqI) (auto simp: bit_simps)
  from two_bytes [of "d + 269"] have "(ucast (d + 269) :: u32) = ucast ?e"
    unfolding hi lo cut two_bytes by (rule sym)
  then have "unat (d + 269) = unat ?e" by (metis unat_ucast_u16_u32)
  then have "d + 269 = d - 269" by (simp only: word_unat_eq_iff)
  then show False using shift_ne(2) by metis
qed

lemma len_ext_rfc7252:
  assumes "13 \<le> l" and "rfc7252_nibble (unat l) = len_nib l" and "len_ext l = rfc7252_ext (unat l)"
  shows False
proof -
  from assms(1,2) u8_nat_less [of l] have "l < 243"
    by (auto simp: rfc7252_nibble_def len_nib_def word_le_nat_alt split: if_splits)
  with assms have "l + 13 = (of_nat (unat l - 13) :: u8)"
    by (auto simp: len_ext_def rfc7252_ext_def word_less_nat_alt word_le_nat_alt)
  moreover have "(of_nat (unat l - 13) :: u8) = l - 13"
    using assms(1) by (simp add: word_le_nat_alt of_nat_diff)
  ultimately show False using shift_ne(1) by metis
qed

lemma option_header_rfc7252_iff:
  "option_header d l = Ok (rfc7252_option_header (unat d) (unat l)) \<longleftrightarrow> d < 13 \<and> l < 13"
proof
  assume "d < 13 \<and> l < 13"
  then show "option_header d l = Ok (rfc7252_option_header (unat d) (unat l))"
    by (simp add: option_header_Ok option_header_bytes_def rfc7252_option_header_def delta_nib_def
        delta_ext_def len_nib_def len_ext_def rfc7252_nibble_def rfc7252_ext_def word_less_nat_alt
        ucast_as_of_nat [of d] del: of_nat_unat) simp
next
  assume "option_header d l = Ok (rfc7252_option_header (unat d) (unat l))"
  then have hd: "push_bit 4 (delta_nib d) OR len_nib l
      = push_bit 4 (rfc7252_nibble (unat d)) OR rfc7252_nibble (unat l)"
    and tl: "delta_ext d @ len_ext l = rfc7252_ext (unat d) @ rfc7252_ext (unat l)"
    by (simp_all add: option_header_Ok option_header_bytes_def rfc7252_option_header_def)
  have nib: "delta_nib d = rfc7252_nibble (unat d)" "len_nib l = rfc7252_nibble (unat l)"
    using nibble_pair_eq [OF hd nib_less_16 rfc7252_nibble_less rfc7252_nibble_less] by auto
  have d: "d < 13" using delta_ext_rfc7252 [OF _ nib(1) [symmetric] tl] by fastforce
  then have "delta_ext d = []" "rfc7252_ext (unat d) = []"
    by (auto simp: delta_ext_def rfc7252_ext_def word_less_nat_alt)
  with tl have "len_ext l = rfc7252_ext (unat l)" by simp
  with d len_ext_rfc7252 [OF _ nib(2) [symmetric]] show "d < 13 \<and> l < 13" by fastforce
qed

section \<open>Serialisation\<close>

abbreviation options_string :: "o_coap_option list \<Rightarrow> bytes" where
  "options_string \<equiv> option_string option_header_bytes"

lemma option_into_byte_string_step:
  assumes "opt_wf opt"
    and "length pre + length (options_string [opt]) \<le> unat capacity"
    and "unat capacity \<le> length (pre @ rest)"
  shows "option_into_byte_string capacity opt (pre @ rest, length pre, of_nat (length pre)) =
    Ok (pre @ options_string [opt] @ drop (length (options_string [opt])) rest,
        length (pre @ options_string [opt]), of_nat (length (pre @ options_string [opt])))"
proof -
  let ?h = "option_header_bytes (opt_delta opt) (opt_len opt)" and ?v = "opt_bytes opt"
  let ?pos = "length (pre @ ?h)"
  have read: "mem_ok (opt_value opt) (unat (opt_len opt))" using assms(1) by (simp add: opt_wf_def)
  have w1: "write_mem (pre @ rest) (int (length pre)) ?h = Ok ((pre @ ?h) @ drop (length ?h) rest)"
    using assms by (simp add: mem_simps)
  have room: "?pos + unat (opt_len opt) \<le> unat capacity" using assms by simp
  then have "unat (capacity - of_nat ?pos) = unat capacity - ?pos" by (intro unat_minus_u32) simp
  with room have fits: "ucast (opt_len opt) \<le> capacity - of_nat ?pos"
    by (simp add: word_le_nat_alt del: of_nat_add length_append)
  have w2: "write_mem ((pre @ ?h) @ drop (length ?h) rest) (int ?pos) ?v
      = Ok ((pre @ ?h) @ ?v @ drop (length ?v) (drop (length ?h) rest))"
    by (rule write_mem_at_end) (use assms in simp)
  have "memcpy_s ((pre @ ?h) @ drop (length ?h) rest) (int ?pos) (capacity - of_nat ?pos)
          (opt_value opt) (ucast (opt_len opt))
      = Ok ((pre @ ?h) @ ?v @ drop (length ?v) (drop (length ?h) rest))"
    unfolding memcpy_s_def using fits read w2 by (simp add: opt_bytes_def)
  with w1 assms(1) show ?thesis
    by (simp add: option_into_byte_string_def option_header_Ok Let_def add.commute
        ucast_as_of_nat [of "opt_len opt"] del: of_nat_unat)
qed

lemma options_into_byte_string_fold:
  assumes "\<forall>opt \<in> set opts. opt_wf opt"
    and "length pre + length (options_string opts) \<le> unat capacity"
    and "unat capacity \<le> length (pre @ rest)"
  shows "foldR (option_into_byte_string capacity) opts (pre @ rest, length pre, of_nat (length pre)) =
    Ok (pre @ options_string opts @ drop (length (options_string opts)) rest,
        length (pre @ options_string opts), of_nat (length (pre @ options_string opts)))"
  using assms
proof (induction opts arbitrary: pre rest)
  case Nil
  then show ?case by simp
next
  case (Cons opt opts)
  let ?s = "options_string [opt]"
  have "option_into_byte_string capacity opt (pre @ rest, length pre, of_nat (length pre)) =
      Ok ((pre @ ?s) @ drop (length ?s) rest, length (pre @ ?s), of_nat (length (pre @ ?s)))"
    using option_into_byte_string_step [of opt pre capacity rest] Cons.prems by simp
  moreover have "foldR (option_into_byte_string capacity) opts
      ((pre @ ?s) @ drop (length ?s) rest, length (pre @ ?s), of_nat (length (pre @ ?s))) =
    Ok ((pre @ ?s) @ options_string opts @ drop (length (options_string opts)) (drop (length ?s) rest),
        length ((pre @ ?s) @ options_string opts), of_nat (length ((pre @ ?s) @ options_string opts)))"
    by (rule Cons.IH) (use Cons.prems in auto)
  ultimately show ?case by (simp add: ac_simps)
qed

lemma options_into_byte_string_eq:
  assumes "unat cnt \<le> length opts" and "\<forall>opt \<in> set (take (unat cnt) opts). opt_wf opt"
    and "length (options_string (take (unat cnt) opts)) \<le> unat capacity"
    and "unat capacity \<le> length out"
  shows "options_into_byte_string opts cnt out capacity =
    (let s = options_string (take (unat cnt) opts)
     in Ok (s @ drop (length s) out, of_nat (length s)))"
  using options_into_byte_string_fold [of "take (unat cnt) opts" "[]" capacity out] assms
  by (simp add: options_into_byte_string_def for_arr_foldR Let_def)

section \<open>Packets\<close>

definition pkt_options :: "o_coap_packet \<Rightarrow> o_coap_option list" where
  "pkt_options pkt = take (unat (options_cnt pkt)) (options pkt)"

definition pkt_wf :: "o_coap_packet \<Rightarrow> bool" where
  "pkt_wf pkt \<longleftrightarrow> unat (options_cnt pkt) \<le> length (options pkt) \<and>
     (\<forall>opt \<in> set (pkt_options pkt). opt_wf opt) \<and>
     mem_ok (token pkt) (unat (hdr_TKL (header pkt))) \<and>
     mem_ok (payload pkt) (unat (payload_len pkt))"

definition coap_string :: "o_coap_packet \<Rightarrow> bytes" where
  "coap_string pkt = coap_header_bytes (header pkt) @
     mem_bytes (token pkt) (unat (hdr_TKL (header pkt))) @ options_string (pkt_options pkt) @
     (if payload_len pkt \<noteq> 0 then 0xFF # mem_bytes (payload pkt) (unat (payload_len pkt)) else [])"

text \<open>The room \<open>coap2buf\<close> reserves for the options.\<close>

definition options_room :: "o_coap_option list \<Rightarrow> nat" where
  "options_room opts = sum_list (map (\<lambda>opt. unat (opt_len opt) + 5) opts)"

lemma options_room_simps [simp]:
  "options_room [] = 0" "options_room (opt # opts) = unat (opt_len opt) + 5 + options_room opts"
  by (simp_all add: options_room_def)

lemma options_string_length:
  "\<forall>opt \<in> set opts. opt_wf opt \<Longrightarrow> length (options_string opts) \<le> options_room opts"
proof (induction opts)
  case Nil
  then show ?case by simp
next
  case (Cons opt opts)
  then show ?case
    using option_header_bytes_length [of "opt_delta opt" "opt_len opt"] by auto
qed

lemma options_max_len_eq:
  assumes "unat (options_cnt pkt) \<le> length (options pkt)"
  shows "options_max_len pkt = Ok (of_nat (options_room (pkt_options pkt)))"
proof -
  have "foldR (\<lambda>opt n. Ok (n + 5 + ucast (opt_len opt))) opts n = Ok (n + of_nat (options_room opts))"
    for opts and n :: u32
    by (induction opts arbitrary: n)
      (simp_all add: ucast_as_of_nat [of "opt_len _"] ac_simps del: of_nat_unat)
  with assms show ?thesis
    by (simp add: options_max_len_def for_arr_foldR pkt_options_def)
qed

lemma options_room_small: "length opts < 256 \<Longrightarrow> options_room opts < 2 ^ 32"
proof -
  have "options_room opts \<le> 260 * length opts"
  proof (induction opts)
    case (Cons opt opts)
    then show ?case using u8_nat_less [of "opt_len opt"] by simp
  qed simp
  then show "length opts < 256 \<Longrightarrow> options_room opts < 2 ^ 32" by simp
qed

lemma coap_header_bytes_length [simp]: "length (coap_header_bytes h) = 4"
  by (simp add: coap_header_bytes_def)

text \<open>\<open>coap2buf\<close> writes the packet to the front of the output buffer.\<close>

lemma coap2buf_writes:
  assumes wf: "pkt_wf pkt" and room: "options_room (pkt_options pkt) \<le> 128"
    and fits: "length (coap_string pkt) \<le> unat out_len" and out: "unat out_len \<le> length out"
  shows "coap2buf pkt out out_len =
    Ok (coap_string pkt @ drop (length (coap_string pkt)) out, of_nat (length (coap_string pkt)))"
proof -
  let ?h = "coap_header_bytes (header pkt)" and ?tkl = "hdr_TKL (header pkt)"
  let ?t = "mem_bytes (token pkt) (unat ?tkl)" and ?o = "options_string (pkt_options pkt)"
  let ?p = "mem_bytes (payload pkt) (unat (payload_len pkt))"
  from wf have cnt: "unat (options_cnt pkt) \<le> length (options pkt)"
    and opts: "\<forall>opt \<in> set (pkt_options pkt). opt_wf opt"
    and tok: "mem_ok (token pkt) (unat ?tkl)" and pl: "mem_ok (payload pkt) (unat (payload_len pkt))"
    by (simp_all add: pkt_wf_def)
  have len: "4 + unat ?tkl + length ?o \<le> unat out_len"
    and len': "payload_len pkt \<noteq> 0 \<Longrightarrow>
      Suc (4 + unat ?tkl + length ?o) + unat (payload_len pkt) \<le> unat out_len"
    using fits tok pl by (simp_all add: coap_string_def)
  have o128: "length ?o \<le> 128" using options_string_length [OF opts] room by simp
  have uo: "unat (of_nat (length ?o) :: u32) = length ?o" using o128 by simp
  have s1: "write_mem out 0 ?h = Ok (?h @ drop 4 out)"
    using len out write_mem_at_end [of ?h out "[]"] tok by simp
  have s2: "(if 0 < ?tkl then memcpy_s (?h @ drop 4 out) 4 (out_len - 4) (token pkt) (ucast ?tkl)
      else Ok (?h @ drop 4 out)) = Ok ((?h @ ?t) @ drop (4 + unat ?tkl) out)"
  proof (cases "0 < ?tkl")
    case True
    have "memcpy_s (?h @ drop 4 out) (int 4) (out_len - of_nat 4) (token pkt) (ucast ?tkl)
        = Ok (?h @ mem_bytes (token pkt) (unat (ucast ?tkl :: u32)) @
              drop (unat (ucast ?tkl :: u32)) (drop 4 out))"
      by (rule memcpy_s_rest) (use len out tok in simp_all)
    with True show ?thesis by (simp add: add.commute)
  next
    case False
    then have "?tkl = 0" by (simp add: word_gt_0)
    then show ?thesis by simp
  qed
  have s3: "options_into_byte_string (options pkt) (options_cnt pkt)
        (replicate (unat MAX_COAP_OPTIONS_LEN) 0) (of_nat (options_room (pkt_options pkt)))
      = Ok (?o @ replicate (128 - length ?o) 0, of_nat (length ?o))"
    using options_into_byte_string_eq [of "options_cnt pkt" "options pkt"
        "of_nat (options_room (pkt_options pkt))" "replicate 128 0"] cnt opts room
      options_string_length [OF opts]
    by (simp add: pkt_options_def Let_def)
  have s4: "memcpy_s ((?h @ ?t) @ drop (4 + unat ?tkl) out) (int (4 + unat ?tkl))
        (out_len - of_nat (4 + unat ?tkl)) (Some (?o @ replicate (128 - length ?o) 0)) (of_nat (length ?o))
      = Ok ((?h @ ?t @ ?o) @ drop (4 + unat ?tkl + length ?o) out)"
  proof -
    have "memcpy_s ((?h @ ?t) @ drop (4 + unat ?tkl) out) (int (4 + unat ?tkl))
          (out_len - of_nat (4 + unat ?tkl)) (Some (?o @ replicate (128 - length ?o) 0)) (of_nat (length ?o))
        = Ok ((?h @ ?t) @ mem_bytes (Some (?o @ replicate (128 - length ?o) 0))
                 (unat (of_nat (length ?o) :: u32)) @
              drop (unat (of_nat (length ?o) :: u32)) (drop (4 + unat ?tkl) out))"
      by (rule memcpy_s_rest) (use len out tok uo in simp_all)
    then show ?thesis unfolding uo by (simp add: add.commute del: of_nat_add)
  qed
  let ?pos = "4 + unat ?tkl + length ?o"
  have s5: "(if payload_len pkt \<noteq> 0 then
           TRY (write_mem ((?h @ ?t @ ?o) @ drop ?pos out) (int ?pos) [0xFF]) (\<lambda>out4.
           memcpy_s out4 (int (?pos + 1)) (out_len - of_nat (?pos + 1)) (payload pkt) (payload_len pkt))
         else Ok ((?h @ ?t @ ?o) @ drop ?pos out))
      = Ok (coap_string pkt @ drop (length (coap_string pkt)) out)"
  proof (cases "payload_len pkt = 0")
    case True
    then show ?thesis using tok by (simp add: coap_string_def add.assoc)
  next
    case False
    have w: "write_mem ((?h @ ?t @ ?o) @ drop ?pos out) (int ?pos) [0xFF]
        = Ok ((?h @ ?t @ ?o @ [0xFF]) @ drop (Suc ?pos) out)"
      using write_mem_at_end [of "[0xFF]" "drop ?pos out" "?h @ ?t @ ?o"] len' [OF False] out tok
      by (simp add: ac_simps)
    have "memcpy_s ((?h @ ?t @ ?o @ [0xFF]) @ drop (Suc ?pos) out) (int (Suc ?pos))
          (out_len - of_nat (Suc ?pos)) (payload pkt) (payload_len pkt)
        = Ok ((?h @ ?t @ ?o @ [0xFF]) @ ?p @ drop (unat (payload_len pkt)) (drop (Suc ?pos) out))"
      by (rule memcpy_s_rest) (use len' [OF False] out tok pl in auto)
    with w False tok pl show ?thesis
      by (simp add: coap_string_def ac_simps del: of_nat_Suc of_nat_add)
  qed
  have s6: "check_buffer_size MAX_COAP_OPTIONS_LEN (of_nat (options_room (pkt_options pkt))) = Ok ()"
    using room by (simp add: word_le_nat_alt)
  have s7: "4 + ucast ?tkl + of_nat (length ?o) + (if payload_len pkt \<noteq> 0 then 1 + payload_len pkt else 0)
      = (of_nat (length (coap_string pkt)) :: u32)"
    using tok pl by (simp add: coap_string_def ucast_as_of_nat [of ?tkl] del: of_nat_unat)
      (simp add: of_nat_unat)
  show ?thesis
    unfolding coap2buf_def Let_def s1 TRY.simps s2 options_max_len_eq [OF cnt] s6 s3 case_prod_conv
      s4 uo s5 s7 ..
qed

section \<open>Received packets\<close>


lemma header_masks: "(0xC0 :: u8) = push_bit 6 (mask 2)" "(0x30 :: u8) = push_bit 4 (mask 2)"
  "(0x0F :: u8) = mask 4"
  by (simp_all add: mask_eq_exp_minus_1 push_bit_eq_mult)

definition header_wf :: "o_coap_header \<Rightarrow> bool" where
  "header_wf h \<longleftrightarrow> hdr_ver h < 4 \<and> hdr_type h < 4 \<and> hdr_TKL h \<le> 8"

lemma first_byte_fields:
  fixes v t k :: u8
  assumes "v < 4" "t < 4" "k < 16"
  shows "drop_bit 6 ((push_bit 6 v OR push_bit 4 t OR k) AND 0xC0) = v"
    and "drop_bit 4 ((push_bit 6 v OR push_bit 4 t OR k) AND 0x30) = t"
    and "(push_bit 6 v OR push_bit 4 t OR k) AND 0x0F = k"
proof -
  have v: "\<not> bit v n" if "2 \<le> n" for n
    using unat_less_bits [of v 2 n] assms(1) that by (auto simp: word_less_nat_alt)
  have t: "\<not> bit t n" if "2 \<le> n" for n
    using unat_less_bits [of t 2 n] assms(2) that by (auto simp: word_less_nat_alt)
  have k: "\<not> bit k n" if "4 \<le> n" for n
    using unat_less_bits [of k 4 n] assms(3) that by (auto simp: word_less_nat_alt)
  show "drop_bit 6 ((push_bit 6 v OR push_bit 4 t OR k) AND 0xC0) = v"
  proof (rule bit_word_eqI)
    fix n assume "n < LENGTH(8)"
    then show "bit (drop_bit 6 ((push_bit 6 v OR push_bit 4 t OR k) AND 0xC0)) n = bit v n"
      unfolding header_masks by (cases "n < 2") (simp_all add: bit_simps v t k)
  qed
  show "drop_bit 4 ((push_bit 6 v OR push_bit 4 t OR k) AND 0x30) = t"
  proof (rule bit_word_eqI)
    fix n assume "n < LENGTH(8)"
    then show "bit (drop_bit 4 ((push_bit 6 v OR push_bit 4 t OR k) AND 0x30)) n = bit t n"
      unfolding header_masks by (cases "n < 2") (simp_all add: bit_simps v t k)
  qed
  show "(push_bit 6 v OR push_bit 4 t OR k) AND 0x0F = k"
  proof (rule bit_word_eqI)
    fix n assume "n < LENGTH(8)"
    then show "bit ((push_bit 6 v OR push_bit 4 t OR k) AND 0x0F) n = bit k n"
      unfolding header_masks by (cases "n < 4") (simp_all add: bit_simps v t k)
  qed
qed

lemma mid_bytes:
  "push_bit 8 (ucast (ucast (drop_bit 8 (m AND 0xFF00 :: u16)) :: u8)) OR ucast (ucast (m AND 0x00FF) :: u8) = m"
  unfolding byte_masks by (rule bit_word_eqI) (auto simp: bit_simps dest: bit_imp_le_length)

lemma options_extent_marker:
  "0xFF \<notin> set os \<Longrightarrow> length os < unat pl \<Longrightarrow>
   options_extent (os @ 0xFF # rest) pl ol =
     Ok (Some (0xFF # rest), pl - of_nat (length os), ol + of_nat (length os))"
proof (induction os arbitrary: pl ol)
  case Nil
  then show ?case by simp
next
  case (Cons b os)
  then have "unat (pl - 1) = unat pl - 1" using unat_minus_u32 [of 1 pl] by simp
  moreover from this Cons.prems(2) have "pl - 1 \<noteq> 0" by (auto simp del: unat_eq_zero)
  ultimately show ?case using Cons by (simp add: algebra_simps)
qed

lemma options_extent_end:
  "0xFF \<notin> set os \<Longrightarrow> os \<noteq> [] \<Longrightarrow> unat pl = length os \<Longrightarrow>
   options_extent os pl ol = Ok (Some [], 0, ol + of_nat (length os))"
proof (induction os arbitrary: pl ol)
  case Nil
  then show ?case by simp
next
  case (Cons b os)
  then have u: "unat (pl - 1) = length os" using unat_minus_u32 [of 1 pl] by simp
  then have z: "pl - 1 = 0 \<longleftrightarrow> os = []" by (metis length_0_conv unat_eq_zero)
  show ?case
  proof (cases os)
    case Nil
    with z Cons.prems show ?thesis by simp
  next
    case (Cons c cs)
    with z u Cons.IH [of "pl - 1" "ol + 1"] Cons.prems show ?thesis by (simp add: algebra_simps)
  qed
qed

lemma buf2options_reads:
  assumes "\<forall>opt \<in> set opts. coap_codec.codable opt" and "numbered 0 opts"
    and "length (options_string opts) < 2 ^ 16" and "length opts \<le> length arr" and "length opts < 256"
  shows "\<exists>arr'. buf2options (Some (options_string opts @ rest)) (of_nat (length (options_string opts))) arr
           = Ok (arr', of_nat (length opts)) \<and> length arr' = length arr
         \<and> map opt_content (take (length opts) arr') = map opt_content opts"
  using coap_codec.parse_options [of opts 0 0 0 arr rest] assms
  by (auto simp: buf2options_def)

text \<open>What a packet says: header, token, options and payload.\<close>

definition pkt_content ::
    "o_coap_packet \<Rightarrow> o_coap_header \<times> bytes \<times> (u16 \<times> u8 \<times> u8 \<times> bytes) list \<times> bytes" where
  "pkt_content pkt =
     (header pkt, mem_bytes (token pkt) (unat (hdr_TKL (header pkt))),
      map opt_content (pkt_options pkt), mem_bytes (payload pkt) (unat (payload_len pkt)))"

text \<open>Packets the parser can read: a header with valid fields, options with small deltas and
  lengths whose numbers are the sums of the deltas, no payload marker inside the options, and
  something behind the token.\<close>

definition pkt_codable :: "o_coap_packet \<Rightarrow> bool" where
  "pkt_codable pkt \<longleftrightarrow> pkt_wf pkt \<and> header_wf (header pkt) \<and> length (options pkt) = MAX_OPTION_COUNT \<and>
     (\<forall>opt \<in> set (pkt_options pkt). coap_codec.codable opt) \<and> numbered 0 (pkt_options pkt) \<and>
     0xFF \<notin> set (options_string (pkt_options pkt)) \<and>
     (pkt_options pkt \<noteq> [] \<or> payload_len pkt \<noteq> 0) \<and> length (coap_string pkt) < 2 ^ 32"

lemma buf2coap_header_bytes:
  assumes "header_wf h" and "coap_header_bytes h = [b0, b1, b2, b3]"
  shows "buf2coap_header b0 b1 b2 b3 = h"
proof -
  from assms(2) have b: "b0 = coap_first_byte h" "b1 = hdr_code h"
    "b2 = ucast (drop_bit 8 (hdr_MID h AND 0xFF00))" "b3 = ucast (hdr_MID h AND 0x00FF)"
    by (simp_all add: coap_header_bytes_def)
  have "hdr_TKL h < 16" "hdr_ver h < 4" "hdr_type h < 4"
    using assms(1) by (auto simp: header_wf_def word_less_nat_alt word_le_nat_alt)
  then show ?thesis
    using first_byte_fields [of "hdr_ver h" "hdr_type h" "hdr_TKL h"] mid_bytes [of "hdr_MID h"]
    unfolding buf2coap_header_def b coap_first_byte_def by (simp del: of_nat_unat)
qed

lemma of_nat_0_u32: "n < 2 ^ 32 \<Longrightarrow> (of_nat n :: u32) = 0 \<longleftrightarrow> n = 0"
  using unat_eq_zero [of "of_nat n :: u32"] by simp

lemma of_nat_0_u16: "n < 2 ^ 16 \<Longrightarrow> (of_nat n :: u16) = 0 \<longleftrightarrow> n = 0"
  using unat_eq_zero [of "of_nat n :: u16"] by simp

lemma buf2coap_token_reads:
  assumes "hdr_TKL (header out) \<le> 8" and "length t = unat (hdr_TKL (header out))"
    and "body \<noteq> []" and "length (t @ body) < 2 ^ 32"
  shows "buf2coap_token out (Some (t @ body)) (of_nat (length (t @ body))) =
    Ok (out\<lparr>token := (if hdr_TKL (header out) = 0 then None else Some (t @ body))\<rparr>,
        Some body, of_nat (length body))"
proof -
  have "(of_nat (length (t @ body)) :: u32) \<noteq> 0"
    using assms(3,4) of_nat_0_u32 [of "length (t @ body)"] by simp
  moreover have "t = []" if "hdr_TKL (header out) = 0" using that assms(2) by simp
  moreover have "(of_nat (length (t @ body)) :: u32) - ucast (hdr_TKL (header out)) = of_nat (length body)"
    by (simp add: ucast_as_of_nat assms(2) del: of_nat_unat)
  ultimately show ?thesis
    using assms(1,2) by (simp add: buf2coap_token_def Let_def del: of_nat_add length_append)
qed

lemma options_string_empty_iff: "options_string opts = [] \<longleftrightarrow> opts = []"
  by (cases opts) (simp_all add: option_header_bytes_def)

text \<open>The options of a packet behind its token.\<close>

lemma buf2coap_options_reads:
  fixes opts :: "o_coap_option list" and tail :: bytes
  assumes "\<forall>opt \<in> set opts. coap_codec.codable opt" and "numbered 0 opts"
    and "0xFF \<notin> set (options_string opts)" and "length opts \<le> length (options out)"
    and "length opts < 256" and "length (options_string opts) < 2 ^ 16"
    and "tail = [] \<and> opts \<noteq> [] \<or> (\<exists>pl. tail = 0xFF # pl)"
    and "length (options_string opts @ tail) < 2 ^ 32"
  shows "\<exists>arr. buf2coap_options out (Some (options_string opts @ tail))
            (of_nat (length (options_string opts @ tail))) =
          Ok (out\<lparr>options := arr, options_cnt := of_nat (length opts)\<rparr>, Some tail, of_nat (length tail))
       \<and> length arr = length (options out)
       \<and> map opt_content (take (length opts) arr) = map opt_content opts"
proof (cases "opts = []")
  case True
  with assms(7) obtain pl where pl: "tail = 0xFF # pl" by auto
  have "(of_nat (length tail) :: u32) \<noteq> 0" using assms(8) True pl of_nat_0_u32 [of "length tail"] by auto
  with True pl show ?thesis
    by (intro exI [of _ "options out"]) (simp add: buf2coap_options_def)
next
  case False
  let ?s = "options_string opts"
  from False have s: "?s \<noteq> []" by (simp add: options_string_empty_iff)
  then obtain b bs where bs: "?s = b # bs" by (meson list.exhaust)
  with assms(3) have b: "b \<noteq> 0xFF" by auto
  have nz: "(of_nat (length (?s @ tail)) :: u32) \<noteq> 0" using assms(8) s of_nat_0_u32 [of "length (?s @ tail)"] by auto
  have ext: "options_extent (?s @ tail) (of_nat (length (?s @ tail))) 0
      = Ok (Some tail, of_nat (length tail), of_nat (length ?s))"
  proof (cases "tail = []")
    case True
    then show ?thesis using options_extent_end [of ?s "of_nat (length ?s)" 0] assms(3,8) s by simp
  next
    case False
    with assms(7) obtain pl where pl: "tail = 0xFF # pl" by auto
    have "length ?s < unat (of_nat (length (?s @ tail)) :: u32)"
      using assms(8) pl by (subst unat_of_nat_u32) auto
    from options_extent_marker [OF assms(3) this, of pl 0] pl show ?thesis by simp
  qed
  have ol: "0 < (of_nat (length ?s) :: u16)"
    using assms(6) s of_nat_0_u16 [of "length ?s"] by (simp add: word_gt_0)
  from buf2options_reads [OF assms(1,2,6,4,5), of tail] obtain arr where
    "buf2options (Some (?s @ tail)) (of_nat (length ?s)) (options out) = Ok (arr, of_nat (length opts))"
    "length arr = length (options out)" "map opt_content (take (length opts) arr) = map opt_content opts"
    by auto
  then show ?thesis
    using nz ext ol b bs unfolding buf2coap_options_def by (intro exI [of _ arr]) (simp del: of_nat_add length_append)
qed

lemma buf2coap_payload_reads:
  assumes "length tail < 2 ^ 32" and "tail = [] \<or> (\<exists>pl. tail = 0xFF # pl)"
  shows "buf2coap_payload out (Some tail) (of_nat (length tail)) =
    (if tail = [] then out\<lparr>payload_len := 0, payload := None\<rparr>
     else out\<lparr>payload_len := of_nat (length tail - 1), payload := Some (tl tail)\<rparr>)"
  using assms of_nat_0_u32 [of "length tail"] by (auto simp: buf2coap_payload_def)

lemma buf2coap_reads_content:
  assumes cod: "pkt_codable pkt" and len: "length (options out0) = MAX_OPTION_COUNT"
  shows "\<exists>pkt'. buf2coap out0 (coap_string pkt) = Ok pkt' \<and> pkt_content pkt' = pkt_content pkt \<and>
    length (options pkt') = MAX_OPTION_COUNT \<and> payload_len pkt' = payload_len pkt"
proof -
  let ?h = "header pkt" and ?opts = "pkt_options pkt"
  let ?t = "mem_bytes (token pkt) (unat (hdr_TKL ?h))" and ?s = "options_string ?opts"
  let ?p = "mem_bytes (payload pkt) (unat (payload_len pkt))"
  define tail where "tail = (if payload_len pkt \<noteq> 0 then 0xFF # ?p else [])"
  from cod have wf: "pkt_wf pkt" and hw: "header_wf ?h" and codable: "\<forall>opt \<in> set ?opts. coap_codec.codable opt"
    and num: "numbered 0 ?opts" and ff: "0xFF \<notin> set ?s" and ne: "?opts \<noteq> [] \<or> payload_len pkt \<noteq> 0"
    and small: "length (coap_string pkt) < 2 ^ 32" and len20: "length (options pkt) = 20"
    by (simp_all add: pkt_codable_def)
  from wf have tok: "mem_ok (token pkt) (unat (hdr_TKL ?h))" and pl: "mem_ok (payload pkt) (unat (payload_len pkt))"
    and opts: "\<forall>opt \<in> set ?opts. opt_wf opt" and cnt: "unat (options_cnt pkt) \<le> length (options pkt)"
    by (simp_all add: pkt_wf_def)
  have n20: "length ?opts \<le> 20" and n_cnt: "length ?opts = unat (options_cnt pkt)"
    using cnt len20 by (simp_all add: pkt_options_def)
  have str: "coap_string pkt = coap_header_bytes ?h @ ?t @ ?s @ tail"
    by (simp add: coap_string_def tail_def)
  obtain b0 b1 b2 b3 where hb: "coap_header_bytes ?h = [b0, b1, b2, b3]"
    by (simp add: coap_header_bytes_def)
  note hdr = buf2coap_header_bytes [OF hw hb]
  have s_small: "length ?s < 2 ^ 16"
  proof -
    have "options_room opts \<le> 260 * length opts" for opts
    proof (induction opts)
      case (Cons opt opts)
      then show ?case using u8_nat_less [of "opt_len opt"] by simp
    qed simp
    from this [of ?opts] options_string_length [OF opts] n20 show ?thesis by simp
  qed
  have tailc: "tail = [] \<and> ?opts \<noteq> [] \<or> (\<exists>pl. tail = 0xFF # pl)" using ne by (auto simp: tail_def)
  have body: "?s @ tail \<noteq> []" using tailc by (auto simp: options_string_empty_iff)
  have lens: "length (?t @ ?s @ tail) < 2 ^ 32" "length (?s @ tail) < 2 ^ 32" "length tail < 2 ^ 32"
    using small str by simp_all
  define out1 where "out1 = out0\<lparr>header := ?h\<rparr>"
  define out2 where "out2 = out1\<lparr>token := (if hdr_TKL ?h = 0 then None else Some (?t @ ?s @ tail))\<rparr>"
  have t: "buf2coap_token out1 (Some (?t @ ?s @ tail)) (of_nat (length (?t @ ?s @ tail))) =
      Ok (out2, Some (?s @ tail), of_nat (length (?s @ tail)))"
    using buf2coap_token_reads [of out1 ?t "?s @ tail"] hw tok body lens(1)
    by (simp add: out1_def out2_def header_wf_def)
  have "length ?opts \<le> length (options out2)" "length ?opts < 256"
    using n20 len by (simp_all add: out1_def out2_def)
  from buf2coap_options_reads [OF codable num ff this s_small tailc lens(2)] obtain arr where
    o: "buf2coap_options out2 (Some (?s @ tail)) (of_nat (length (?s @ tail))) =
          Ok (out2\<lparr>options := arr, options_cnt := of_nat (length ?opts)\<rparr>, Some tail, of_nat (length tail))"
      "length arr = length (options out2)" "map opt_content (take (length ?opts) arr) = map opt_content ?opts"
    by blast
  define pkt' where "pkt' = buf2coap_payload (out2\<lparr>options := arr, options_cnt := of_nat (length ?opts)\<rparr>)
      (Some tail) (of_nat (length tail))"
  have not_short: "\<not> (of_nat (length (coap_string pkt)) :: u32) < HEADER_LEN"
    using small unat_of_nat_u32 [OF small] by (simp add: word_less_nat_alt str hb del: unat_of_nat_u32)
  have rest: "(of_nat (length (coap_string pkt)) :: u32) - 4 = of_nat (length (?t @ ?s @ tail))"
    by (simp add: str hb)
  have drops: "advance (Some (coap_string pkt)) 4 = Some (?t @ ?s @ tail)"
    by (simp add: str hb)
  have run: "buf2coap out0 (coap_string pkt) = Ok pkt'"
    unfolding buf2coap_def Let_def
    using not_short rest drops t o(1)
    by (simp add: str hb hdr pkt'_def out1_def numeral_2_eq_2 numeral_3_eq_3 del: HEADER_LEN_def coap_consts)
  have tailc': "tail = [] \<or> (\<exists>pl. tail = 0xFF # pl)" using tailc by auto
  have fields: "header pkt' = ?h" "token pkt' = (if hdr_TKL ?h = 0 then None else Some (?t @ ?s @ tail))"
    "options pkt' = arr" "options_cnt pkt' = of_nat (length ?opts)"
    "payload_len pkt' = payload_len pkt" "mem_bytes (payload pkt') (unat (payload_len pkt)) = ?p"
    unfolding pkt'_def buf2coap_payload_reads [OF lens(3) tailc']
    using pl by (auto simp: out2_def out1_def tail_def)
  have "pkt_options pkt' = take (length ?opts) arr"
    using n20 by (simp add: pkt_options_def fields)
  moreover have "mem_bytes (token pkt') (unat (hdr_TKL ?h)) = ?t"
    using tok by (simp add: fields)
  ultimately have "pkt_content pkt' = pkt_content pkt"
    using o(3) by (simp add: pkt_content_def fields)
  moreover have "length (options pkt') = MAX_OPTION_COUNT"
    using o(2) len by (simp add: fields out2_def out1_def)
  ultimately show ?thesis using run fields(5) by blast
qed
section \<open>Options encoded as RFC 7252 says\<close>

lemma rfc7252_option_header_length: "length (rfc7252_option_header d l) \<le> 5"
  by (simp add: rfc7252_option_header_def rfc7252_ext_def)

lemma small_nibble:
  "v < 13 \<Longrightarrow> rfc7252_nibble v \<noteq> 13 \<and> rfc7252_nibble v \<noteq> 14 \<and> rfc7252_nibble v \<noteq> 15"
  by (simp add: rfc7252_nibble_def word_unat_eq_iff)

text \<open>\<open>buf2options\<close> reads a received option if its delta is below 13; its length may be any.\<close>

interpretation rfc_codec:
  option_codec "\<lambda>d l. rfc7252_option_header (unat d) (unat l)" buf2options_delta buf2options_len
    "\<lambda>d l. d < 13"
proof (unfold_locales, goal_cases)
  case (1 d l rest)
  then have d: "unat d < 13" by (simp add: word_less_nat_alt)
  have dn: "rfc7252_nibble (unat d) = ucast d" "rfc7252_ext (unat d) = []"
    using d by (simp_all add: rfc7252_nibble_def rfc7252_ext_def ucast_as_of_nat [of d] del: of_nat_unat)
  have "buf2options_delta (ucast d) 1 (Some (rfc7252_ext (unat l) @ rest))
      = Ok (ucast d, 1, Some (rfc7252_ext (unat l) @ rest))"
    using small_nibble [OF d] unfolding dn by (simp add: buf2options_delta_def)
  moreover have "buf2options_len (rfc7252_nibble (unat l)) 1 (Some (rfc7252_ext (unat l) @ rest))
      = Ok (l, of_nat (length (rfc7252_option_header (unat d) (unat l))), Some rest)"
  proof (cases "unat l < 13")
    case True
    then have "rfc7252_nibble (unat l) = l" "rfc7252_ext (unat l) = []"
      by (simp_all add: rfc7252_nibble_def rfc7252_ext_def)
    with small_nibble [OF True] show ?thesis
      by (simp add: buf2options_len_def rfc7252_option_header_def dn)
  next
    case False
    then have "rfc7252_nibble (unat l) = 13" "rfc7252_ext (unat l) = [l - 13]"
      using u8_nat_less [of l]
      by (simp_all add: rfc7252_nibble_def rfc7252_ext_def of_nat_diff)
    then show ?thesis by (simp add: buf2options_len_def rfc7252_option_header_def dn)
  qed
  ultimately show ?case
    using nibbles [OF rfc7252_nibble_less rfc7252_nibble_less, of "unat d" "unat l"] dn
    by (simp add: rfc7252_option_header_def)
next
  case (2 d l)
  then show ?case by (rule rfc7252_option_header_length)
next
  case (3 d l)
  then show ?case by (simp add: word_less_nat_alt)
qed

section \<open>A packet for the witnesses\<close>

text \<open>A GET request with a one-byte token, Uri-Host ``a'', Uri-Path ``tv1'' and two bytes of
  payload, and an empty structure to parse into.\<close>

definition example_packet :: o_coap_packet where
  "example_packet = \<lparr>
     header = \<lparr>hdr_ver = 1, hdr_type = 0, hdr_TKL = 1, hdr_code = 1, hdr_MID = 0x5d1f\<rparr>,
     token = Some [0xAB], options_cnt = 2,
     options = \<lparr>opt_delta = 3, opt_len = 1, opt_value = Some [0x61], opt_number = 3\<rparr> #
       \<lparr>opt_delta = 8, opt_len = 3, opt_value = Some [0x74, 0x76, 0x31], opt_number = 11\<rparr> #
       replicate 18 \<lparr>opt_delta = 0, opt_len = 0, opt_value = None, opt_number = 0\<rparr>,
     payload_len = 2, payload = Some [0x01, 0x02]\<rparr>"

definition blank_packet :: o_coap_packet where
  "blank_packet = \<lparr>
     header = \<lparr>hdr_ver = 0, hdr_type = 0, hdr_TKL = 0, hdr_code = 0, hdr_MID = 0\<rparr>,
     token = None, options_cnt = 0,
     options = replicate 20 \<lparr>opt_delta = 0, opt_len = 0, opt_value = None, opt_number = 0\<rparr>,
     payload_len = 0, payload = None\<rparr>"

lemma example_packet_wf: "pkt_wf example_packet" "options_room (pkt_options example_packet) = 14"
  "length (coap_string example_packet) = 14" "length (options blank_packet) = MAX_OPTION_COUNT"
  by code_simp+

lemma example_packet_codable: "pkt_codable example_packet"
proof -
  have "\<forall>opt \<in> set (pkt_options example_packet). opt_wf opt \<and> opt_delta opt < 243 \<and> opt_len opt < 13"
    "header_wf (header example_packet)" "length (options example_packet) = MAX_OPTION_COUNT"
    "numbered 0 (pkt_options example_packet)" "0xFF \<notin> set (options_string (pkt_options example_packet))"
    "payload_len example_packet \<noteq> 0"
    by code_simp+
  then show ?thesis
    by (simp add: pkt_codable_def coap_codec.codable_def example_packet_wf)
qed

section \<open>Properties\<close>

text \<open>C40: An option header written by the serialiser is the one RFC 7252 prescribes exactly when
  delta and length are below 13.  From 13 on, the code adds 13 or 269 to the value where the
  RFC subtracts it.\<close>

theorem option_header_is_rfc7252:
  "option_header d l = Ok (rfc7252_option_header (unat d) (unat l)) \<longleftrightarrow> d < 13 \<and> l < 13"
  by (rule option_header_rfc7252_iff)

text \<open>C38: \<open>coap2buf\<close> writes header, token, options, payload marker and payload one after the
  other to the front of the output buffer, leaves the rest of the buffer alone and returns
  the number of bytes written, for every packet that fits the buffer and whose options fit
  the reserve of 128 bytes.\<close>

theorem coap2buf_spec:
  assumes "pkt_wf pkt" and "options_room (pkt_options pkt) \<le> 128"
    and "length (coap_string pkt) \<le> unat out_len" and "unat out_len \<le> length out"
  shows "coap2buf pkt out out_len =
    Ok (coap_string pkt @ drop (length (coap_string pkt)) out, of_nat (length (coap_string pkt)))"
  using assms by (rule coap2buf_writes)

theorem coap2buf_spec_witness:
  "coap2buf example_packet (replicate 20 7) 20 =
    Ok ([0x41, 0x01, 0x5d, 0x1f, 0xAB, 0x31, 0x61, 0x83, 0x74, 0x76, 0x31, 0xFF, 1, 2] @ replicate 6 7, 14)"
proof -
  have "coap2buf example_packet (replicate 20 7) 20 =
    Ok (coap_string example_packet @ drop (length (coap_string example_packet)) (replicate 20 7),
        of_nat (length (coap_string example_packet)))"
    by (rule coap2buf_spec) (simp_all add: example_packet_wf)
  moreover have "coap_string example_packet =
      [0x41, 0x01, 0x5d, 0x1f, 0xAB, 0x31, 0x61, 0x83, 0x74, 0x76, 0x31, 0xFF, 1, 2]" by code_simp
  ultimately show ?thesis by simp
qed

text \<open>C7: Round trip of packets: what \<open>coap2buf\<close> writes for a packet, \<open>buf2coap\<close> reads back
  to a packet with the same header, token, options and payload, whatever the output
  structure held before.  The packet has valid header fields, deltas below 243 and option
  lengths below 13, no byte 0xFF inside its options, and something behind the token.\<close>

theorem coap_packet_roundtrip:
  assumes "pkt_codable pkt" and "length (options out0) = MAX_OPTION_COUNT"
    and "options_room (pkt_options pkt) \<le> 128"
    and "length (coap_string pkt) \<le> unat out_len" and "unat out_len \<le> length out"
  shows "\<exists>buf n pkt'. coap2buf pkt out out_len = Ok (buf, n) \<and>
    buf2coap out0 (take (unat n) buf) = Ok pkt' \<and> pkt_content pkt' = pkt_content pkt"
proof -
  have small: "length (coap_string pkt) < 2 ^ 32" and wf: "pkt_wf pkt"
    using assms(1) by (simp_all add: pkt_codable_def)
  obtain pkt' where "buf2coap out0 (coap_string pkt) = Ok pkt'" "pkt_content pkt' = pkt_content pkt"
    using buf2coap_reads_content [OF assms(1,2)] by blast
  then show ?thesis
    using coap2buf_writes [OF wf assms(3-5)] unat_of_nat_u32 [OF small] by simp
qed

theorem coap_packet_roundtrip_witness:
  "\<exists>buf n pkt'. coap2buf example_packet (replicate 20 7) 20 = Ok (buf, n) \<and>
    buf2coap blank_packet (take (unat n) buf) = Ok pkt' \<and> pkt_content pkt' = pkt_content example_packet"
  by (rule coap_packet_roundtrip) (simp_all add: example_packet_codable example_packet_wf)

text \<open>C39: \<open>buf2options\<close> reads any sequence of options encoded as RFC 7252 says, provided every
  delta is below 13: number of options, deltas, lengths, numbers and values are those
  encoded.\<close>

theorem buf2options_reads_rfc7252:
  assumes "\<forall>opt \<in> set opts. opt_wf opt \<and> opt_delta opt < 13" and "numbered 0 opts"
    and "s = concat (map (\<lambda>opt. rfc7252_option_header (unat (opt_delta opt)) (unat (opt_len opt))
                              @ opt_bytes opt) opts)"
    and "length s < 2 ^ 16" and "length opts \<le> length arr" and "length opts < 256"
  shows "\<exists>arr'. buf2options (Some (s @ rest)) (of_nat (length s)) arr = Ok (arr', of_nat (length opts))
    \<and> map opt_content (take (length opts) arr') = map opt_content opts"
proof -
  have "s = option_string (\<lambda>d l. rfc7252_option_header (unat d) (unat l)) opts"
    by (simp add: assms(3) option_string_def)
  moreover have "\<forall>opt \<in> set opts. rfc_codec.codable opt"
    using assms(1) by (simp add: rfc_codec.codable_def)
  ultimately show ?thesis
    using rfc_codec.parse_options [of opts 0 0 0 arr rest] assms(2,4-6)
    by (auto simp: buf2options_def)
qed

theorem buf2options_reads_rfc7252_witness:
  "\<exists>arr'. buf2options (Some ([0x31, 0x61, 0x83, 0x74, 0x76, 0x31] @ [0xFF])) 6 (options blank_packet)
       = Ok (arr', 2)
    \<and> map opt_content (take 2 arr') = [(3, 1, 3, [0x61]), (8, 3, 11, [0x74, 0x76, 0x31])]"
proof -
  let ?opts = "pkt_options example_packet" and ?s = "[0x31, 0x61, 0x83, 0x74, 0x76, 0x31] :: bytes"
  have h: "?s = concat (map (\<lambda>opt. rfc7252_option_header (unat (opt_delta opt)) (unat (opt_len opt))
      @ opt_bytes opt) ?opts)"
    "\<forall>opt \<in> set ?opts. opt_wf opt \<and> opt_delta opt < 13" "numbered 0 ?opts" "length ?opts = 2"
    "map opt_content ?opts = [(3, 1, 3, [0x61]), (8, 3, 11, [0x74, 0x76, 0x31])]"
    by code_simp+
  have "length ?s < 2 ^ 16" "length ?opts \<le> length (options blank_packet)" "length ?opts < 256"
    by (simp_all add: h(4) blank_packet_def)
  from buf2options_reads_rfc7252 [OF h(2,3,1) this, of "[0xFF]"] show ?thesis
    unfolding h(4,5) by simp
qed

text \<open>A delta from 13 to 268, encoded with one extension byte as RFC 7252 says, is read by
  \<open>buf2options\<close> as the delta less 26, modulo 256; so it is never read as what was sent.\<close>

lemma buf2options_misreads_rfc7252:
  assumes "13 \<le> d" and "d < 269"
  shows "buf2options_delta (rfc7252_nibble d) hl (Some (rfc7252_ext d @ rest)) =
    Ok (of_nat d - 26, hl + 1, Some rest)"
  using assms
  by (simp add: rfc7252_nibble_def rfc7252_ext_def buf2options_delta_def of_nat_diff)

lemma buf2options_misreads_rfc7252_example:
  "buf2options_delta (rfc7252_nibble 15) 1 (Some (rfc7252_ext 15 @ [0x61])) = Ok (245, 2, Some [0x61])"
  using buf2options_misreads_rfc7252 [of 15 1 "[0x61]"] by simp

end
