(* ===== verification/Oscore_Options.thy ===== *)
theory Oscore_Options
  imports Oscore_Unprotect Coap_Correct
begin

text \<open>
  The options on their way through OSCORE: the parser of the protected options undoes the
  serialiser, the division into protected and unprotected options, the place of the OSCORE
  option, and the sorted merge after decryption.
\<close>

section \<open>The protected options\<close>

lemma len_ext_value:
  "ucast (((push_bit 8 (ucast (ucast (drop_bit 8 ((ucast l + 269) AND 0xFF00 :: u16)) :: u8) :: u32)) OR
     ucast (ucast ((ucast l + 269) AND 0x00FF :: u16) :: u8)) - 269) = (l :: u8)"
  unfolding two_bytes by (simp add: ucast_u16_u32_u8 ucast_minus_u8 ucast_plus_u8)

lemma delta_ext_value:
  "ucast (((push_bit 8 (ucast (ucast (drop_bit 8 ((d + 269) AND 0xFF00 :: u16)) :: u8) :: u32)) OR
     ucast (ucast ((d + 269) AND 0x00FF :: u16) :: u8)) - 269) = (ucast d :: u8)"
  unfolding two_bytes by (simp add: ucast_u16_u32_u8 ucast_minus_u8 ucast_plus_u8)

lemma oscore_options_delta_reads:
  "oscore_options_delta (delta_nib d) hl (Some (delta_ext d @ rest))
   = Ok (ucast d, hl + of_nat (length (delta_ext d)), Some rest)"
proof (cases "d < 13")
  case True
  then have "ucast d < (13 :: u8)"
    by (simp add: word_less_nat_alt unsigned_ucast_eq take_bit_nat_eq_self unsigned_take_bit_eq)
  then have "ucast d \<noteq> (13 :: u8)" "ucast d \<noteq> (14 :: u8)" "ucast d \<noteq> (15 :: u8)"
    by (fastforce simp: word_less_nat_alt)+
  with True show ?thesis by (simp add: oscore_options_delta_def delta_nib_def delta_ext_def)
next
  case False
  then show ?thesis
    using delta_ext_value [of d]
    by (simp add: oscore_options_delta_def delta_nib_def delta_ext_def numeral_2_eq_2)
qed

lemma oscore_options_len_reads:
  "oscore_options_len (len_nib l) hl (Some (len_ext l @ rest))
   = Ok (l, hl + of_nat (length (len_ext l)), Some rest)"
proof (cases "l < 13")
  case True
  then have "l \<noteq> 13" "l \<noteq> 14" "l \<noteq> 15" by (fastforce simp: word_less_nat_alt)+
  with True show ?thesis by (simp add: oscore_options_len_def len_nib_def len_ext_def)
next
  case False
  then show ?thesis
    using len_ext_value [of l]
    by (simp add: oscore_options_len_def len_nib_def len_ext_def numeral_2_eq_2)
qed

text \<open>This parser reads back every length, and every delta below 256.\<close>

interpretation oscore_codec:
  option_codec option_header_bytes oscore_options_delta oscore_options_len "\<lambda>d l. d < 256"
proof (unfold_locales, goal_cases)
  case (1 d l rest)
  then show ?case
    using header_nibbles [of d l]
    by (simp add: option_header_bytes_def oscore_options_delta_reads oscore_options_len_reads
        ac_simps)
next
  case (2 d l)
  then show ?case by (rule option_header_bytes_length)
next
  case (3 d l)
  then show ?case .
qed

end
