(* ===== verification/Oscore_Nonce.thy ===== *)
theory Oscore_Nonce
  imports Oscore_Context
begin

text \<open>
  What \<^verbatim>\<open>nonce.c\<close>, \<^verbatim>\<open>aad.c\<close> and \<open>sender_seq_num2piv\<close> compute: the nonce of RFC 8613 as a
  function of the Partial IV, the Partial IV of a sequence number, and the additional
  authenticated data.
\<close>

section \<open>The nonce of RFC 8613\<close>

text \<open>RFC 8613, section 5.2: the length of the ID, the ID and the Partial IV left-padded with
  zeros, combined with the Common IV by exclusive or.\<close>

definition left_pad :: "nat \<Rightarrow> bytes \<Rightarrow> bytes" where
  "left_pad n bs = replicate (n - length bs) 0 @ bs"

definition rfc8613_nonce :: "bytes \<Rightarrow> bytes \<Rightarrow> bytes \<Rightarrow> bytes" where
  "rfc8613_nonce id_piv piv common_iv =
     map2 (XOR) (of_nat (length id_piv) # left_pad 7 id_piv @ left_pad 5 piv) common_iv"

lemma left_pad_length [simp]: "length bs \<le> n \<Longrightarrow> length (left_pad n bs) = n"
  by (simp add: left_pad_def)

lemma xor_into_fold:
  assumes "length done + length iv \<le> length done + length rest"
  shows "foldR (\<lambda>b (n, i). TRY (arr_get n i) (\<lambda>x. TRY (arr_set n i (x XOR b)) (\<lambda>n'. Ok (n', Suc i))))
      iv (done @ rest, length done) =
    Ok (done @ map2 (XOR) (take (length iv) rest) iv @ drop (length iv) rest, length done + length iv)"
  using assms
proof (induction iv arbitrary: "done" rest)
  case Nil
  then show ?case by simp
next
  case (Cons b iv)
  then obtain x rest' where rest: "rest = x # rest'" by (cases rest) auto
  with Cons show ?case
    using Cons.IH [of "done @ [x XOR b]" rest'] by (simp add: nth_append list_update_append)
qed

lemma xor_into_eq:
  "length iv \<le> length nonce \<Longrightarrow>
   xor_into nonce iv = Ok (map2 (XOR) (take (length iv) nonce) iv @ drop (length iv) nonce)"
  using xor_into_fold [of "[]" iv nonce] by (simp add: xor_into_def for_arr_foldR)

lemma memcpy_pad:
  assumes "length bs \<le> n" and "n < 2 ^ 32"
  shows "memcpy_s (replicate n 0) (int n - int (length bs)) (of_nat (length bs)) (Some bs)
      (of_nat (length bs)) = Ok (left_pad n bs)"
  using assms by (subst memcpy_s_in) (auto simp: left_pad_def nat_diff_distrib)

text \<open>The nonce does not depend on what the nonce buffer held before.\<close>

lemma create_nonce_eq:
  assumes "length id_piv \<le> 7" and "length piv \<le> 5" and "length common_iv = 13" and "length nonce = 13"
  shows "create_nonce id_piv piv common_iv nonce = Ok (rfc8613_nonce id_piv piv common_iv)"
proof -
  let ?i = "left_pad 7 id_piv" and ?p = "left_pad 5 piv" and ?s = "of_nat (length id_piv) :: u8"
  have m1: "memcpy_s (nonce[0 := ?s]) 1 7 (Some ?i) 7 = Ok (?s # ?i @ drop 8 nonce)"
    using assms by (cases nonce) (auto simp: mem_simps)
  have m2: "memcpy_s (?s # ?i @ drop 8 nonce) 8 5 (Some ?p) 5 = Ok (?s # ?i @ ?p)"
    using assms by (subst memcpy_s_in) auto
  have "xor_into (?s # ?i @ ?p) common_iv = Ok (rfc8613_nonce id_piv piv common_iv)"
    using assms by (subst xor_into_eq) (auto simp: rfc8613_nonce_def)
  moreover have "memcpy_s (replicate 5 0) (5 - int (length piv)) (of_nat (length piv)) (Some piv)
      (of_nat (length piv)) = Ok ?p" using memcpy_pad [of piv 5] assms by simp
  moreover have "memcpy_s (replicate 7 0) (7 - int (length id_piv)) (of_nat (length id_piv)) (Some id_piv)
      (of_nat (length id_piv)) = Ok ?i" using memcpy_pad [of id_piv 7] assms by simp
  ultimately show ?thesis
    using m1 m2 assms by (simp add: create_nonce_def Let_def)
qed

lemma create_nonce_too_long:
  assumes "7 < length id_piv \<or> 5 < length piv" and "length id_piv < 2 ^ 32" and "length piv < 2 ^ 32"
  shows "create_nonce id_piv piv common_iv nonce = Undef"
proof -
  have u: "memcpy_s (replicate n 0) (int n - int (length bs)) (of_nat (length bs)) (Some bs)
      (of_nat (length bs)) = Undef" if "n < length bs" "length bs < 2 ^ 32" for n and bs :: bytes
    using that by (simp add: memcpy_s_def write_mem_def)
  show ?thesis
  proof (cases "5 < length piv")
    case True
    with u [of 5 piv] assms show ?thesis by (simp add: create_nonce_def)
  next
    case False
    with u [of 7 id_piv] memcpy_pad [of piv 5] assms show ?thesis
      by (simp add: create_nonce_def Let_def)
  qed
qed

lemma map2_xor_cancel:
  fixes xs ys zs :: bytes
  assumes "length xs = length zs" "length ys = length zs" and "map2 (XOR) xs zs = map2 (XOR) ys zs"
  shows "xs = ys"
proof -
  have twice: "map2 (XOR) (map2 (XOR) ws zs) zs = ws" if "length ws = length zs" for ws :: bytes
    using that by (induction ws zs rule: list_induct2) (simp_all add: xor.assoc)
  from arg_cong [OF assms(3), of "\<lambda>ws. map2 (XOR) ws zs"] show ?thesis
    unfolding twice [OF assms(1)] twice [OF assms(2)] .
qed

lemma left_pad_id:
  "length a \<le> 7 \<Longrightarrow> length b \<le> 7 \<Longrightarrow> length a = length b \<Longrightarrow> left_pad 7 a = left_pad 7 b \<Longrightarrow> a = b"
  by (simp add: left_pad_def)

text \<open>Under one Common IV, different IDs or differently padded Partial IVs give different
  nonces.\<close>

lemma rfc8613_nonce_inject:
  assumes "rfc8613_nonce a p iv = rfc8613_nonce b q iv" and "length iv = 13"
    and "length a \<le> 7" "length b \<le> 7" "length p \<le> 5" "length q \<le> 5"
  shows "a = b \<and> left_pad 5 p = left_pad 5 q"
proof -
  have "(of_nat (length a) :: u8) # left_pad 7 a @ left_pad 5 p
      = of_nat (length b) # left_pad 7 b @ left_pad 5 q"
    by (rule map2_xor_cancel [OF _ _ assms(1) [unfolded rfc8613_nonce_def]])
      (use assms(2-) in simp_all)
  then have "(of_nat (length a) :: u8) = of_nat (length b)" "left_pad 7 a @ left_pad 5 p = left_pad 7 b @ left_pad 5 q"
    by auto
  moreover have "unat (of_nat (length a) :: u8) = length a" "unat (of_nat (length b) :: u8) = length b"
    using assms(3,4) by simp_all
  with calculation(1) have "length a = length b" by metis
  ultimately show ?thesis using assms(3-6) left_pad_id [of a b] by simp
qed

section \<open>The Partial IV of a sequence number\<close>

text \<open>The bytes of the number without the leading zeros, the least significant first.\<close>

definition trim_le :: "bytes \<Rightarrow> bytes" where
  "trim_le bs = rev (dropWhile (\<lambda>b. b = 0) (rev bs))"

lemma trim_le_simps [simp]:
  "trim_le [] = []"
  "trim_le (bs @ [b]) = (if b = 0 then trim_le bs else bs @ [b])"
  by (simp_all add: trim_le_def)

lemma trim_le_Cons: "trim_le (b # bs) = (if b = 0 \<and> trim_le bs = [] then [] else b # trim_le bs)"
  using trim_le_simps(2) [of "[]" b]
  by (induction bs rule: rev_induct) (auto simp flip: append_Cons)

lemma sender_seq_num2piv_loop_eq:
  "n \<le> length p \<Longrightarrow> n < 2 ^ 32 \<Longrightarrow> sender_seq_num2piv_loop n p =
    (let q = trim_le (take n p) in
     if q = [] then Ok [0] else if length q \<le> 5 then Ok q else Fail buffer_to_small)"
proof (induction n)
  case 0
  then show ?case by simp
next
  case (Suc n)
  then have t: "take (Suc n) p = take n p @ [p ! n]" by (simp add: take_Suc_conv_app_nth)
  show ?case
  proof (cases "p ! n = 0")
    case True
    with Suc t show ?thesis by simp
  next
    case False
    then have "0 < p ! n" by (simp add: word_gt_0)
    moreover have "copy_array 5 \<lparr>ba_len = of_nat (Suc n), ba_ptr = Some p\<rparr>
        = (if Suc n \<le> 5 then Ok (take (Suc n) p) else Fail buffer_to_small)"
      using Suc.prems unat_of_nat_u32 [OF Suc.prems(2)]
      by (auto simp: copy_array_def check_buffer_size_def word_less_nat_alt
          simp del: unat_of_nat_u32 of_nat_Suc)
    ultimately show ?thesis using False Suc.prems t by (simp add: Let_def del: of_nat_Suc)
  qed
qed

lemma sender_seq_num2piv_eq:
  "sender_seq_num2piv ssn =
    (let q = trim_le (u64_le_bytes ssn) in
     if q = [] then Ok [0] else if length q \<le> 5 then Ok q else Fail buffer_to_small)"
  using sender_seq_num2piv_loop_eq [of 8 "u64_le_bytes ssn"]
  by (simp add: sender_seq_num2piv_def u64_le_bytes_def)

lemma trim_le_length_iff: "length (trim_le bs) \<le> n \<longleftrightarrow> (\<forall>b \<in> set (drop n bs). b = 0)"
proof (induction bs rule: rev_induct)
  case Nil
  then show ?case by simp
next
  case (snoc b bs)
  then show ?case by (cases "n \<le> length bs") (auto simp: not_le)
qed

lemma u64_bits_below: "unat (x :: u64) < 2 ^ 40 \<longleftrightarrow> (\<forall>n. 40 \<le> n \<longrightarrow> \<not> bit x n)"
proof
  assume "unat x < 2 ^ 40"
  then show "\<forall>n. 40 \<le> n \<longrightarrow> \<not> bit x n" using unat_less_bits [of x 40] by fastforce
next
  assume "\<forall>n. 40 \<le> n \<longrightarrow> \<not> bit x n"
  then have "take_bit 40 x = x" by (intro bit_word_eqI) (auto simp: bit_simps not_le)
  then have "take_bit 40 (unat x) = unat x" by (metis unsigned_take_bit_eq)
  then show "unat x < 2 ^ 40" by (metis take_bit_nat_less_exp)
qed

lemma u64_bytes_zero_from:
  "(\<forall>b \<in> set (drop k (u64_le_bytes x)). b = 0) \<longleftrightarrow> (\<forall>n. 8 * k \<le> n \<longrightarrow> \<not> bit x n)"
proof -
  have bytes: "u64_le_bytes x = map (\<lambda>i. ucast (drop_bit (8 * i) x)) [0..<8]"
    by (simp add: u64_le_bytes_def upt_rec)
  have z: "(ucast (drop_bit m x) :: u8) = 0 \<longleftrightarrow> (\<forall>n<8. \<not> bit x (m + n))" for m
    by (auto simp: bit_eq_iff bit_simps)
  have "(\<forall>b \<in> set (drop k (u64_le_bytes x)). b = 0) \<longleftrightarrow>
      (\<forall>i. k \<le> i \<and> i < 8 \<longrightarrow> (\<forall>n<8. \<not> bit x (8 * i + n)))"
    unfolding bytes drop_map by (auto simp: z)
  also have "\<dots> \<longleftrightarrow> (\<forall>n. 8 * k \<le> n \<longrightarrow> \<not> bit x n)" (is "?l \<longleftrightarrow> ?r")
  proof
    assume l: ?l
    show ?r
    proof (intro allI impI)
      fix n :: nat assume n: "8 * k \<le> n"
      show "\<not> bit x n"
      proof (cases "n < 64")
        case True
        then have "k \<le> n div 8 \<and> n div 8 < 8" "n mod 8 < 8" using n by auto
        with l have "\<not> bit x (8 * (n div 8) + n mod 8)" by blast
        then show ?thesis by simp
      qed (auto dest: bit_imp_le_length)
    qed
  qed simp
  finally show ?thesis .
qed

lemma sender_seq_num2piv_cases:
  "sender_seq_num2piv ssn =
    (if ssn = 0 then Ok [0] else if unat ssn < 2 ^ 40 then Ok (trim_le (u64_le_bytes ssn))
     else Fail buffer_to_small)"
proof -
  let ?q = "trim_le (u64_le_bytes ssn)"
  have "(\<forall>n. \<not> bit ssn n) \<longleftrightarrow> ssn = 0" by (auto intro: bit_eqI)
  then have "?q = [] \<longleftrightarrow> ssn = 0"
    using trim_le_length_iff [of "u64_le_bytes ssn" 0] u64_bytes_zero_from [of 0 ssn] by simp
  moreover have "length ?q \<le> 5 \<longleftrightarrow> unat ssn < 2 ^ 40"
    unfolding trim_le_length_iff u64_bytes_zero_from u64_bits_below by simp
  ultimately show ?thesis by (simp add: sender_seq_num2piv_eq Let_def)
qed

lemma u64_le_bytes_256:
  assumes "unat x < 2 ^ 56"
  shows "u64_le_bytes (256 * x) = 0 # take 7 (u64_le_bytes x)"
proof -
  have "256 * x = push_bit 8 x" by (simp add: push_bit_eq_mult)
  then show ?thesis
    by (simp add: u64_le_bytes_def) (intro conjI bit_word_eqI; simp add: bit_simps)
qed


text \<open>The Partial IV of a multiple of 256 has a zero byte in front, which left-padding hides.\<close>

lemma nonce_of_multiple:
  assumes "ssn \<noteq> 0" and "unat ssn < 2 ^ 32"
  shows "\<exists>p. sender_seq_num2piv ssn = Ok p \<and> sender_seq_num2piv (256 * ssn) = Ok (0 # p) \<and>
    length p \<le> 4 \<and> left_pad 5 (0 # p) = left_pad 5 p"
proof -
  have small: "unat ssn < 2 ^ 40" "unat ssn < 2 ^ 56" using assms(2) by simp_all
  have m: "unat (256 * ssn) = 256 * unat ssn"
    using small(2) by (simp add: unat_word_ariths)
  with assms small have m0: "256 * ssn \<noteq> 0" "unat (256 * ssn) < 2 ^ 40"
    by (auto simp flip: unat_eq_zero)
  let ?b = "u64_le_bytes ssn" and ?p = "trim_le (u64_le_bytes ssn)"
  have len: "length ?b = 8" by (simp add: u64_le_bytes_def)
  have "\<not> bit ssn n" if "32 \<le> n" for n
    using unat_less_bits [of ssn 32 n] assms(2) that by auto
  then have four: "length ?p \<le> 4" and seven: "\<forall>b \<in> set (drop 7 ?b). b = 0"
    unfolding trim_le_length_iff u64_bytes_zero_from by simp_all
  have "?b = take 7 ?b @ [?b ! 7]" using len take_Suc_conv_app_nth [of 7 ?b] by simp
  moreover have "?b ! 7 = 0" using seven len nth_mem [of 0 "drop 7 ?b"] by simp
  ultimately have "?p = trim_le (take 7 ?b)" by (metis trim_le_simps(2))
  moreover have "?p \<noteq> []"
    using sender_seq_num2piv_eq [of ssn] sender_seq_num2piv_cases [of ssn] assms
    by (auto simp: Let_def split: if_splits)
  ultimately have "trim_le (u64_le_bytes (256 * ssn)) = 0 # ?p"
    using u64_le_bytes_256 [OF small(2)] by (simp add: trim_le_Cons)
  moreover have "left_pad 5 (0 # ?p) = left_pad 5 ?p"
  proof -
    have "5 - length ?p = Suc (4 - length ?p)" using four by simp
    then show ?thesis by (simp add: left_pad_def replicate_append_same [symmetric])
  qed
  ultimately show ?thesis
    using assms(1) small m0 four by (simp add: sender_seq_num2piv_cases)
qed


section \<open>The additional authenticated data\<close>

text \<open>RFC 8613, section 5.4, with algorithm 10 and no class I options:
  \<^verbatim>\<open>[1, [10], request_kid, request_piv, h'']\<close>.\<close>

definition rfc8613_aad :: "bytes \<Rightarrow> bytes \<Rightarrow> bytes" where
  "rfc8613_aad kid piv = [0x85, 0x01, 0x81, 0x0A] @ cbor_bstr kid @ cbor_bstr piv @ [0x40]"

lemma cbor_bstr_small [simp]: "length bs < 24 \<Longrightarrow> length (cbor_bstr bs) = Suc (length bs)"
  by (simp add: cbor_bstr_def cbor_head_def)

lemma create_aad_eq:
  assumes Z: "zcbor_canonical Z" and opts: "unat opt_num \<le> length opts"
    and small: "length kid < 24" "length piv < 24"
  shows "fst (create_aad Z opts opt_num OSCORE_AES_CCM_16_64_128 kid piv out) =
      (if 7 + length kid + length piv \<le> length out then Ok ()
       else Fail unexpected_result_from_ext_lib)"
    and "7 + length kid + length piv \<le> length out \<Longrightarrow>
      snd (create_aad Z opts opt_num OSCORE_AES_CCM_16_64_128 kid piv out) = rfc8613_aad kid piv"
proof -
  let ?a = "\<lparr>aad_array_oscore_version = 1, aad_array_algorithms_alg_aead = alg_aead_int 10,
      aad_array_request_kid = kid, aad_array_request_piv = piv, aad_array_options = []\<rparr>"
  have cbor: "aad_array_cbor ?a = rfc8613_aad kid piv"
    by (simp add: aad_array_cbor_def rfc8613_aad_def alg_cbor_def cbor_array_def cbor_uint_def
        cbor_int_def cbor_head_def cbor_bstr_def)
  have len: "length (rfc8613_aad kid piv) = 7 + length kid + length piv"
    using small by (simp add: rfc8613_aad_def)
  have enc: "cbor_encode_aad_array Z cap ?a =
      (if 7 + length kid + length piv \<le> cap then Some (rfc8613_aad kid piv) else None)" for cap
    using cbor_encode_aad_array_eq [OF Z, of ?a cap] small unfolding cbor len
    by (simp add: alg_small_def)
  have run: "create_aad Z opts opt_num OSCORE_AES_CCM_16_64_128 kid piv out =
      (case cbor_encode_aad_array Z (length out) ?a of Some b \<Rightarrow> (Ok (), b)
       | None \<Rightarrow> (let w = cbor_written Z 5 (length out) 1 (encode_aad_array Z ?a)
                  in (Fail unexpected_result_from_ext_lib, w @ drop (length w) out)))"
    using encoded_option_len_class_I [OF opts] encode_options_class_I [OF opts, of "[]" 0]
    by (simp add: create_aad_def TRYS_liftS Let_def)
  show "fst (create_aad Z opts opt_num OSCORE_AES_CCM_16_64_128 kid piv out) =
      (if 7 + length kid + length piv \<le> length out then Ok () else Fail unexpected_result_from_ext_lib)"
    unfolding run enc by (simp add: Let_def)
  show "7 + length kid + length piv \<le> length out \<Longrightarrow>
      snd (create_aad Z opts opt_num OSCORE_AES_CCM_16_64_128 kid piv out) = rfc8613_aad kid piv"
    unfolding run enc by simp
qed

section \<open>Properties\<close>

text \<open>C21: \<open>create_nonce\<close> computes the nonce of RFC 8613, section 5.2, from the bytes of the
  Partial IV, whatever the nonce buffer held before; for an ID of more than 7 or a Partial IV
  of more than 5 bytes it writes in front of its local buffers.\<close>

theorem create_nonce_is_rfc8613:
  assumes "length common_iv = COMMON_IV_LEN" and "length nonce = NONCE_LEN"
    and "length id_piv < 2 ^ 32" and "length piv < 2 ^ 32"
  shows "create_nonce id_piv piv common_iv nonce =
    (if length id_piv \<le> MAX_KID_LEN \<and> length piv \<le> MAX_PIV_LEN
     then Ok (rfc8613_nonce id_piv piv common_iv) else Undef)"
  using assms create_nonce_eq [of id_piv piv common_iv nonce]
    create_nonce_too_long [of id_piv piv common_iv nonce]
  by auto

theorem create_nonce_is_rfc8613_witness:
  "create_nonce [0x01] [0x14] [0x46, 0x22, 0xd4, 0xdd, 0x6d, 0x94, 0x41, 0x68, 0xee, 0xfb, 0x54, 0x98, 0x7c]
     (replicate 13 0)
   = Ok [0x47, 0x22, 0xd4, 0xdd, 0x6d, 0x94, 0x41, 0x69, 0xee, 0xfb, 0x54, 0x98, 0x68]"
  by (subst create_nonce_is_rfc8613)
    (simp, simp, simp, simp, code_simp)

text \<open>C19: Under one Common IV, \<open>create_nonce\<close> returns the same nonce for two pairs of ID and
  Partial IV exactly when the IDs are equal and the Partial IVs are equal after left-padding
  to five bytes.\<close>

theorem create_nonce_injective:
  assumes "length common_iv = COMMON_IV_LEN" and "length nonce = NONCE_LEN" "length nonce' = NONCE_LEN"
    and "length a \<le> MAX_KID_LEN" "length b \<le> MAX_KID_LEN"
    and "length p \<le> MAX_PIV_LEN" "length q \<le> MAX_PIV_LEN"
  shows "create_nonce a p common_iv nonce = create_nonce b q common_iv nonce' \<longleftrightarrow>
    a = b \<and> left_pad MAX_PIV_LEN p = left_pad MAX_PIV_LEN q"
proof -
  have run: "create_nonce a p common_iv nonce = Ok (rfc8613_nonce a p common_iv)"
    "create_nonce b q common_iv nonce' = Ok (rfc8613_nonce b q common_iv)"
    using assms by (simp_all add: create_nonce_eq)
  moreover have "rfc8613_nonce b p common_iv = rfc8613_nonce b q common_iv"
    if "left_pad 5 p = left_pad 5 q" using that by (simp add: rfc8613_nonce_def)
  moreover have "a = b \<and> left_pad 5 p = left_pad 5 q"
    if "rfc8613_nonce a p common_iv = rfc8613_nonce b q common_iv"
    by (rule rfc8613_nonce_inject [OF that]) (use assms in simp_all)
  ultimately show ?thesis unfolding run MAX_PIV_LEN_def res.inject by blast
qed

theorem create_nonce_injective_witness:
  "create_nonce [1] [1] (replicate 13 0) (replicate 13 0) \<noteq>
   create_nonce [1] [2] (replicate 13 0) (replicate 13 7)"
  using create_nonce_injective [of "replicate 13 0" "replicate 13 0" "replicate 13 7" "[1]" "[1]" "[1]" "[2]"]
  by (simp add: left_pad_def)

text \<open>C37: \<open>sender_seq_num2piv\<close> returns the bytes of the sequence number, least significant first,
  without its leading zeros (one zero byte for 0), for every number below 2 to the 40, and
  fails with \<open>buffer_to_small\<close> for all others.\<close>

theorem sender_seq_num2piv_spec:
  "sender_seq_num2piv ssn =
    (if ssn = 0 then Ok [0] else if unat ssn < 2 ^ 40 then Ok (trim_le (u64_le_bytes ssn))
     else Fail buffer_to_small)"
  by (rule sender_seq_num2piv_cases)

text \<open>C20: The byte order makes nonces collide: the sequence numbers \<open>ssn\<close> and \<open>256 * ssn\<close>
  have Partial IVs for which \<open>create_nonce\<close> returns the same nonce, whatever ID and Common
  IV.\<close>

theorem nonce_reuse:
  assumes "ssn \<noteq> 0" and "unat ssn < 2 ^ 32" and "length common_iv = COMMON_IV_LEN"
    and "length nonce = NONCE_LEN" and "length kid \<le> MAX_KID_LEN"
  shows "256 * ssn \<noteq> ssn \<and> (\<exists>p q. sender_seq_num2piv ssn = Ok p \<and> sender_seq_num2piv (256 * ssn) = Ok q \<and>
    create_nonce kid p common_iv nonce = create_nonce kid q common_iv nonce)"
proof -
  obtain p where p: "sender_seq_num2piv ssn = Ok p" "sender_seq_num2piv (256 * ssn) = Ok (0 # p)"
    "length p \<le> 4" "left_pad 5 (0 # p) = left_pad 5 p"
    using nonce_of_multiple [OF assms(1,2)] by blast
  then have "create_nonce kid p common_iv nonce = create_nonce kid (0 # p) common_iv nonce"
    using assms by (simp add: create_nonce_eq rfc8613_nonce_def)
  moreover have "256 * ssn \<noteq> ssn"
  proof
    assume "256 * ssn = ssn"
    then have "sender_seq_num2piv (256 * ssn) = sender_seq_num2piv ssn" by (rule arg_cong)
    with p(1,2) show False by simp
  qed
  ultimately show ?thesis using p by blast
qed

theorem nonce_reuse_witness:
  "256 * 1 \<noteq> (1 :: u64) \<and> (\<exists>p q. sender_seq_num2piv 1 = Ok p \<and> sender_seq_num2piv (256 * 1) = Ok q \<and>
    create_nonce [1] p (replicate 13 0) (replicate 13 0) = create_nonce [1] q (replicate 13 0) (replicate 13 0))"
  by (rule nonce_reuse) simp_all

text \<open>C26: \<open>create_aad\<close> leaves the AAD array of RFC 8613, section 5.4, in the output array if that
  array has room for it, and fails otherwise.  The room is the current length of the array,
  so an AAD can never be replaced by a longer one.\<close>

theorem create_aad_is_rfc8613:
  assumes "zcbor_canonical Z" and "unat opt_num \<le> length opts"
    and "length kid < 24" "length piv < 24"
  shows "fst (create_aad Z opts opt_num OSCORE_AES_CCM_16_64_128 kid piv out) =
      (if 7 + length kid + length piv \<le> length out then Ok ()
       else Fail unexpected_result_from_ext_lib) \<and>
    (7 + length kid + length piv \<le> length out \<longrightarrow>
      snd (create_aad Z opts opt_num OSCORE_AES_CCM_16_64_128 kid piv out) = rfc8613_aad kid piv)"
  using create_aad_eq [OF assms] by blast

theorem create_aad_is_rfc8613_witness:
  "create_aad rfc8949_zcbor [] 0 OSCORE_AES_CCM_16_64_128 [] [0x14] (replicate 30 0) =
    (Ok (), [0x85, 0x01, 0x81, 0x0A, 0x40, 0x41, 0x14, 0x40])"
proof -
  have "rfc8613_aad [] [0x14] = [0x85, 0x01, 0x81, 0x0A, 0x40, 0x41, 0x14, 0x40]" by code_simp
  then show ?thesis
    using create_aad_is_rfc8613 [OF rfc8949_canonical, of 0 "[]" "[]" "[0x14]" "replicate 30 0"]
    by (simp add: prod_eq_iff)
qed

end
