(* ===== verification/Hkdf_Correct.thy ===== *)
theory Hkdf_Correct
  imports Crypto_Wrapper
begin

text \<open>
  The key derivation of \<^verbatim>\<open>crypto_wrapper.c\<close> against RFC 5869.  The hypothesis on the HMAC
  functions of the library is \<open>hmac_law\<close>: setting a non-empty key, initialising, feeding a
  message in pieces and finishing returns the HMAC, 32 bytes, of the whole message.
\<close>

section \<open>HMAC in pieces\<close>

fun hmac_updates :: "('k, 'c, 'h, 's) tinycrypt \<Rightarrow> bytes list \<Rightarrow> 'h \<Rightarrow> 'h option" where
  "hmac_updates T [] h = Some h"
| "hmac_updates T (m # ms) h =
     (case EXPECT_1 (tc_hmac_update T h m) of None \<Rightarrow> None | Some h' \<Rightarrow> hmac_updates T ms h')"

definition hmac_run :: "('k, 'c, 'h, 's) tinycrypt \<Rightarrow> bytes \<Rightarrow> bytes list \<Rightarrow> bytes option" where
  "hmac_run T key ms =
     (case EXPECT_1 (tc_hmac_set_key T (tc_hmac_zero T) key) of None \<Rightarrow> None
      | Some h \<Rightarrow> (case EXPECT_1 (tc_hmac_init T h) of None \<Rightarrow> None
      | Some h1 \<Rightarrow> (case hmac_updates T ms h1 of None \<Rightarrow> None
      | Some h2 \<Rightarrow> EXPECT_1 (tc_hmac_final T h2))))"

definition hmac_law :: "('k, 'c, 'h, 's) tinycrypt \<Rightarrow> (bytes \<Rightarrow> bytes \<Rightarrow> bytes) \<Rightarrow> bool" where
  "hmac_law T HM \<longleftrightarrow> (\<forall>key ms. key \<noteq> [] \<longrightarrow> hmac_run T key ms = Some (HM key (concat ms))) \<and>
     (\<forall>key m. length (HM key m) = 32)"

lemma hmac_lawD: "hmac_law T HM \<Longrightarrow> key \<noteq> [] \<Longrightarrow> hmac_run T key ms = Some (HM key (concat ms))"
  and hmac_law_length: "hmac_law T HM \<Longrightarrow> length (HM key m) = 32"
  by (simp_all add: hmac_law_def)

lemma EXPECT_1_Some: "EXPECT_1 p = Some a \<longleftrightarrow> p = (True, a)"
  by (cases p; cases "fst p") auto

section \<open>Extract\<close>

lemma hkdf_extract_eq:
  assumes "hmac_law T HM"
  shows "hkdf_extract T SHA_256 salt ikm = Ok (HM (if salt = [] then replicate 32 0 else salt) ikm)"
proof -
  let ?s = "if salt = [] then replicate 32 0 else salt"
  have "hmac_run T ?s [ikm] = Some (HM ?s ikm)" using hmac_lawD [OF assms, of ?s "[ikm]"] by auto
  then show ?thesis by (auto simp: hkdf_extract_def hmac_run_def split: option.splits)
qed

section \<open>Expand\<close>

fun rfc5869_T :: "(bytes \<Rightarrow> bytes \<Rightarrow> bytes) \<Rightarrow> bytes \<Rightarrow> bytes \<Rightarrow> nat \<Rightarrow> bytes" where
  "rfc5869_T HM prk info 0 = []"
| "rfc5869_T HM prk info (Suc n) = HM prk (rfc5869_T HM prk info n @ info @ [of_nat (Suc n)])"

text \<open>RFC 5869, section 2.3: the first \<open>L\<close> bytes of \<open>T(1) | T(2) | ...\<close>.\<close>

definition rfc5869_blocks :: "(bytes \<Rightarrow> bytes \<Rightarrow> bytes) \<Rightarrow> bytes \<Rightarrow> bytes \<Rightarrow> nat \<Rightarrow> bytes" where
  "rfc5869_blocks HM prk info n = concat (map (rfc5869_T HM prk info) [1..<Suc n])"

definition rfc5869_expand :: "(bytes \<Rightarrow> bytes \<Rightarrow> bytes) \<Rightarrow> bytes \<Rightarrow> bytes \<Rightarrow> nat \<Rightarrow> bytes" where
  "rfc5869_expand HM prk info L = take L (rfc5869_blocks HM prk info ((L + 31) div 32))"

lemma rfc5869_blocks_Suc:
  "rfc5869_blocks HM prk info (Suc n) = rfc5869_blocks HM prk info n @ rfc5869_T HM prk info (Suc n)"
  by (simp add: rfc5869_blocks_def)

lemma rfc5869_blocks_length:
  assumes "\<And>k m. length (HM k m) = 32"
  shows "length (rfc5869_blocks HM prk info n) = 32 * n"
  using assms by (induction n) (simp_all add: rfc5869_blocks_Suc, simp add: rfc5869_blocks_def)

lemma hkdf_expand_block_eq:
  assumes "hmac_law T HM" and "prk \<noteq> []"
  shows "hkdf_expand_block T prk info i t = Ok (HM prk ((if 1 < i then t else []) @ info @ [i]))"
proof -
  have "hmac_run T prk ((if 1 < i then [t] else []) @ [info, [i]])
      = Some (HM prk ((if 1 < i then t else []) @ info @ [i]))"
    using hmac_lawD [OF assms, of "(if 1 < i then [t] else []) @ [info, [i]]"] by simp
  then show ?thesis
    by (auto simp: hkdf_expand_block_def hmac_run_def Let_def EXPECT_1_Some split: option.splits if_splits)
qed

text \<open>What holds before round \<open>k + 1\<close>: \<open>k\<close> blocks are written.\<close>

definition expand_inv ::
    "(bytes \<Rightarrow> bytes \<Rightarrow> bytes) \<Rightarrow> bytes \<Rightarrow> bytes \<Rightarrow> nat \<Rightarrow> nat \<Rightarrow> bytes \<Rightarrow> bytes \<Rightarrow> bool" where
  "expand_inv HM prk info L k t out \<longleftrightarrow> length out = L \<and>
     take (32 * k) out = take L (rfc5869_blocks HM prk info k) \<and>
     (k \<noteq> 0 \<longrightarrow> t = rfc5869_T HM prk info k)"

lemma expand_inv_0: "length out = L \<Longrightarrow> expand_inv HM prk info L 0 t out"
  by (simp add: expand_inv_def rfc5869_blocks_def)

text \<open>Writing the next block, or the part of it that is left of the output.\<close>

lemma expand_inv_write:
  assumes len: "\<And>k m. length (HM k m) = 32" and kL: "32 * k < L"
    and pre: "expand_inv HM prk info L k t out" and T: "T = rfc5869_T HM prk info (Suc k)"
  shows "\<exists>out'. write_mem out (32 * int k) (take (min 32 (L - 32 * k)) T) = Ok out' \<and>
    expand_inv HM prk info L (Suc k) T out'"
proof -
  have out: "length out = L" "take (32 * k) out = take L (rfc5869_blocks HM prk info k)"
    using pre by (simp_all add: expand_inv_def)
  have lt: "length T = 32" using len by (simp add: T)
  let ?out = "take (32 * k) out @ take (L - 32 * k) T @ drop (32 * Suc k) out"
  have "drop (32 * k + min 32 (L - 32 * k)) out = drop (32 * Suc k) out"
    using out(1) kL by (auto simp: min_def add.commute)
  moreover have "take (min 32 (L - 32 * k)) T = take (L - 32 * k) T"
    using lt by (simp add: min_def)
  moreover have "nat (32 * int k) = 32 * k" by simp
  moreover have "32 * k + min 32 (L - 32 * k) \<le> L" using kL by (auto simp: min_def)
  ultimately have w: "write_mem out (32 * int k) (take (min 32 (L - 32 * k)) T) = Ok ?out"
    using lt out(1) by (simp add: write_mem_def)
  have blk: "length (rfc5869_blocks HM prk info k) = 32 * k" by (rule rfc5869_blocks_length [OF len])
  then have front: "take (32 * k) out = rfc5869_blocks HM prk info k" using out(2) kL by simp
  have "take (32 * Suc k) ?out = take L (rfc5869_blocks HM prk info (Suc k))"
    using out(1) kL lt blk unfolding front rfc5869_blocks_Suc T [symmetric]
    by (cases "L < 32 * Suc k") (auto simp add: min_def)
  moreover have "length ?out = L" using out(1) kL lt by (simp add: min_def)
  ultimately show ?thesis using w T by (auto simp: expand_inv_def simp del: rfc5869_T.simps)
qed

text \<open>The number of bytes of the next block, as the code computes it.\<close>

lemma last_block_size:
  "32 * k < L \<Longrightarrow> (if L < 32 * Suc k then L mod 32 else 32) = min 32 (L - 32 * k)" for L :: nat
proof -
  assume "32 * k < L"
  then have "L mod 32 = (L - 32 * k + 32 * k) mod 32" by simp
  also have "\<dots> = (L - 32 * k) mod 32" by simp
  finally show ?thesis using \<open>32 * k < L\<close> by (auto simp: min_def)
qed

lemma expand_inv_end:
  assumes "expand_inv HM prk info L N t out" and "N = (L + 31) div 32"
  shows "out = rfc5869_expand HM prk info L"
proof -
  have "L \<le> 32 * N" using assms(2) by linarith
  moreover have "length out = L" using assms(1) by (simp add: expand_inv_def)
  ultimately have "out = take (32 * N) out" by simp
  also have "\<dots> = take L (rfc5869_blocks HM prk info N)"
    using assms(1) unfolding expand_inv_def by blast
  also have "\<dots> = rfc5869_expand HM prk info L" unfolding rfc5869_expand_def assms(2) ..
  finally show ?thesis .
qed

lemma hkdf_expand_loop_step:
  assumes law: "hmac_law T HM" and prk: "prk \<noteq> []"
    and L: "unat out_len = L" and N: "N = (L + 31) div 32" "N \<le> 255"
    and its: "unat iterations = N" and kN: "k < N" and pre: "expand_inv HM prk info L k t out"
  shows "\<exists>out'. hkdf_expand_loop T prk info out_len iterations (of_nat (Suc k)) t out =
      hkdf_expand_loop T prk info out_len iterations (of_nat (Suc (Suc k)))
        (rfc5869_T HM prk info (Suc k)) out' \<and>
    expand_inv HM prk info L (Suc k) (rfc5869_T HM prk info (Suc k)) out'"
proof -
  let ?i = "of_nat (Suc k) :: u8"
  have i: "unat ?i = Suc k" using N kN by (intro unat_of_nat_u8) simp
  have le: "ucast ?i \<le> iterations" using i its kN by (simp add: word_le_nat_alt del: of_nat_Suc)
  let ?t = "rfc5869_T HM prk info (Suc k)"
  have one: "1 < ?i \<longleftrightarrow> k \<noteq> 0" using i by (simp add: word_less_nat_alt del: of_nat_Suc)
  have t: "k \<noteq> 0 \<Longrightarrow> t = rfc5869_T HM prk info k" using pre by (simp add: expand_inv_def)
  have block: "hkdf_expand_block T prk info ?i t = Ok ?t"
    using hkdf_expand_block_eq [OF law prk] t one by auto
  have kL: "32 * k < L" using kN N by linarith
  let ?n = "if out_len < ucast ?i * 32 then unat (out_len mod 32) else 32"
  have "unat (ucast ?i * 32 :: u32) = 32 * Suc k"
    using i kN N by (simp add: unat_word_ariths del: of_nat_Suc)
  then have n: "?n = min 32 (L - 32 * k)"
    unfolding word_less_nat_alt unat_mod L last_block_size [OF kL, symmetric] by simp
  obtain out' where w: "write_mem out (32 * int k) (take ?n ?t) = Ok out'"
    and inv: "expand_inv HM prk info L (Suc k) ?t out'"
    using expand_inv_write [OF hmac_law_length [OF law] kL pre refl] unfolding n by blast
  have "(int (unat ?i) - 1) * 32 = 32 * int k" unfolding i by simp
  moreover have "of_nat (Suc k) + 1 = (of_nat (Suc (Suc k)) :: u8)" by simp
  ultimately show ?thesis
    using le block w inv
    by (intro exI [of _ out'], subst hkdf_expand_loop.simps) (simp del: of_nat_Suc rfc5869_T.simps)
qed

lemma hkdf_expand_loop_run:
  assumes "hmac_law T HM" and "prk \<noteq> []"
    and "unat out_len = L" and "N = (L + 31) div 32" "N \<le> 255" and "unat iterations = N"
    and "k \<le> N" and "length out = L"
  shows "\<exists>t' out'. hkdf_expand_loop T prk info out_len iterations 1 t out =
      hkdf_expand_loop T prk info out_len iterations (of_nat (Suc k)) t' out' \<and>
    expand_inv HM prk info L k t' out'"
  using assms(7)
proof (induction k)
  case 0
  show ?case
    by (intro exI [of _ t] exI [of _ out]) (simp add: expand_inv_0 assms(8))
next
  case (Suc k)
  then obtain t' out' where "hkdf_expand_loop T prk info out_len iterations 1 t out =
      hkdf_expand_loop T prk info out_len iterations (of_nat (Suc k)) t' out'"
    "expand_inv HM prk info L k t' out'" by auto
  with hkdf_expand_loop_step [OF assms(1-6) _ this(2)] Suc.prems show ?case by fastforce
qed

text \<open>Up to 254 blocks the loop ends with the bytes of the RFC; with 255 the counter returns to
  0, and the next round writes in front of the output.\<close>

lemma hkdf_expand_loop_ends:
  assumes "hmac_law T HM" and "prk \<noteq> []"
    and "unat out_len = L" and "N = (L + 31) div 32" "N \<le> 255" and "unat iterations = N"
    and "length out = L"
  shows "hkdf_expand_loop T prk info out_len iterations 1 t out =
    (if N \<le> 254 then Ok (rfc5869_expand HM prk info L) else Undef)"
proof -
  obtain t' out' where run: "hkdf_expand_loop T prk info out_len iterations 1 t out =
      hkdf_expand_loop T prk info out_len iterations (of_nat (Suc N)) t' out'"
    and inv: "expand_inv HM prk info L N t' out'"
    using hkdf_expand_loop_run [OF assms(1-6) order_refl assms(7)] by blast
  show ?thesis
  proof (cases "N \<le> 254")
    case True
    then have "unat (of_nat (Suc N) :: u8) = Suc N" by (intro unat_of_nat_u8) simp
    then have stop: "\<not> ucast (of_nat (Suc N) :: u8) \<le> iterations"
      using assms(6) by (simp add: word_le_nat_alt del: of_nat_Suc)
    have "out' = rfc5869_expand HM prk info L" by (rule expand_inv_end [OF inv assms(4)])
    then show ?thesis using stop True unfolding run by (simp add: hkdf_expand_loop.simps del: of_nat_Suc)
  next
    case False
    with assms(5) have "N = 255" by simp
    then have "of_nat (Suc N) = (0 :: u8)" by simp
    then show ?thesis
      using False hkdf_expand_block_eq [OF assms(1,2)] unfolding run
      by (simp add: hkdf_expand_loop.simps write_mem_def del: of_nat_Suc)
  qed
qed

section \<open>The whole expansion\<close>

lemma hkdf_expand_eq:
  assumes "hmac_law T HM" and "prk \<noteq> []"
    and "length out = unat out_len" and "unat out_len + 31 < 2 ^ 32"
  shows "hkdf_expand T SHA_256 prk info out out_len =
    (if unat out_len \<le> 254 * 32 then Ok (rfc5869_expand HM prk info (unat out_len))
     else if unat out_len \<le> 255 * 32 then Undef
     else Fail hkdf_fialed)"
proof -
  let ?N = "(unat out_len + 31) div 32"
  have its: "unat ((out_len + 31) div 32) = ?N"
  proof -
    have "unat (out_len + 31) = unat out_len + 31" using assms(4) by (simp add: unat_word_ariths)
    then show ?thesis by (simp add: unat_div)
  qed
  have "255 < (out_len + 31) div 32 \<longleftrightarrow> 255 < ?N"
    unfolding word_less_nat_alt its by simp
  moreover have "255 < (n + 31) div 32 \<longleftrightarrow> 255 * 32 < n" "(n + 31) div 32 \<le> 254 \<longleftrightarrow> n \<le> 254 * 32"
    for n :: nat by linarith+
  moreover have "\<not> 255 < ?N \<Longrightarrow> hkdf_expand_loop T prk info out_len ((out_len + 31) div 32) 1 (replicate 32 0) out =
    (if ?N \<le> 254 then Ok (rfc5869_expand HM prk info (unat out_len)) else Undef)"
    by (rule hkdf_expand_loop_ends [OF assms(1,2) refl refl _ its assms(3)]) simp
  ultimately show ?thesis unfolding hkdf_expand_def Let_def by (simp add: not_less)
qed

section \<open>A library that satisfies the law\<close>

text \<open>It collects the message; its ``HMAC'' is the first 32 bytes of message and key.\<close>

definition collect_hmac :: "bytes \<Rightarrow> bytes \<Rightarrow> bytes" where
  "collect_hmac key m = take 32 (m @ key @ replicate 32 0)"

definition collecting_tinycrypt :: "(bytes, bytes, bytes \<times> bytes, bytes) tinycrypt" where
  "collecting_tinycrypt = \<lparr>
     tc_aes128_set_encrypt_key = (\<lambda>key. (True, key)),
     tc_ccm_config = (\<lambda>sched nonce tag_len. (True, sched @ nonce)),
     tc_ccm_decryption_verification = (\<lambda>c n aad ct. (True, take (unat n) ct)),
     tc_ccm_generation_encryption = (\<lambda>c n aad pt. (True, pt @ replicate 16 0)),
     tc_hmac_zero = ([], []),
     tc_hmac_set_key = (\<lambda>(_, m) key. (key \<noteq> [], (key, m))),
     tc_hmac_init = (\<lambda>(key, m). (True, (key, []))),
     tc_hmac_update = (\<lambda>(key, m) b. (True, (key, m @ b))),
     tc_hmac_final = (\<lambda>(key, m). (True, collect_hmac key m)),
     tc_sha256_init = (True, []),
     tc_sha256_update = (\<lambda>m b. (True, m @ b)),
     tc_sha256_final = (\<lambda>m. (True, take 32 (m @ replicate 32 0)))\<rparr>"

lemma collecting_hmac_fields [simp]:
  "tc_hmac_zero collecting_tinycrypt = ([], [])"
  "tc_hmac_set_key collecting_tinycrypt (k, m) key = (key \<noteq> [], (key, m))"
  "tc_hmac_init collecting_tinycrypt (key, m) = (True, (key, []))"
  "tc_hmac_update collecting_tinycrypt (key, m) b = (True, (key, m @ b))"
  "tc_hmac_final collecting_tinycrypt (key, m) = (True, collect_hmac key m)"
  by (simp_all add: collecting_tinycrypt_def)

lemma collecting_hmac_law: "hmac_law collecting_tinycrypt collect_hmac"
proof -
  have "hmac_updates collecting_tinycrypt ms (key, m) = Some (key, m @ concat ms)" for ms key m
    by (induction ms arbitrary: m) simp_all
  then have "hmac_run collecting_tinycrypt key ms = Some (collect_hmac key (concat ms))"
    if "key \<noteq> []" for key ms
    using that by (simp add: hmac_run_def)
  moreover have "length (collect_hmac key m) = 32" for key m
    by (simp add: collect_hmac_def del: take_append)
  ultimately show ?thesis by (simp add: hmac_law_def)
qed

section \<open>Properties\<close>

text \<open>C25: \<open>hkdf_expand\<close> computes HKDF-Expand of RFC 5869 for outputs of up to 254 blocks.  For an
  output of 255 blocks, which the RFC allows, its 8-bit counter wraps around and the function
  writes in front of the output buffer; beyond 255 blocks it fails with \<open>hkdf_fialed\<close>.\<close>

theorem hkdf_expand_is_rfc5869:
  assumes "hmac_law T HM" and "prk \<noteq> []"
    and "length out = unat out_len" and "unat out_len + 31 < 2 ^ 32"
  shows "hkdf_expand T SHA_256 prk info out out_len =
    (if unat out_len \<le> 254 * 32 then Ok (rfc5869_expand HM prk info (unat out_len))
     else if unat out_len \<le> 255 * 32 then Undef
     else Fail hkdf_fialed)"
  by (rule hkdf_expand_eq [OF assms])

theorem hkdf_expand_is_rfc5869_witness:
  "hkdf_expand collecting_tinycrypt SHA_256 [1] [2, 3] (replicate 40 0) 40 =
    Ok ([2, 3, 1, 1] @ replicate 28 0 @ [2, 3, 1, 1] @ replicate 4 0)"
proof -
  have "rfc5869_expand collect_hmac [1] [2, 3] 40 = [2, 3, 1, 1] @ replicate 28 0 @ [2, 3, 1, 1] @ replicate 4 0"
    by code_simp
  then show ?thesis
    using hkdf_expand_is_rfc5869 [OF collecting_hmac_law, of "[1]" "replicate 40 0" 40 "[2, 3]"] by simp
qed

end
