(* ===== verification/Oscore_Parts.thy ===== *)
theory Oscore_Parts
  imports Oscore_Unprotect "HOL-Library.Multiset"
begin

text \<open>
  The parts of an OSCORE packet: the exchange sort of option numbers, the division of the
  options into protected and unprotected ones, and the round trip of the OSCORE option.
\<close>

section \<open>The exchange sort\<close>

lemma exchange_mset:
  "i < length xs \<Longrightarrow> k < length xs \<Longrightarrow> length (exchange i k xs) = length xs \<and> mset (exchange i k xs) = mset xs"
  by (simp add: exchange_def mset_swap)

lemma inner_sort:
  assumes "i < m" and "m \<le> length xs"
  shows "length (reorder_sort_inner m i xs) = length xs \<and> mset (reorder_sort_inner m i xs) = mset xs \<and>
    take i (reorder_sort_inner m i xs) = take i xs \<and>
    (\<forall>k. i \<le> k \<and> k < m \<longrightarrow> reorder_sort_inner m i xs ! i \<le> reorder_sort_inner m i xs ! k)"
  using assms
proof (induction m)
  case 0
  then show ?case by simp
next
  case (Suc m)
  show ?case
  proof (cases "i < m")
    case False
    with Suc.prems have "i = m" by simp
    then show ?thesis by (auto simp: reorder_sort_inner_def dest!: le_less_Suc_eq)
  next
    case True
    let ?ys = "reorder_sort_inner m i xs"
    have step: "reorder_sort_inner (Suc m) i xs = exchange i m ?ys"
      using True by (simp add: reorder_sort_inner_def)
    from Suc True have ih: "length ?ys = length xs" "mset ?ys = mset xs" "take i ?ys = take i xs"
      and least: "\<And>k. i \<le> k \<Longrightarrow> k < m \<Longrightarrow> ?ys ! i \<le> ?ys ! k" by simp_all
    have len: "i < length ?ys" "m < length ?ys" using ih(1) True Suc.prems by simp_all
    have "take i (exchange i m ?ys) = take i xs"
      using True ih(3) by (simp add: exchange_def)
    moreover have "exchange i m ?ys ! i \<le> exchange i m ?ys ! k" if "i \<le> k" "k < Suc m" for k
    proof (cases "k = m")
      case True
      with len \<open>i < m\<close> show ?thesis by (auto simp: exchange_def nth_list_update not_less)
    next
      case False
      with that have "k < m" by simp
      with least [OF that(1) this] len \<open>i < m\<close> show ?thesis
        by (auto simp: exchange_def nth_list_update not_less)
    qed
    ultimately show ?thesis using exchange_mset [OF len] ih step by simp
  qed
qed

lemma outer_sort:
  assumes "m \<le> length xs"
  defines "ys \<equiv> fold (reorder_sort_inner (length xs)) [0..<m] xs"
  shows "length ys = length xs \<and> mset ys = mset xs \<and> sorted (take m ys) \<and>
    (\<forall>a \<in> set (take m ys). \<forall>b \<in> set (drop m ys). a \<le> b)"
  using assms(1) unfolding ys_def
proof (induction m)
  case 0
  then show ?case by simp
next
  case (Suc m)
  let ?ys = "fold (reorder_sort_inner (length xs)) [0..<m] xs"
  let ?zs = "reorder_sort_inner (length xs) m ?ys"
  from Suc have ih: "length ?ys = length xs" "mset ?ys = mset xs" "sorted (take m ?ys)"
    and below: "\<And>a b. a \<in> set (take m ?ys) \<Longrightarrow> b \<in> set (drop m ?ys) \<Longrightarrow> a \<le> b" by simp_all
  from inner_sort [of m "length xs" ?ys] Suc.prems ih(1)
  have zs: "length ?zs = length xs" "mset ?zs = mset ?ys" "take m ?zs = take m ?ys"
    and least: "\<And>k. m \<le> k \<Longrightarrow> k < length xs \<Longrightarrow> ?zs ! m \<le> ?zs ! k" by auto
  have "mset (take m ?zs) + mset (drop m ?zs) = mset (take m ?ys) + mset (drop m ?ys)"
    using zs(2) by (metis append_take_drop_id mset_append)
  with zs(3) have "mset (drop m ?zs) = mset (drop m ?ys)" by simp
  then have rest: "set (drop m ?zs) = set (drop m ?ys)" by (metis set_mset_mset)
  have m: "m < length ?zs" using Suc.prems zs(1) by simp
  then have split: "take (Suc m) ?zs = take m ?ys @ [?zs ! m]"
    using zs(3) by (simp add: take_Suc_conv_app_nth)
  have "?zs ! m \<in> set (drop m ?zs)" using m by (metis Cons_nth_drop_Suc list.set_intros(1))
  then have "a \<le> ?zs ! m" if "a \<in> set (take m ?ys)" for a using below that rest by blast
  with split ih(3) have "sorted (take (Suc m) ?zs)" by (simp add: sorted_append)
  moreover have "?zs ! m \<le> b" if "b \<in> set (drop (Suc m) ?zs)" for b
    using that least zs(1) by (auto simp: in_set_conv_nth)
  moreover have "set (drop (Suc m) ?zs) \<subseteq> set (drop m ?ys)"
    using rest set_drop_subset_set_drop [of m "Suc m" ?zs] by auto
  ultimately show ?case using zs ih split below by fastforce
qed

lemma reorder_sort_full: "reorder_sort (length xs) xs = sort xs"
proof -
  from outer_sort [of "length xs" xs] have len: "length (reorder_sort (length xs) xs) = length xs"
    and "mset (reorder_sort (length xs) xs) = mset xs"
    and "sorted (take (length xs) (reorder_sort (length xs) xs))" by (auto simp: reorder_sort_def)
  moreover from len have "take (length xs) (reorder_sort (length xs) xs) = reorder_sort (length xs) xs"
    by simp
  ultimately have "mset (reorder_sort (length xs) xs) = mset xs" "sorted (reorder_sort (length xs) xs)"
    by simp_all
  then show ?thesis by (metis properties_for_sort)
qed

lemma exchange_append:
  "i < length xs \<Longrightarrow> k < length xs \<Longrightarrow> exchange i k (xs @ ys) = exchange i k xs @ ys"
  by (simp add: exchange_def nth_append list_update_append)

lemma reorder_sort_append: "reorder_sort (length xs) (xs @ ys) = reorder_sort (length xs) xs @ ys"
proof -
  have inner: "fold (exchange i) ks (zs @ ys) = fold (exchange i) ks zs @ ys"
    if "i < length zs" "\<forall>k \<in> set ks. k < length zs" for i ks zs
    using that by (induction ks arbitrary: zs) (simp_all add: exchange_append exchange_mset)
  have "fold (reorder_sort_inner (length zs)) is (zs @ ys) = fold (reorder_sort_inner (length zs)) is zs @ ys"
    if "\<forall>i \<in> set is. i < length zs" for "is" zs
    using that
  proof (induction "is" arbitrary: zs)
    case (Cons i "is")
    have "reorder_sort_inner (length zs) i (zs @ ys) = reorder_sort_inner (length zs) i zs @ ys"
      using Cons.prems by (simp add: reorder_sort_inner_def inner)
    moreover have "length (reorder_sort_inner (length zs) i zs) = length zs"
      using inner_sort [of i "length zs" zs] Cons.prems by simp
    ultimately show ?case using Cons.IH [of "reorder_sort_inner (length zs) i zs"] Cons.prems by simp
  qed simp
  then show ?thesis by (simp add: reorder_sort_def)
qed

section \<open>The OSCORE option\<close>

definition oscore_flags :: "bytes \<Rightarrow> bytes \<Rightarrow> u8" where
  "oscore_flags piv kid_context =
     (of_nat (length piv) OR (if kid_context = [] then 0 else 0x10)) OR 0x08"

text \<open>The option value of RFC 8613, 6.1: flags, Partial IV, kid context with its length, kid.\<close>

definition rfc8613_option :: "bytes \<Rightarrow> bytes \<Rightarrow> bytes \<Rightarrow> bytes" where
  "rfc8613_option piv kid kid_context =
     [oscore_flags piv kid_context] @ piv @
     (if kid_context = [] then [] else of_nat (length kid_context) # kid_context) @ kid"

lemma piv_lengths:
  assumes "0 < length piv" and "length piv \<le> MAX_PIV_LEN"
  obtains "length piv = 1" | "length piv = 2" | "length piv = 3" | "length piv = 4" | "length piv = 5"
  using assms unfolding context_consts by linarith

lemma oscore_flags_fields:
  assumes "0 < length piv" and "length piv \<le> MAX_PIV_LEN"
  shows "oscore_flags piv kc AND COMP_OSCORE_OPT_PIV_N_MASK = of_nat (length piv)"
    and "drop_bit 3 (oscore_flags piv kc AND COMP_OSCORE_OPT_KID_K_MASK) = 1"
    and "drop_bit 4 (oscore_flags piv kc AND COMP_OSCORE_OPT_KIDC_H_MASK) = (if kc = [] then 0 else 1)"
  by (rule piv_lengths [OF assms]; simp add: oscore_flags_def drop_bit_eq_div)+

lemma rfc8613_option_length:
  assumes "0 < length piv"
  shows "length (rfc8613_option piv kid kc) =
    1 + length piv + length kc + length kid + (if kc = [] then 0 else 1)"
  by (simp add: rfc8613_option_def)

lemma get_oscore_opt_val_len_eq:
  assumes "0 < length piv" "length piv \<le> MAX_PIV_LEN" "length kid \<le> MAX_KID_LEN" "length kc \<le> MAX_KID_CONTEXT_LEN"
  shows "get_oscore_opt_val_len piv kid kc = of_nat (length (rfc8613_option piv kid kc))"
proof -
  let ?n = "length piv + length kc + length kid"
  from assms have "?n < 2 ^ 8" by simp
  then have "unat (of_nat ?n :: u8) = ?n" by (rule unat_of_nat_u8)
  with assms(1) have "(of_nat ?n :: u8) \<noteq> 0" by (metis add_is_0 less_irrefl unsigned_0)
  then show ?thesis
    using assms(1) by (cases "kc = []") (simp_all add: get_oscore_opt_val_len_def rfc8613_option_length Let_def)
qed

lemma rfc8613_option_short:
  assumes "0 < length piv" "length piv \<le> MAX_PIV_LEN" "length kid \<le> MAX_KID_LEN" "length kc \<le> MAX_KID_CONTEXT_LEN"
  shows "length (rfc8613_option piv kid kc) \<le> OSCORE_OPT_VALUE_LEN"
  using assms by (simp add: rfc8613_option_length)

text \<open>A field copied behind what is already written.\<close>

lemma copy_behind_u8:
  fixes len :: u8
  assumes "length pre + length bs \<le> unat len" and "unat len \<le> length (pre @ rest)"
    and "p = int (length pre)" and "w = of_nat (length pre)"
  shows "memcpy_s (pre @ rest) p (ucast len - w) (Some bs) (of_nat (length bs)) = Ok (pre @ bs @ drop (length bs) rest)"
proof -
  have "unat (of_nat (length bs) :: u32) = length bs" using assms(1) u8_nat_less [of len] by simp
  with assms memcpy_s_rest [of "Some bs" "of_nat (length bs)" pre "ucast len" rest "length pre"] show ?thesis
    by simp
qed

lemma set_flags_Cons [simp]: "set_flags (x # v) m = Ok ((x OR m) # v)"
  by (simp add: set_flags_def)

lemma oscore_option_piv_eq:
  assumes "0 < length piv" and "1 + length piv \<le> unat len" and "unat len \<le> 1 + length rest"
  shows "oscore_option_piv len piv (x # rest) =
    Ok ((x OR of_nat (length piv)) # piv @ drop (length piv) rest, 1 + length piv)"
proof -
  let ?x = "x OR of_nat (length piv)"
  have "memcpy_s ([?x] @ rest) 1 (ucast len - 1) (Some piv) (of_nat (length piv)) =
      Ok ([?x] @ piv @ drop (length piv) rest)"
    using assms u8_nat_less [of len] by (intro copy_behind_u8) simp_all
  with assms(1) show ?thesis by (simp add: oscore_option_piv_def)
qed

lemma oscore_option_kid_context_eq:
  assumes "kc \<noteq> []" and "2 + length pre + length kc \<le> unat len"
    and "unat len \<le> 1 + length pre + length rest"
  shows "oscore_option_kid_context len kc (x # pre @ rest) (1 + length pre) =
    Ok ((x OR 0x10) # pre @ of_nat (length kc) # kc @ drop (1 + length kc) rest, 2 + length pre + length kc)"
proof -
  let ?x = "x OR 0x10" and ?n = "of_nat (length kc) :: u8"
  have w: "write_mem (?x # pre @ rest) (int (1 + length pre)) [?n] = Ok ((?x # pre @ [?n]) @ drop 1 rest)"
    using write_mem_at_end [of "[?n]" rest "?x # pre"] assms by simp
  have "memcpy_s ((?x # pre @ [?n]) @ drop 1 rest) (int (1 + length pre + 1))
      (ucast len - of_nat (1 + length pre + 1)) (Some kc) (of_nat (length kc)) =
      Ok ((?x # pre @ [?n]) @ kc @ drop (length kc) (drop 1 rest))"
    using assms u8_nat_less [of len] by (intro copy_behind_u8) simp_all
  with w assms(1) show ?thesis
    by (simp add: oscore_option_kid_context_def add.commute)
qed

lemma oscore_option_kid_eq:
  assumes "1 + length pre + length kid \<le> unat len" and "unat len \<le> 1 + length pre + length rest"
  shows "oscore_option_kid len kid (x # pre @ rest) (1 + length pre) =
    Ok ((x OR 0x08) # pre @ kid @ drop (length kid) rest)"
proof -
  let ?x = "x OR 0x08"
  have "memcpy_s ((?x # pre) @ rest) (int (1 + length pre)) (ucast len - of_nat (1 + length pre))
      (Some kid) (of_nat (length kid)) = Ok ((?x # pre) @ kid @ drop (length kid) rest)"
    using assms u8_nat_less [of len] by (intro copy_behind_u8) simp_all
  then show ?thesis by (cases "kid = []") (simp_all add: oscore_option_kid_def)
qed

lemma oscore_option_generate_eq:
  assumes "0 < length piv" "length piv \<le> MAX_PIV_LEN" "length kid \<le> MAX_KID_LEN" "length kc \<le> MAX_KID_CONTEXT_LEN"
  defines "v \<equiv> rfc8613_option piv kid kc"
  shows "\<exists>zs. oscore_option_generate piv kid kc (get_oscore_opt_val_len piv kid kc) =
    Ok \<lparr>opt_delta = 0, opt_len = of_nat (length v), opt_value = Some (v @ zs), opt_number = 9\<rparr>"
proof -
  define len where "len = (of_nat (length v) :: u8)"
  have short: "length v \<le> 22" using rfc8613_option_short [OF assms(1-4)] by (simp add: v_def)
  then have n: "unat len = length v" by (simp add: len_def)
  have vlen: "length v = 1 + length piv + length kc + length kid + (if kc = [] then 0 else 1)"
    unfolding v_def by (rule rfc8613_option_length [OF assms(1)])
  define rest where "rest = replicate 21 (0 :: u8)"
  have room: "OSCORE_OPT_VALUE_LEN = Suc 21" by simp
  have buf: "replicate OSCORE_OPT_VALUE_LEN 0 = 0 # rest" unfolding room rest_def by (rule replicate_Suc)
  have rl: "length rest = 21" by (simp add: rest_def)
  have len0: "len \<noteq> 0" using n vlen by (metis add_is_0 one_neq_zero unsigned_0)
  have s1: "oscore_option_piv len piv (replicate OSCORE_OPT_VALUE_LEN 0) =
      Ok (of_nat (length piv) # piv @ drop (length piv) rest, 1 + length piv)"
    unfolding buf using oscore_option_piv_eq [of piv len rest 0] assms(1) n vlen short rl by simp
  have get: "get_oscore_opt_val_len piv kid kc = len"
    using get_oscore_opt_val_len_eq [OF assms(1-4)] by (simp add: len_def v_def)
  show ?thesis
  proof (cases "kc = []")
    case True
    let ?rest = "drop (length piv) rest"
    have "oscore_option_kid len kid (of_nat (length piv) # piv @ ?rest) (1 + length piv) =
        Ok (v @ drop (length kid) ?rest)"
      using oscore_option_kid_eq [of piv kid len ?rest "of_nat (length piv)"] n vlen short rl True
      by (simp add: v_def rfc8613_option_def oscore_flags_def)
    with s1 True len0 show ?thesis
      unfolding get oscore_option_generate_def by (simp add: oscore_option_kid_context_def len_def)
  next
    case False
    let ?rest = "drop (length piv) rest" and ?pre = "piv @ of_nat (length kc) # kc"
    let ?x = "of_nat (length piv) OR 0x10 :: u8" and ?rest' = "drop (length piv + (1 + length kc)) rest"
    have "oscore_option_kid_context len kc (of_nat (length piv) # piv @ ?rest) (1 + length piv) =
        Ok (?x # ?pre @ ?rest', 1 + length ?pre)"
      using oscore_option_kid_context_eq [of kc piv len ?rest "of_nat (length piv)"] n vlen short rl False
      by (simp add: add.commute)
    moreover have "oscore_option_kid len kid (?x # ?pre @ ?rest') (1 + length ?pre) =
        Ok (v @ drop (length kid) ?rest')"
      using oscore_option_kid_eq [of ?pre kid len ?rest' ?x] n vlen short rl False
      by (simp add: v_def rfc8613_option_def oscore_flags_def)
    ultimately show ?thesis
      using s1 len0 unfolding get oscore_option_generate_def by (simp add: len_def)
  qed
qed

text \<open>The parser of the option.\<close>

lemma parse_oscore_value_eq:
  assumes "0 < length piv" "length piv \<le> MAX_PIV_LEN" "length kid \<le> MAX_KID_LEN" "length kc \<le> MAX_KID_CONTEXT_LEN"
    and "opt_len opt = of_nat (length (rfc8613_option piv kid kc))"
    and "opt_value opt = Some (rfc8613_option piv kid kc @ zs)"
  shows "parse_oscore_value opt old = Ok \<lparr>co_h = (if kc = [] then 0 else 1), co_k = 1, co_n = of_nat (length piv),
     co_piv = \<lparr>ba_len = of_nat (length piv),
       ba_ptr = Some (piv @ drop (1 + length piv) (rfc8613_option piv kid kc) @ zs)\<rparr>,
     co_kid_context = (if kc = [] then NULL_ARRAY else
       \<lparr>ba_len = of_nat (length kc), ba_ptr = Some (kc @ kid @ zs)\<rparr>),
     co_kid = \<lparr>ba_len = of_nat (length kid), ba_ptr = Some (kid @ zs)\<rparr>\<rparr>"
proof -
  note fields = oscore_flags_fields [OF assms(1,2), of kc]
  let ?n = "of_nat (length piv) :: u8"
  have n: "?n \<noteq> 0" "?n \<noteq> 6" "?n \<noteq> 7" by (rule piv_lengths [OF assms(1,2)]; simp)+
  have n32: "(ucast ?n :: u32) = of_nat (length piv)" "(ucast (of_nat (length kc) :: u8) :: u32) = of_nat (length kc)"
    "(ucast (of_nat (length kid) :: u8) :: u32) = of_nat (length kid)"
    using assms(2-4) by (simp_all add: ucast_of_nat_u8)
  have u: "unat ?n = length piv" "unat (of_nat (length kc) :: u8) = length kc" using assms(2,4) by simp_all
  have piv: "parse_piv ?n a p l = Ok (\<lparr>ba_len = of_nat (length piv), ba_ptr = p\<rparr>, advance p (length piv), l - ?n)" for a p l
    by (simp add: parse_piv_def n n32 u)
  let ?v = "rfc8613_option piv kid kc"
  have v: "?v @ zs = oscore_flags piv kc # piv @ drop (1 + length piv) ?v @ zs"
    by (simp add: rfc8613_option_def)
  have rest: "drop (1 + length piv) ?v = (if kc = [] then kid else of_nat (length kc) # kc @ kid)"
    by (simp add: rfc8613_option_def)
  have "parse_oscore_value opt old =
      TRY (parse_kid_context (if kc = [] then 0 else 1) (Some (drop (1 + length piv) ?v @ zs))
             (opt_len opt - 1 - ?n)) (\<lambda>(k, p2, l2).
      Ok \<lparr>co_h = (if kc = [] then 0 else 1), co_k = 1, co_n = ?n,
          co_piv = \<lparr>ba_len = of_nat (length piv), ba_ptr = Some (piv @ drop (1 + length piv) ?v @ zs)\<rparr>,
          co_kid_context = k, co_kid = parse_kid 1 p2 l2\<rparr>)"
    unfolding parse_oscore_value_def assms(6) v by (simp add: fields Let_def piv del: option_masks drop_bit_and)
  also have "parse_kid_context (if kc = [] then 0 else 1) (Some (drop (1 + length piv) ?v @ zs))
        (opt_len opt - 1 - ?n)
      = Ok (if kc = [] then NULL_ARRAY else \<lparr>ba_len = of_nat (length kc), ba_ptr = Some (kc @ kid @ zs)\<rparr>,
            Some (kid @ zs), of_nat (length kid))"
    unfolding rest assms(5) rfc8613_option_length [OF assms(1)]
    by (simp add: parse_kid_context_def n32 u)
  finally show ?thesis by (simp add: parse_kid_def n32)
qed

text \<open>C36: The exchange sort of \<open>options_from_oscore_reorder\<close> sorts the first \<open>n\<close> option numbers and
  leaves the rest of the array alone.\<close>

theorem reorder_sort_sorts:
  assumes "n \<le> length nums"
  shows "reorder_sort n nums = sort (take n nums) @ drop n nums"
proof -
  have "length (take n nums) = n" using assms by simp
  with reorder_sort_append [of "take n nums" "drop n nums"] reorder_sort_full [of "take n nums"]
  show ?thesis by simp
qed

theorem reorder_sort_sorts_witness:
  "reorder_sort 3 [11, 3, 6, 0, 0] = [3, 6, 11, 0, 0]"
proof -
  have "reorder_sort 3 [11, 3, 6, 0, 0 :: u8] = sort (take 3 [11, 3, 6, 0, 0]) @ drop 3 [11, 3, 6, 0, 0]"
    by (rule reorder_sort_sorts) simp
  then show ?thesis by simp
qed

text \<open>C23: The OSCORE option a request is sent with reads back as it was made: for a Partial IV of
  one to five bytes, a kid of up to seven and a kid context of up to eight bytes, the value
  is that of RFC 8613, 6.1, and the parser finds the three fields in it.\<close>

theorem oscore_option_roundtrip:
  assumes "0 < length piv" and "length piv \<le> MAX_PIV_LEN" and "length kid \<le> MAX_KID_LEN"
    and "length kc \<le> MAX_KID_CONTEXT_LEN"
  shows "\<exists>opt zs co. oscore_option_generate piv kid kc (get_oscore_opt_val_len piv kid kc) = Ok opt \<and>
    opt_value opt = Some (rfc8613_option piv kid kc @ zs) \<and>
    unat (opt_len opt) = length (rfc8613_option piv kid kc) \<and>
    ucast (opt_number opt) = COAP_OPTION_OSCORE \<and> parse_oscore_value opt old = Ok co \<and>
    mem_bytes (ba_ptr (co_piv co)) (unat (ba_len (co_piv co))) = piv \<and>
    mem_bytes (ba_ptr (co_kid co)) (unat (ba_len (co_kid co))) = kid \<and>
    mem_bytes (ba_ptr (co_kid_context co)) (unat (ba_len (co_kid_context co))) = kc"
proof -
  from oscore_option_generate_eq [OF assms] obtain zs where
    gen: "oscore_option_generate piv kid kc (get_oscore_opt_val_len piv kid kc) =
      Ok \<lparr>opt_delta = 0, opt_len = of_nat (length (rfc8613_option piv kid kc)),
          opt_value = Some (rfc8613_option piv kid kc @ zs), opt_number = 9\<rparr>" (is "_ = Ok ?opt") by blast
  have "length (rfc8613_option piv kid kc) < 2 ^ 8" using rfc8613_option_short [OF assms] by simp
  moreover have "parse_oscore_value ?opt old = Ok \<lparr>co_h = (if kc = [] then 0 else 1), co_k = 1, co_n = of_nat (length piv),
     co_piv = \<lparr>ba_len = of_nat (length piv),
       ba_ptr = Some (piv @ drop (1 + length piv) (rfc8613_option piv kid kc) @ zs)\<rparr>,
     co_kid_context = (if kc = [] then NULL_ARRAY else
       \<lparr>ba_len = of_nat (length kc), ba_ptr = Some (kc @ kid @ zs)\<rparr>),
     co_kid = \<lparr>ba_len = of_nat (length kid), ba_ptr = Some (kid @ zs)\<rparr>\<rparr>" (is "_ = Ok ?co")
    by (rule parse_oscore_value_eq [OF assms]) simp_all
  ultimately show ?thesis
    using gen assms by (intro exI [of _ ?opt] exI [of _ zs] exI [of _ ?co]) (simp add: NULL_ARRAY_def)
qed

theorem oscore_option_roundtrip_witness:
  "\<exists>opt zs co. oscore_option_generate [0x14] [] [0x37, 0xcb] (get_oscore_opt_val_len [0x14] [] [0x37, 0xcb]) = Ok opt \<and>
    opt_value opt = Some ([0x19, 0x14, 0x02, 0x37, 0xcb] @ zs) \<and>
    parse_oscore_value opt \<lparr>co_h = 0, co_k = 0, co_n = 0, co_piv = NULL_ARRAY,
       co_kid_context = NULL_ARRAY, co_kid = NULL_ARRAY\<rparr> = Ok co \<and>
    mem_bytes (ba_ptr (co_kid_context co)) (unat (ba_len (co_kid_context co))) = [0x37, 0xcb]"
proof -
  have v: "rfc8613_option [0x14] [] [0x37, 0xcb] = [0x19, 0x14, 0x02, 0x37, 0xcb]" by code_simp
  show ?thesis
    using oscore_option_roundtrip [of "[0x14]" "[]" "[0x37, 0xcb]" "\<lparr>co_h = 0, co_k = 0, co_n = 0,
      co_piv = NULL_ARRAY, co_kid_context = NULL_ARRAY, co_kid = NULL_ARRAY\<rparr>"]
    unfolding v by auto
qed

end
