(* ===== verification/Oscore_Division.thy ===== *)
theory Oscore_Division
  imports Oscore_Parts Coap_Correct
begin

text \<open>
  The division of the options into protected and unprotected ones refines a filter on option
  numbers, which the code keeps modulo 256.
\<close>

section \<open>Options by absolute number\<close>

text \<open>Number, length and value of each option, the numbers summed up from \<open>n\<close>; what is left of a
  number in 8 bits; and back to deltas of 16 bits from the option before.\<close>

fun absolute :: "nat \<Rightarrow> o_coap_option list \<Rightarrow> (nat \<times> u8 \<times> ptr) list" where
  "absolute n [] = []"
| "absolute n (opt # opts) =
     (n + unat (opt_delta opt), opt_len opt, opt_value opt) # absolute (n + unat (opt_delta opt)) opts"

definition in_8_bits :: "nat \<times> u8 \<times> ptr \<Rightarrow> nat \<times> u8 \<times> ptr" where
  "in_8_bits a = (fst a mod 256, snd a)"

fun relative :: "nat \<Rightarrow> (nat \<times> u8 \<times> ptr) list \<Rightarrow> (nat \<times> nat \<times> u8 \<times> ptr) list" where
  "relative n [] = []"
| "relative n ((k, l, v) # os) = (if n \<le> k then k - n else k + 65536 - n, k, l, v) # relative k os"

definition opt_view :: "o_coap_option \<Rightarrow> nat \<times> nat \<times> u8 \<times> ptr" where
  "opt_view opt = (unat (opt_delta opt), unat (opt_number opt), opt_len opt, opt_value opt)"

definition protected :: "nat \<times> u8 \<times> ptr \<Rightarrow> bool" where
  "protected a \<longleftrightarrow> is_class_e (of_nat (fst a))"

text \<open>The numbers as the code sums them up.\<close>

fun wrapped :: "nat \<Rightarrow> o_coap_option list \<Rightarrow> (nat \<times> u8 \<times> ptr) list" where
  "wrapped n [] = []"
| "wrapped n (opt # opts) =
     ((n + unat (opt_delta opt)) mod 256, opt_len opt, opt_value opt) # wrapped ((n + unat (opt_delta opt)) mod 256) opts"

lemma wrapped_eq: "wrapped (n mod 256) opts = map in_8_bits (absolute n opts)"
proof (induction opts arbitrary: n)
  case (Cons opt opts)
  from Cons.IH [of "n + unat (opt_delta opt)"] show ?case by (simp add: in_8_bits_def mod_add_left_eq)
qed simp

lemma length_wrapped [simp]: "length (wrapped n opts) = length opts"
  by (induction opts arbitrary: n) simp_all

lemma number_step: "unat (ucast (ucast (n :: u8) + d) :: u8) = (unat n + unat (d :: u16)) mod 256"
  by (simp add: unsigned_ucast_eq unat_word_ariths take_bit_eq_mod mod_mod_cancel)

lemma delta_step:
  fixes n s :: u8
  shows "unat (ucast n - ucast s :: u16) = (if unat s \<le> unat n then unat n - unat s else unat n + 65536 - unat s)"
    and "ucast (ucast s + (ucast n - ucast s :: u16)) = n"
  by (simp_all add: unat_sub_if_size word_size)

text \<open>One side of the division: what is stored so far, and the number of its last option.\<close>

definition stored :: "u8 \<Rightarrow> o_coap_option list \<Rightarrow> (nat \<times> nat \<times> u8 \<times> ptr) list" where
  "stored cnt opts = map opt_view (take (unat cnt) opts)"

lemma stored_put:
  assumes "unat cnt < length opts" and "unat cnt < 255"
  shows "stored (cnt + 1) (opts[unat cnt := opt]) = stored cnt opts @ [opt_view opt]"
  using assms by (simp add: stored_def unat_u8_Suc)

lemma divide_options:
  assumes "unat (eu_e_cnt s) + length opts \<le> length (eu_e_options s)" "length (eu_e_options s) < 256"
    and "unat (eu_u_cnt s) + length opts \<le> length (eu_u_options s)" "length (eu_u_options s) < 256"
  shows "\<exists>s'. foldR e_u_option_extract opts s = Ok s' \<and>
    stored (eu_e_cnt s') (eu_e_options s') = stored (eu_e_cnt s) (eu_e_options s) @
      relative (unat (eu_e_sum s)) (filter protected (wrapped (unat (eu_nr s)) opts)) \<and>
    stored (eu_u_cnt s') (eu_u_options s') = stored (eu_u_cnt s) (eu_u_options s) @
      relative (unat (eu_u_sum s)) (filter (Not \<circ> protected) (wrapped (unat (eu_nr s)) opts)) \<and>
    unat (eu_e_cnt s') = unat (eu_e_cnt s) + length (filter protected (wrapped (unat (eu_nr s)) opts)) \<and>
    unat (eu_u_cnt s') = unat (eu_u_cnt s) + length (filter (Not \<circ> protected) (wrapped (unat (eu_nr s)) opts))"
  using assms
proof (induction opts arbitrary: s)
  case Nil
  then show ?case by simp
next
  case (Cons opt opts)
  define nr where "nr = (ucast (ucast (eu_nr s) + opt_delta opt) :: u8)"
  have nr: "unat nr = (unat (eu_nr s) + unat (opt_delta opt)) mod 256"
    unfolding nr_def by (rule number_step)
  have cls: "protected (unat nr, l, v) \<longleftrightarrow> is_class_e (ucast nr)" for l v
    by (simp add: protected_def of_nat_unat)
  have w: "wrapped (unat (eu_nr s)) (opt # opts) = (unat nr, opt_len opt, opt_value opt) # wrapped (unat nr) opts"
    by (simp add: nr)
  show ?case
  proof (cases "is_class_e (ucast nr)")
    case True
    let ?o = "\<lparr>opt_delta = ucast nr - ucast (eu_e_sum s), opt_len = opt_len opt, opt_value = opt_value opt, opt_number = nr\<rparr>"
    let ?s = "s\<lparr>eu_e_options := (eu_e_options s)[unat (eu_e_cnt s) := ?o], eu_e_cnt := eu_e_cnt s + 1,
        eu_e_len := eu_e_len s + 1 + extract_extra_bytes (opt_delta opt)
                    + extract_extra_bytes (ucast (opt_len opt)) + ucast (opt_len opt),
        eu_nr := nr, eu_e_sum := nr\<rparr>"
    have step: "e_u_option_extract opt s = Ok ?s"
      using True Cons.prems(1) delta_step(2)
      by (simp add: e_u_option_extract_def Let_def nr_def [symmetric])
    have cnt: "unat (eu_e_cnt s + 1) = unat (eu_e_cnt s) + 1"
      using Cons.prems(1,2) by (simp add: unat_u8_Suc)
    have put: "stored (eu_e_cnt s + 1) ((eu_e_options s)[unat (eu_e_cnt s) := ?o]) =
        stored (eu_e_cnt s) (eu_e_options s) @ relative (unat (eu_e_sum s)) [(unat nr, opt_len opt, opt_value opt)]"
      using Cons.prems(1,2) delta_step(1) [of nr "eu_e_sum s"] by (simp add: stored_put opt_view_def)
    have "unat (eu_e_cnt ?s) + length opts \<le> length (eu_e_options ?s)" "length (eu_e_options ?s) < 256"
      "unat (eu_u_cnt ?s) + length opts \<le> length (eu_u_options ?s)" "length (eu_u_options ?s) < 256"
      using Cons.prems cnt by simp_all
    from Cons.IH [OF this] step True put cnt cls show ?thesis unfolding w by simp
  next
    case False
    let ?o = "\<lparr>opt_delta = ucast nr - ucast (eu_u_sum s), opt_len = opt_len opt, opt_value = opt_value opt, opt_number = nr\<rparr>"
    let ?s = "s\<lparr>eu_u_options := (eu_u_options s)[unat (eu_u_cnt s) := ?o], eu_u_cnt := eu_u_cnt s + 1,
        eu_nr := nr, eu_u_sum := nr\<rparr>"
    have step: "e_u_option_extract opt s = Ok ?s"
      using False Cons.prems(3) delta_step(2)
      by (simp add: e_u_option_extract_def Let_def nr_def [symmetric])
    have cnt: "unat (eu_u_cnt s + 1) = unat (eu_u_cnt s) + 1"
      using Cons.prems(3,4) by (simp add: unat_u8_Suc)
    have put: "stored (eu_u_cnt s + 1) ((eu_u_options s)[unat (eu_u_cnt s) := ?o]) =
        stored (eu_u_cnt s) (eu_u_options s) @ relative (unat (eu_u_sum s)) [(unat nr, opt_len opt, opt_value opt)]"
      using Cons.prems(3,4) delta_step(1) [of nr "eu_u_sum s"] by (simp add: stored_put opt_view_def)
    have "unat (eu_e_cnt ?s) + length opts \<le> length (eu_e_options ?s)" "length (eu_e_options ?s) < 256"
      "unat (eu_u_cnt ?s) + length opts \<le> length (eu_u_options ?s)" "length (eu_u_options ?s) < 256"
      using Cons.prems cnt by simp_all
    from Cons.IH [OF this] step False put cnt cls show ?thesis unfolding w by simp
  qed
qed

lemma in_8_bits_id: "(\<forall>a \<in> set as. fst a < 256) \<Longrightarrow> map in_8_bits as = as"
  by (induction as) (simp_all add: in_8_bits_def)

text \<open>C24: The division of the options refines a filter, for every packet: with the numbers cut to 8
  bits, the E-options are those of class E and the U-options all others, in the old order, with
  length and value unchanged and the delta taken from the option before it on its side.  If all
  numbers are below 256 these are the true numbers.  A greater one is classified by its last 8 bits:
  an option 259 is taken for Uri-Host and stays unprotected.\<close>

theorem e_u_options_extract_refines_filter:
  assumes "unat (options_cnt pkt) \<le> length (options pkt)"
    and "unat (options_cnt pkt) \<le> length e" "length e < 256"
    and "unat (options_cnt pkt) \<le> length u" "length u < 256"
    and "numbers = absolute 0 (pkt_options pkt)"
  shows "\<exists>s. e_u_options_extract pkt e u = Ok s \<and>
    map opt_view (take (unat (eu_e_cnt s)) (eu_e_options s)) =
      relative 0 (filter protected (map in_8_bits numbers)) \<and>
    map opt_view (take (unat (eu_u_cnt s)) (eu_u_options s)) =
      relative 0 (filter (Not \<circ> protected) (map in_8_bits numbers)) \<and>
    unat (eu_e_cnt s) + unat (eu_u_cnt s) = unat (options_cnt pkt) \<and>
    ((\<forall>a \<in> set numbers. fst a < 256) \<longrightarrow> map in_8_bits numbers = numbers) \<and>
    (\<forall>l v. protected (259, l, v) \<and> \<not> protected (in_8_bits (259, l, v)))"
proof -
  let ?s = "\<lparr>eu_e_options = e, eu_e_cnt = 0, eu_e_len = 0, eu_u_options = u, eu_u_cnt = 0,
        eu_nr = 0, eu_e_sum = 0, eu_u_sum = 0\<rparr>"
  have run: "e_u_options_extract pkt e u = foldR e_u_option_extract (pkt_options pkt) ?s"
    using assms(1) by (simp add: e_u_options_extract_def for_arr_foldR pkt_options_def)
  have w: "map in_8_bits numbers = wrapped 0 (pkt_options pkt)"
    using wrapped_eq [of 0 "pkt_options pkt"] by (simp add: assms(6))
  have "length (pkt_options pkt) = unat (options_cnt pkt)" using assms(1) by (simp add: pkt_options_def)
  then have "\<exists>s. e_u_options_extract pkt e u = Ok s \<and>
    map opt_view (take (unat (eu_e_cnt s)) (eu_e_options s)) = relative 0 (filter protected (wrapped 0 (pkt_options pkt))) \<and>
    map opt_view (take (unat (eu_u_cnt s)) (eu_u_options s)) =
      relative 0 (filter (Not \<circ> protected) (wrapped 0 (pkt_options pkt))) \<and>
    unat (eu_e_cnt s) + unat (eu_u_cnt s) = unat (options_cnt pkt)"
    unfolding run
    using divide_options [of ?s "pkt_options pkt"] assms(2-5)
      sum_length_filter_compl [of protected "wrapped 0 (pkt_options pkt)"]
    by (auto simp: stored_def comp_def)
  moreover have "protected (259, l, v) \<and> \<not> protected (in_8_bits (259, l, v))" for l v
    by (simp add: protected_def in_8_bits_def is_class_e_def)
  ultimately show ?thesis unfolding w [symmetric] using in_8_bits_id [of numbers] by blast
qed

text \<open>An option as the uninitialised arrays of the examples hold it.\<close>

definition blank_option :: o_coap_option where
  "blank_option = \<lparr>opt_delta = 0, opt_len = 0, opt_value = None, opt_number = 0\<rparr>"

text \<open>A request with Uri-Host, Uri-Path and an option 259.\<close>

definition far_packet :: o_coap_packet where
  "far_packet = example_packet\<lparr>options_cnt := 3, options :=
     \<lparr>opt_delta = 3, opt_len = 1, opt_value = Some [0x61], opt_number = 3\<rparr> #
     \<lparr>opt_delta = 8, opt_len = 3, opt_value = Some [0x74, 0x76, 0x31], opt_number = 11\<rparr> #
     \<lparr>opt_delta = 248, opt_len = 1, opt_value = Some [7], opt_number = 3\<rparr> #
     replicate 17 \<lparr>opt_delta = 0, opt_len = 0, opt_value = None, opt_number = 0\<rparr>\<rparr>"

theorem e_u_options_extract_refines_filter_witness:
  "\<exists>s. e_u_options_extract far_packet (replicate 20 blank_option) (replicate 20 blank_option) = Ok s \<and>
    map opt_view (take (unat (eu_e_cnt s)) (eu_e_options s)) = [(11, 11, 3, Some [0x74, 0x76, 0x31])] \<and>
    map opt_view (take (unat (eu_u_cnt s)) (eu_u_options s)) = [(3, 3, 1, Some [0x61]), (0, 3, 1, Some [7])]"
proof -
  let ?n = "absolute 0 (pkt_options far_packet)"
  have h: "unat (options_cnt far_packet) \<le> length (options far_packet)" "unat (options_cnt far_packet) \<le> 20"
    "relative 0 (filter protected (map in_8_bits ?n)) = [(11, 11, 3, Some [0x74, 0x76, 0x31])]"
    "relative 0 (filter (Not \<circ> protected) (map in_8_bits ?n)) = [(3, 3, 1, Some [0x61]), (0, 3, 1, Some [7])]"
    by code_simp+
  show ?thesis
    using e_u_options_extract_refines_filter [of far_packet "replicate 20 blank_option" "replicate 20 blank_option" ?n]
      h(1,2) unfolding h(3,4) by auto
qed

end
