(* ===== verification/Oscore_Invariant.thy ===== *)
theory Oscore_Invariant
  imports Oscore_Unprotect
begin

text \<open>
  The security context stays well formed: its buffers keep the sizes the code relies on,
  whatever packets are protected or unprotected and however the calls end.  The only
  hypothesis is that the key derivation, which an application may replace, fills its output.
\<close>

section \<open>Well-formed contexts\<close>

definition ctx_wf :: "oscore_ctx \<Rightarrow> bool" where
  "ctx_wf c \<longleftrightarrow>
     length (rrc_nonce (rrc c)) = NONCE_LEN \<and> length (rrc_aad (rrc c)) \<le> MAX_AAD_LEN \<and>
     length (rrc_piv (rrc c)) \<le> MAX_PIV_LEN \<and> length (rrc_kid (rrc c)) \<le> MAX_KID_LEN \<and>
     length (rrc_kid_context (rrc c)) \<le> MAX_KID_CONTEXT_LEN \<and>
     length (cc_common_iv (cc c)) = COMMON_IV_LEN \<and>
     cc_aead_alg (cc c) = OSCORE_AES_CCM_16_64_128 \<and> cc_kdf (cc c) = OSCORE_SHA_256 \<and>
     length (sc_sender_key (sc c)) = SENDER_KEY_LEN \<and>
     length (rc_recipient_key (rc c)) = RECIPIENT_KEY_LEN \<and>
     length (rc_replay_window (rc c)) = REPLAY_WINDOW_LEN \<and>
     rc_replay_window_len (rc c) = of_nat REPLAY_WINDOW_LEN"

text \<open>The key derivation returns as many bytes as were asked for.\<close>

definition hkdf_fills :: "crypto \<Rightarrow> bool" where
  "hkdf_fills C \<longleftrightarrow>
     (\<forall>secret salt info n b. crypto_hkdf_sha_256 C secret salt info n = Ok b \<longrightarrow> length b = n)"

lemma hkdf_expand_loop_length:
  "hkdf_expand_loop T prk info out_len iterations i t out = Ok b \<Longrightarrow> length b = length out"
proof (induction T prk info out_len iterations i t out rule: hkdf_expand_loop.induct)
  case (1 T prk info out_len iterations i t out)
  note run = "1.prems" [unfolded hkdf_expand_loop.simps [of T prk info out_len iterations i t out]]
  show ?case
  proof (cases "ucast i \<le> iterations")
    case True
    with run obtain t' out' where "hkdf_expand_block T prk info i t = Ok t'"
      "write_mem out ((int (unat i) - 1) * 32)
         (take (if out_len < ucast i * 32 then unat (out_len mod 32) else 32) t') = Ok out'"
      "hkdf_expand_loop T prk info out_len iterations (i + 1) t' out' = Ok b"
      by (auto simp: res_simps)
    with "1.IH" [OF True this] show ?thesis by (simp add: write_mem_length)
  qed (use run in simp)
qed

text \<open>The wrapper of this repository does.\<close>

lemma tinycrypt_hkdf_fills: "hkdf_fills (tinycrypt_crypto T C)"
proof -
  have "length b = n" if "hkdf_sha_256 T secret salt info (replicate n 0) = Ok b"
    for secret salt info n b
    using that
    by (auto simp: hkdf_sha_256_def hkdf_expand_def Let_def res_simps
        dest: hkdf_expand_loop_length split: if_splits)
  then show ?thesis by (simp add: hkdf_fills_def tinycrypt_crypto_def)
qed

lemma derive_length: "hkdf_fills C \<Longrightarrow> derive C Z c i t n = Ok b \<Longrightarrow> length b = n"
  by (auto simp: derive_def res_simps hkdf_fills_def split: if_splits)

lemma copy_array_length: "copy_array n a = Ok bs \<Longrightarrow> length bs \<le> unat n"
  by (auto simp: copy_array_def res_simps word_le_nat_alt dest: read_mem_Ok_length)

section \<open>The steps of the context keep it\<close>

lemma derive_common_iv_keeps [keeping]: "hkdf_fills C \<Longrightarrow> keeps ctx_wf (derive_common_iv C Z)"
  unfolding derive_common_iv_def
  by (rule keeps_read_then) (auto simp: setS_def ctx_wf_def dest: derive_length)

lemma derive_sender_key_keeps [keeping]: "hkdf_fills C \<Longrightarrow> keeps ctx_wf (derive_sender_key C Z)"
  unfolding derive_sender_key_def
  by (rule keeps_read_then) (auto simp: setS_def ctx_wf_def dest: derive_length)

lemma derive_recipient_key_keeps [keeping]: "hkdf_fills C \<Longrightarrow> keeps ctx_wf (derive_recipient_key C Z)"
  unfolding derive_recipient_key_def
  by (rule keeps_read_then) (auto simp: setS_def ctx_wf_def dest: derive_length)

lemma context_update_ids_keeps [keeping]:
  "hkdf_fills C \<Longrightarrow> keeps ctx_wf (context_update_ids C Z kc)"
  unfolding context_update_ids_def
proof (rule keeps_lift_then)
  fix k assume C: "hkdf_fills C" and "copy_array (of_nat MAX_KID_CONTEXT_LEN) kc = Ok k"
  then have "length k \<le> 8" by (fastforce dest: copy_array_length)
  then have "keeps ctx_wf (setS (\<lambda>c. c\<lparr>rrc := (rrc c)\<lparr>rrc_kid_context := k\<rparr>\<rparr>))"
    by (intro keeps_setS) (auto simp: ctx_wf_def)
  moreover have "keeps ctx_wf (setS (\<lambda>c. c\<lparr>cc := (cc c)\<lparr>cc_id_context := ic\<rparr>\<rparr>))" for ic
    by (intro keeps_setS) (auto simp: ctx_wf_def)
  ultimately show "keeps ctx_wf (TRYS (setS (\<lambda>c. c\<lparr>rrc := (rrc c)\<lparr>rrc_kid_context := k\<rparr>\<rparr>)) (\<lambda>_.
     TRYS (getS (\<lambda>c. length (cc_id_context (cc c)))) (\<lambda>room.
     TRYS (liftS (copy_array (of_nat room) kc)) (\<lambda>ic.
     TRYS (setS (\<lambda>c. c\<lparr>cc := (cc c)\<lparr>cc_id_context := ic\<rparr>\<rparr>)) (\<lambda>_.
     TRYS (derive_common_iv C Z) (\<lambda>_.
     TRYS (derive_sender_key C Z) (\<lambda>_.
     derive_recipient_key C Z)))))))"
    using C by (intro keeping)
qed

lemma context_update_server_keeps [keeping]:
  "hkdf_fills C \<Longrightarrow> keeps ctx_wf (context_update_server C Z piv kc)"
  unfolding context_update_server_def
proof (rule keeps_lift_then)
  fix p assume C: "hkdf_fills C" and "copy_array (of_nat MAX_PIV_LEN) piv = Ok p"
  then have "length p \<le> 5" by (fastforce dest: copy_array_length)
  then have "keeps ctx_wf (setS (\<lambda>c. c\<lparr>rrc := (rrc c)\<lparr>rrc_piv := p\<rparr>\<rparr>))"
    by (intro keeps_setS) (auto simp: ctx_wf_def)
  then show "keeps ctx_wf (TRYS (setS (\<lambda>c. c\<lparr>rrc := (rrc c)\<lparr>rrc_piv := p\<rparr>\<rparr>)) (\<lambda>_.
     TRYS (\<lambda>c. liftS (array_equals (array_of (cc_id_context (cc c))) kc) c) (\<lambda>eq.
     if \<not> eq then context_update_ids C Z kc else liftS (Ok ()))))"
    using C by (intro keeping)
qed

lemma create_nonce_length: "create_nonce i p iv n = Ok n' \<Longrightarrow> length n' = length n"
proof -
  have "length n' = length n" if "xor_into n iv = Ok n'" for n n'
  proof -
    have "length (fst s') = length n"
      if "foldR (\<lambda>b (n, i). TRY (arr_get n i) (\<lambda>x. TRY (arr_set n i (x XOR b)) (\<lambda>n'. Ok (n', Suc i))))
            iv (n, 0) = Ok s'" for s'
      using that
      by (rule foldR_invariant [where P = "\<lambda>s. length (fst s) = length n"])
        (auto simp: res_simps arr_set_def split: if_splits)
    with that show ?thesis
      by (auto simp: xor_into_def res_simps for_arr_foldR)
  qed
  then show "create_nonce i p iv n = Ok n' \<Longrightarrow> length n' = length n"
    by (auto simp: create_nonce_def Let_def res_simps arr_set_def split: if_splits dest!: memcpy_s_length)
qed

lemma context_update_nonce_keeps [keeping]: "keeps ctx_wf context_update_nonce"
  unfolding context_update_nonce_def
  by (rule keeps_read_then) (auto simp: setS_def ctx_wf_def dest: create_nonce_length)

text \<open>The array the AAD goes to never grows.\<close>

lemma create_aad_length: "length (snd (create_aad Z opts n alg kid piv out)) \<le> length out"
proof -
  have "keeps (\<lambda>s. length s \<le> length out) (create_aad Z opts n alg kid piv)"
    unfolding create_aad_def Let_def
    by (intro keeping keepsI)
      (auto simp: cbor_encode_aad_array_def cbor_entry_def cbor_written_def Let_def
        split: option.splits prod.splits if_splits)
  from keepsD [OF this, of out] show ?thesis by simp
qed

lemma context_update_aad_keeps [keeping]: "keeps ctx_wf (context_update_aad Z opts n)"
proof (rule keepsI)
  fix c assume wf: "ctx_wf c"
  have "length (snd (create_aad Z opts n (cc_aead_alg (cc c)) (rrc_kid (rrc c)) (rrc_piv (rrc c))
      (rrc_aad (rrc c)))) \<le> length (rrc_aad (rrc c))" by (rule create_aad_length)
  with wf show "ctx_wf (snd (context_update_aad Z opts n c))"
    by (auto simp: context_update_aad_def ctx_wf_def split: prod.splits)
qed

lemma context_update_keeps [keeping]:
  "hkdf_fills C \<Longrightarrow> keeps ctx_wf (context_update C Z dev opts n piv kc)"
  unfolding context_update_def by (intro keeping)

section \<open>Initialisation, protection and unprotection keep it\<close>

lemma sender_seq_num2piv_length: "sender_seq_num2piv ssn = Ok p \<Longrightarrow> length p \<le> 5"
proof -
  have "sender_seq_num2piv_loop n bs = Ok p \<Longrightarrow> length p \<le> 5" for n bs
    by (induction n bs rule: sender_seq_num2piv_loop.induct)
      (auto split: if_splits dest!: copy_array_length)
  then show "sender_seq_num2piv ssn = Ok p \<Longrightarrow> length p \<le> 5" by (simp add: sender_seq_num2piv_def)
qed

text \<open>A value that is checked before it is stored.\<close>

lemma keeps_set_lifted:
  assumes "\<And>a s. r = Ok a \<Longrightarrow> I s \<Longrightarrow> I (u a s)" and "\<And>a. keeps I (f a)"
  shows "keeps I (TRYS (liftS r) (\<lambda>a. TRYS (setS (u a)) (\<lambda>_. f a)))"
  by (intro keeps_lift_then keeps_TRYS keeps_setS assms)

lemma protect_option_keeps [keeping]:
  assumes C: "hkdf_fills C"
  shows "keeps ctx_wf (protect_option C Z pkt)"
proof -
  have seq: "keeps ctx_wf (setS (\<lambda>c. c\<lparr>sc := (sc c)\<lparr>sc_sender_seq_num := n\<rparr>\<rparr>))" for n
    by (rule keeps_setS) (simp add: ctx_wf_def)
  have piv: "sender_seq_num2piv n = Ok p \<Longrightarrow> ctx_wf c \<Longrightarrow> ctx_wf (c\<lparr>rrc := (rrc c)\<lparr>rrc_piv := p\<rparr>\<rparr>)"
    for n p c by (auto simp: ctx_wf_def dest: sender_seq_num2piv_length)
  show ?thesis
    unfolding protect_option_def Let_def
    by (rule keeps_if, rule keeps_TRYS [OF keeps_getS], rule keeps_TRYS [OF seq],
        rule keeps_set_lifted, erule (1) piv) (intro keeping C)+
qed

lemma coap2oscore_keeps [keeping]:
  "hkdf_fills C \<Longrightarrow> keeps ctx_wf (coap2oscore C Z L inb out out_len)"
  unfolding coap2oscore_def protect_packet_def protect_to_packet_def Let_def by (intro keeping)

lemma update_replay_window_length:
  "update_replay_window ssn win len = Ok win' \<Longrightarrow> length win' = length win"
proof -
  have shift: "shift_left_loop k j win = Ok w \<Longrightarrow> length w = length win" for k j win w
    by (induction k j win rule: shift_left_loop.induct) (auto simp: res_simps arr_set_def split: if_splits)
  have "insert_sender_seq_number s win p = Ok w \<Longrightarrow> length w = length win" for s win p w
    by (auto simp: insert_sender_seq_number_def res_simps arr_set_def split: if_splits dest!: shift)
  then have "update_replay_window_loop s f k i win = Ok w \<Longrightarrow> length w = length win" for s f k i win w
    by (induction s f k i win rule: update_replay_window_loop.induct) (auto simp: res_simps split: if_splits)
  then show "update_replay_window ssn win len = Ok win' \<Longrightarrow> length win' = length win"
    by (simp add: update_replay_window_def)
qed

lemma unprotect_update_window_keeps [keeping]: "keeps ctx_wf (unprotect_update_window pkt opt)"
proof -
  have "keeps ctx_wf (TRYS (\<lambda>c. liftS (update_replay_window n (rc_replay_window (rc c))
      (rc_replay_window_len (rc c))) c) (\<lambda>win. setS (\<lambda>c. c\<lparr>rc := (rc c)\<lparr>rc_replay_window := win\<rparr>\<rparr>)))" for n
    by (rule keepsI)
      (auto simp: TRYS_def liftS_def setS_def ctx_wf_def dest: update_replay_window_length split: res.split)
  then show ?thesis
    unfolding unprotect_update_window_def by (intro keeps_if keeps_liftS keeps_lift_then)
qed

lemma oscore2coap_keeps [keeping]:
  "hkdf_fills C \<Longrightarrow> keeps ctx_wf (oscore2coap C Z L inb out out_len)"
  unfolding oscore2coap_def unprotect_packet_def unprotect_request_def Let_def case_prod_unfold
  by (intro keeping)

text \<open>The derivations do not read the Common IV.\<close>

lemma derive_common_iv_update [simp]: "derive C Z (c\<lparr>cc_common_iv := iv\<rparr>) = derive C Z c"
  by (intro ext) (simp add: derive_def cong: if_cong)

definition init_common :: "oscore_init_params \<Rightarrow> common_context" where
  "init_common p = \<lparr>cc_aead_alg = OSCORE_AES_CCM_16_64_128, cc_kdf = OSCORE_SHA_256,
     cc_master_secret = p_master_secret p, cc_master_salt = p_master_salt p,
     cc_id_context = p_id_context p, cc_common_iv = replicate COMMON_IV_LEN 0\<rparr>"

text \<open>A derivation followed by the rest of the function.\<close>

lemma derive_then:
  "TRYS (derive_common_iv C Z) f c =
     TRYS (liftS (derive C Z (cc c) [] IV (length (cc_common_iv (cc c)))))
       (\<lambda>iv c. f () (c\<lparr>cc := (cc c)\<lparr>cc_common_iv := iv\<rparr>\<rparr>)) c"
  "TRYS (derive_sender_key C Z) f c =
     TRYS (liftS (derive C Z (cc c) (sc_sender_id (sc c)) KEY (length (sc_sender_key (sc c)))))
       (\<lambda>k c. f () (c\<lparr>sc := (sc c)\<lparr>sc_sender_key := k\<rparr>\<rparr>)) c"
  "TRYS (derive_recipient_key C Z) f c =
     TRYS (liftS (derive C Z (cc c) (rc_recipient_id (rc c)) KEY (length (rc_recipient_key (rc c)))))
       (\<lambda>k c. f () (c\<lparr>rc := (rc c)\<lparr>rc_recipient_key := k\<rparr>\<rparr>)) c"
  by (simp_all add: derive_common_iv_def derive_sender_key_def derive_recipient_key_def
      TRYS_def liftS_def setS_def split: res.split)

lemma TRYS_lift_eq_Ok:
  "TRYS (liftS r) f c = (Ok u, c') \<longleftrightarrow> (\<exists>a. r = Ok a \<and> f a c = (Ok u, c'))"
  by (simp add: TRYS_liftS split: res.split)

text \<open>What a successful initialisation leaves behind, whatever the structure held before.\<close>

lemma oscore_context_init_Ok:
  assumes "oscore_context_init C Z p c0 = (Ok u, c)"
  obtains iv rk sk kc kid where
    "derive C Z (init_common p) [] IV COMMON_IV_LEN = Ok iv"
    "derive C Z (init_common p) (p_recipient_id p) KEY RECIPIENT_KEY_LEN = Ok rk"
    "derive C Z (init_common p) (p_sender_id p) KEY SENDER_KEY_LEN = Ok sk"
    "p_dev_type p = CLIENT \<Longrightarrow>
       copy_array (of_nat MAX_KID_CONTEXT_LEN) (array_of (p_id_context p)) = Ok kc"
    "p_dev_type p = SERVER \<Longrightarrow> kc = replicate MAX_KID_CONTEXT_LEN 0"
    "copy_array (of_nat MAX_KID_LEN)
       (array_of (if p_dev_type p = CLIENT then p_sender_id p else p_recipient_id p)) = Ok kid"
    "c = \<lparr>rrc = \<lparr>rrc_nonce = replicate NONCE_LEN 0, rrc_aad = replicate MAX_AAD_LEN 0,
                 rrc_piv = replicate MAX_PIV_LEN 0, rrc_kid_context = kc, rrc_kid = kid\<rparr>,
          cc = (init_common p)\<lparr>cc_common_iv := iv\<rparr>,
          sc = \<lparr>sc_sender_id = p_sender_id p, sc_sender_key = sk, sc_sender_seq_num = 0\<rparr>,
          rc = \<lparr>rc_recipient_id = p_recipient_id p, rc_recipient_key = rk,
                rc_replay_window = replicate REPLAY_WINDOW_LEN 0,
                rc_replay_window_len = of_nat REPLAY_WINDOW_LEN\<rparr>\<rparr>"
    "p_aead_alg p = OSCORE_AES_CCM_16_64_128" "p_hkdf p = OSCORE_SHA_256"
proof -
  note exec = TRYS_setS TRYS_lift_eq_Ok derive_then
  have cc_all: "k\<lparr>cc_aead_alg := 10, cc_kdf := 0, cc_master_secret := p_master_secret p,
      cc_master_salt := p_master_salt p, cc_id_context := p_id_context p, cc_common_iv := iv\<rparr>
      = (init_common p)\<lparr>cc_common_iv := iv\<rparr>" for k iv
    by (cases k) (simp add: init_common_def)
  have derived: "derive C Z (k\<lparr>cc_aead_alg := 10, cc_kdf := 0, cc_master_secret := p_master_secret p,
      cc_master_salt := p_master_salt p, cc_id_context := p_id_context p\<rparr>) = derive C Z (init_common p)"
    for k by (metis cc_all derive_common_iv_update)
  have rc_all: "w\<lparr>rc_replay_window_len := l, rc_replay_window := v, rc_recipient_id := i, rc_recipient_key := y\<rparr>
      = \<lparr>rc_recipient_id = i, rc_recipient_key = y, rc_replay_window = v, rc_replay_window_len = l\<rparr>"
    for w l v i y by (cases w) simp
  have sc_all: "s\<lparr>sc_sender_id := i, sc_sender_key := y, sc_sender_seq_num := n\<rparr>
      = \<lparr>sc_sender_id = i, sc_sender_key = y, sc_sender_seq_num = n\<rparr>"
    for s i y n by (cases s) simp
  have ctx_all: "c\<lparr>cc := x1, rc := x2, sc := x3, rrc := x4\<rparr> = \<lparr>rrc = x4, cc = x1, sc = x3, rc = x2\<rparr>"
    for c x1 x2 x3 x4 by (cases c) simp
  have "p_dev_type p = SERVER \<or> p_dev_type p = CLIENT" by (cases "p_dev_type p") auto
  with assms show thesis
    unfolding oscore_context_init_def
    apply (simp only: exec)
    apply (elim exE conjE)
    apply (simp add: derived split: if_splits)
     apply (simp_all only: exec step_eq_Ok)
     apply (elim exE conjE, rule that; (assumption | simp add: cc_all rc_all sc_all ctx_all))
    apply (elim exE conjE, rule that; (assumption | simp add: cc_all rc_all sc_all ctx_all))
    done
qed

lemma oscore_context_init_wf:
  assumes C: "hkdf_fills C" and run: "oscore_context_init C Z p c0 = (Ok u, c)"
  shows "ctx_wf c"
  using run
proof (rule oscore_context_init_Ok, goal_cases)
  case (1 iv rk sk kc kid)
  then have "length kid \<le> 7" "length kc \<le> 8"
    by (cases "p_dev_type p"; fastforce dest: copy_array_length)+
  moreover from 1 have "length iv = 13" "length rk = 16" "length sk = 16"
    using derive_length [OF C] by simp_all
  ultimately show ?case using 1 by (simp add: ctx_wf_def init_common_def)
qed

section \<open>Reachable contexts\<close>

text \<open>A context lives through one successful initialisation and any sequence of calls of the
  two library functions, on any packets, buffers and stack contents, however the calls end.
  A call that ends undefined leaves the last context before the undefined operation.\<close>

inductive context_reachable :: "crypto \<Rightarrow> 'z zcbor \<Rightarrow> oscore_ctx \<Rightarrow> bool" for C Z where
  started: "oscore_context_init C Z params c0 = (Ok u, c) \<Longrightarrow> context_reachable C Z c"
| protected_packet: "context_reachable C Z c \<Longrightarrow> coap2oscore C Z L inb out out_len c = (r, c') \<Longrightarrow>
    context_reachable C Z c'"
| unprotected_packet: "context_reachable C Z c \<Longrightarrow> oscore2coap C Z L inb out out_len c = (r, c') \<Longrightarrow>
    context_reachable C Z c'"

text \<open>Wrappers for the examples: encryption appends copies of the sum of key, nonce, associated
  data and plaintext as the tag, decryption checks them; keys are derived as constants.\<close>

definition example_tag :: "nat \<Rightarrow> bytes \<Rightarrow> bytes \<Rightarrow> bytes \<Rightarrow> bytes \<Rightarrow> bytes" where
  "example_tag n key nonce aad plain = replicate n (fold (+) (key @ nonce @ aad @ plain) 0)"

definition example_aead ::
    "aes_operation \<Rightarrow> bytes \<Rightarrow> bytes \<Rightarrow> bytes \<Rightarrow> bytes \<Rightarrow> u32 \<Rightarrow> u32 \<Rightarrow> (bytes \<times> bytes) res" where
  "example_aead op inb key nonce aad out_len tag_len =
     (if op = ENCRYPT then
        let tag = example_tag (unat tag_len) key nonce aad inb in Ok (inb @ tag, tag)
      else let plain = take (unat out_len) inb in
        if drop (unat out_len) inb = example_tag (unat tag_len) key nonce aad plain then Ok (plain, [])
        else Fail unexpected_result_from_ext_lib)"

definition example_crypto :: crypto where
  "example_crypto = \<lparr>
     crypto_aead = example_aead,
     crypto_sign = (\<lambda>alg sk pk msg. Ok (replicate 64 (fold (+) (pk @ msg) 0))),
     crypto_verify = (\<lambda>alg pk msg sgn. Ok (sgn = replicate 64 (fold (+) (pk @ msg) 0))),
     crypto_hkdf_extract = (\<lambda>alg salt ikm. Ok (replicate 32 (fold (+) (salt @ ikm) 0))),
     crypto_hkdf_expand = (\<lambda>alg prk info n. Ok (replicate n (fold (+) (prk @ info) 0))),
     crypto_hkdf_sha_256 = (\<lambda>secret salt info n. Ok (replicate n (fold (+) (secret @ salt @ info) 0))),
     crypto_shared_secret_derive = (\<lambda>alg sk pk. Ok (map2 (+) sk pk)),
     crypto_hash = (\<lambda>alg inb. Ok (replicate 32 (fold (+) inb 0)))\<rparr>"

lemma example_hkdf_fills: "hkdf_fills example_crypto"
  by (auto simp: hkdf_fills_def example_crypto_def)

definition example_params :: oscore_init_params where
  "example_params = \<lparr>p_dev_type = CLIENT, p_master_secret = [1, 2, 3, 4, 5, 6, 7, 8, 9, 10, 11, 12, 13, 14, 15, 16],
     p_sender_id = [], p_recipient_id = [1], p_id_context = [0x37, 0xcb],
     p_master_salt = [0x9e, 0x7c], p_aead_alg = 10, p_hkdf = 0\<rparr>"

definition blank_ctx :: oscore_ctx where
  "blank_ctx = \<lparr>
     rrc = \<lparr>rrc_nonce = [], rrc_aad = [], rrc_piv = [], rrc_kid_context = [], rrc_kid = []\<rparr>,
     cc = \<lparr>cc_aead_alg = 0, cc_kdf = 0, cc_master_secret = [], cc_master_salt = [],
           cc_id_context = [], cc_common_iv = []\<rparr>,
     sc = \<lparr>sc_sender_id = [], sc_sender_key = [], sc_sender_seq_num = 0\<rparr>,
     rc = \<lparr>rc_recipient_id = [], rc_recipient_key = [], rc_replay_window = [],
           rc_replay_window_len = 0\<rparr>\<rparr>"

section \<open>The property\<close>

text \<open>C10: Every context that initialisation and the two library functions can lead to is well
  formed: nonce, keys, Common IV and replay window keep their sizes, Partial IV, kid and kid
  context stay within theirs, and the AAD within its buffer.\<close>

theorem reachable_context_wf:
  assumes "context_reachable C Z c" and C: "hkdf_fills C"
  shows "ctx_wf c"
  using assms(1)
proof induction
  case (started params c0 u c)
  with C show ?case by (rule oscore_context_init_wf)
next
  case (protected_packet c L inb out out_len r c')
  with keepsD [OF coap2oscore_keeps [OF C], of c Z L inb out out_len] show ?case by simp
next
  case (unprotected_packet c L inb out out_len r c')
  with keepsD [OF oscore2coap_keeps [OF C], of c Z L inb out out_len] show ?case by simp
qed

theorem reachable_context_wf_witness:
  "ctx_wf (snd (oscore_context_init example_crypto rfc8949_zcbor example_params blank_ctx))"
proof -
  let ?run = "oscore_context_init example_crypto rfc8949_zcbor example_params blank_ctx"
  have "fst ?run = Ok ()" by code_simp
  then have "?run = (Ok (), snd ?run)" by (simp add: prod_eq_iff)
  then have "context_reachable example_crypto rfc8949_zcbor (snd ?run)"
    by (rule context_reachable.started)
  then show ?thesis using example_hkdf_fills by (rule reachable_context_wf)
qed

end
