(* ===== verification/Oscore_Wire.thy ===== *)
theory Oscore_Wire
  imports Oscore_Division Oscore_Invariant Oscore_Nonce
begin

text \<open>
  The packet that \<open>coap2oscore\<close> sends: the Partial IV its OSCORE option carries, and the ciphertext
  in its payload with the key and the nonce it was made with.
\<close>

section \<open>The packet that is serialised\<close>

definition emitted :: "crypto \<Rightarrow> 'z zcbor \<Rightarrow> protect_locals \<Rightarrow> bytes \<Rightarrow> (oscore_ctx, o_coap_packet) act" where
  "emitted C Z L inb = TRYS (liftS (buf2coap (pl_o_coap_pkt L) inb)) (protect_to_packet C Z L)"

text \<open>The packet a call of \<open>coap2oscore\<close> protects as a request, and whether its options already have
  the number 9 of the OSCORE option.\<close>

definition protects_request :: "protect_locals \<Rightarrow> bytes \<Rightarrow> bool" where
  "protects_request L inb = (case buf2coap (pl_o_coap_pkt L) inb of
     Ok pkt \<Rightarrow> is_request pkt \<and> \<not> (CODE_EMPTY = hdr_code (header pkt) \<and> TYPE_ACK = hdr_type (header pkt))
   | _ \<Rightarrow> False)"

definition has_oscore_option :: "protect_locals \<Rightarrow> bytes \<Rightarrow> bool" where
  "has_oscore_option L inb = (case buf2coap (pl_o_coap_pkt L) inb of
     Ok pkt \<Rightarrow> 9 \<in> fst ` set (map in_8_bits (absolute 0 (pkt_options pkt)))
   | _ \<Rightarrow> False)"

text \<open>The Partial IV in the OSCORE option of a packet that has one such option.\<close>

definition no_oscore_fields :: compressed_oscore_option where
  "no_oscore_fields = \<lparr>co_h = 0, co_k = 0, co_n = 0, co_piv = NULL_ARRAY, co_kid_context = NULL_ARRAY,
     co_kid = NULL_ARRAY\<rparr>"

definition option_piv :: "o_coap_option \<Rightarrow> bytes option" where
  "option_piv opt = (case parse_oscore_value opt no_oscore_fields of
     Ok co \<Rightarrow> Some (mem_bytes (ba_ptr (co_piv co)) (unat (ba_len (co_piv co)))) | _ \<Rightarrow> None)"

definition carried_piv :: "o_coap_packet \<Rightarrow> bytes option" where
  "carried_piv p = (case filter (\<lambda>opt. opt_number opt = 9) (pkt_options p) of
     [opt] \<Rightarrow> option_piv opt | _ \<Rightarrow> None)"

text \<open>A buffer with a ciphertext at its front and the tag behind the place of \<open>n\<close> bytes of ciphertext.\<close>

definition holds_ciphertext :: "bytes \<Rightarrow> nat \<Rightarrow> bytes \<Rightarrow> bytes \<Rightarrow> bool" where
  "holds_ciphertext buf n ct tag \<longleftrightarrow>
     take (min n (length ct)) buf = take n ct \<and> take (length tag) (drop n buf) = tag"

section \<open>The options of the packet\<close>

lemma extract_u_step:
  assumes "e_u_option_extract opt s = Ok s1"
  shows "unat (eu_nr s1) = (unat (eu_nr s) + unat (opt_delta opt)) mod 256"
    and "eu_u_cnt s1 = eu_u_cnt s \<and> eu_u_options s1 = eu_u_options s \<or>
      unat (eu_u_cnt s) < length (eu_u_options s) \<and> eu_u_cnt s1 = eu_u_cnt s + 1 \<and>
      (\<exists>new. opt_number new = eu_nr s1 \<and> eu_u_options s1 = (eu_u_options s)[unat (eu_u_cnt s) := new])"
proof -
  define nr where "nr = (ucast (ucast (eu_nr s) + opt_delta opt) :: u8)"
  have nr1: "eu_nr s1 = nr"
    using assms by (auto simp: e_u_option_extract_def Let_def TRY_eq_Ok nr_def split: if_splits)
  then show "unat (eu_nr s1) = (unat (eu_nr s) + unat (opt_delta opt)) mod 256"
    by (simp only: number_step nr_def)
  define new where "new = \<lparr>opt_delta = ucast nr - ucast (eu_u_sum s), opt_len = opt_len opt,
    opt_value = opt_value opt, opt_number = nr\<rparr>"
  have "eu_u_cnt s1 = eu_u_cnt s \<and> eu_u_options s1 = eu_u_options s \<or>
      unat (eu_u_cnt s) < length (eu_u_options s) \<and> eu_u_cnt s1 = eu_u_cnt s + 1 \<and>
      eu_u_options s1 = (eu_u_options s)[unat (eu_u_cnt s) := new]"
    using assms by (auto simp: e_u_option_extract_def Let_def TRY_eq_Ok arr_set_def new_def
      simp flip: nr_def split: if_splits)
  moreover have "opt_number new = eu_nr s1" by (simp add: nr1 new_def)
  ultimately show "eu_u_cnt s1 = eu_u_cnt s \<and> eu_u_options s1 = eu_u_options s \<or>
      unat (eu_u_cnt s) < length (eu_u_options s) \<and> eu_u_cnt s1 = eu_u_cnt s + 1 \<and>
      (\<exists>new. opt_number new = eu_nr s1 \<and> eu_u_options s1 = (eu_u_options s)[unat (eu_u_cnt s) := new])"
    by blast
qed

lemma u_numbers:
  assumes "foldR e_u_option_extract opts s = Ok s'" and "9 \<notin> fst ` set (wrapped (unat (eu_nr s)) opts)"
    and "\<forall>opt \<in> set (take (unat (eu_u_cnt s)) (eu_u_options s)). opt_number opt \<noteq> 9"
  shows "\<forall>opt \<in> set (take (unat (eu_u_cnt s')) (eu_u_options s')). opt_number opt \<noteq> 9"
  using assms
proof (induction opts arbitrary: s)
  case (Cons opt opts)
  from Cons.prems(1) obtain s1 where step: "e_u_option_extract opt s = Ok s1"
    and rest: "foldR e_u_option_extract opts s1 = Ok s'" by (auto simp: TRY_eq_Ok)
  note nr = extract_u_step(1) [OF step]
  have not9: "eu_nr s1 \<noteq> 9"
  proof
    assume "eu_nr s1 = 9"
    with nr have "(unat (eu_nr s) + unat (opt_delta opt)) mod 256 = 9" by simp
    with Cons.prems(2) show False by simp
  qed
  have put: "\<forall>x \<in> set (take (unat (cnt + 1)) (u[unat cnt := new])). opt_number x \<noteq> 9"
    if "unat cnt < length u" "opt_number new = eu_nr s1" "\<forall>x \<in> set (take (unat cnt) u). opt_number x \<noteq> 9"
    for cnt :: u8 and u new
  proof (cases "unat cnt < 255")
    case True
    with that not9 show ?thesis by (simp add: unat_u8_Suc take_Suc_conv_app_nth)
  next
    case False
    with u8_nat_less [of cnt] have "unat cnt = 255" by simp
    then have "cnt + 1 = 0" by (simp add: word_unat_eq_iff unat_word_ariths)
    then show ?thesis by simp
  qed
  have "\<forall>x \<in> set (take (unat (eu_u_cnt s1)) (eu_u_options s1)). opt_number x \<noteq> 9"
    using extract_u_step(2) [OF step] Cons.prems(3) put [OF _ _ Cons.prems(3)] by metis
  moreover have "9 \<notin> fst ` set (wrapped (unat (eu_nr s1)) opts)"
    using Cons.prems(2) nr by simp
  ultimately show ?case using Cons.IH [OF rest] by blast
qed simp

lemma oscore_opt_pos_bound:
  "oscore_opt_pos_loop k i u dflt = Ok pos \<Longrightarrow> pos = dflt \<or> pos < i + k"
  by (induction k arbitrary: i) (fastforce simp: TRY_eq_Ok split: if_splits)+

text \<open>Of the options that are put together exactly one is the OSCORE option, if no U-option has its
  number.\<close>

lemma one_oscore_option:
  assumes "oscore_pkg_options_loop k i upos nsum pos osc u out = Ok out'"
    and "i + k = Suc cnt" "upos = (if pos < i then i - 1 else i)" "pos \<le> cnt"
    and "\<forall>opt \<in> set (take cnt u). opt_number opt \<noteq> 9" "opt_number osc = 9"
  shows "length out' = length out \<and> (k = 0 \<or> i + k \<le> length out) \<and>
    (\<exists>d. filter (\<lambda>opt. opt_number opt = 9) (take (i + k) out') =
      filter (\<lambda>opt. opt_number opt = 9) (take i out) @ (if i \<le> pos then [osc\<lparr>opt_delta := d\<rparr>] else []))"
  using assms(1-3)
proof (induction k arbitrary: i upos nsum out)
  case 0
  with assms(4) show ?case by simp
next
  case (Suc k)
  from Suc.prems(1) obtain opt d out1 nsum1 where opt: "(if i = pos then Ok osc else arr_get u upos) = Ok opt"
    and put: "arr_set out i (opt\<lparr>opt_delta := d\<rparr>) = Ok out1"
    and rest: "oscore_pkg_options_loop k (Suc i) (if i = pos then upos else Suc upos) nsum1 pos osc u out1 = Ok out'"
    by (auto simp: TRY_eq_Ok Let_def)
  have i: "i < length out" "out1 = out[i := opt\<lparr>opt_delta := d\<rparr>]"
    using put by (auto simp: arr_set_def split: if_splits)
  have number: "opt_number opt = 9 \<longleftrightarrow> i = pos" "i = pos \<Longrightarrow> opt = osc"
  proof -
    show "i = pos \<Longrightarrow> opt = osc" using opt by simp
    moreover have "opt_number opt \<noteq> 9" if "i \<noteq> pos"
    proof -
      have "upos < cnt" using Suc.prems(2,3) assms(4) that by auto
      moreover have "upos < length u" "opt = u ! upos" using opt that by (auto simp: arr_get_def split: if_splits)
      ultimately have "opt \<in> set (take cnt u)" by (auto simp: in_set_conv_nth)
      with assms(5) show ?thesis by blast
    qed
    ultimately show "opt_number opt = 9 \<longleftrightarrow> i = pos" using assms(6) by blast
  qed
  have up: "(if i = pos then upos else Suc upos) = (if pos < Suc i then Suc i - 1 else Suc i)"
    using Suc.prems(3) by auto
  have "Suc i + k = Suc cnt" using Suc.prems(2) by simp
  from Suc.IH [OF rest this up] obtain d' where ih: "length out' = length out1" "k = 0 \<or> Suc i + k \<le> length out1"
    "filter (\<lambda>opt. opt_number opt = 9) (take (Suc i + k) out') =
      filter (\<lambda>opt. opt_number opt = 9) (take (Suc i) out1) @ (if Suc i \<le> pos then [osc\<lparr>opt_delta := d'\<rparr>] else [])"
    by blast
  have "take (Suc i) out1 = take i out @ [opt\<lparr>opt_delta := d\<rparr>]"
    using i by (simp add: take_Suc_conv_app_nth)
  with ih i number show ?case by (cases "i = pos") (auto intro: exI [of _ d] exI [of _ d'])
qed

lemma oscore_pkg_generate_Ok:
  assumes "oscore_pkg_generate pkt out u u_cnt ct ct_len osc = Ok p"
    and "\<forall>opt \<in> set (take (unat u_cnt) u). opt_number opt \<noteq> 9" "opt_number osc = 9"
    and "length (options out) = MAX_OPTION_COUNT"
  shows "\<exists>d. filter (\<lambda>opt. opt_number opt = 9) (pkt_options p) = [osc\<lparr>opt_delta := d\<rparr>]"
proof -
  from assms(1) obtain pos opts where pos: "oscore_opt_pos_loop (unat u_cnt) 0 u (unat u_cnt) = Ok pos"
    and opts: "oscore_pkg_options_loop (Suc (unat u_cnt)) 0 0 0 pos osc u (options out) = Ok opts"
    and p: "options_cnt p = 1 + u_cnt" "options p = opts"
    by (auto simp: oscore_pkg_generate_def TRY_eq_Ok Let_def)
  have le: "pos \<le> unat u_cnt" using oscore_opt_pos_bound [OF pos] by auto
  from one_oscore_option [OF opts _ _ le assms(2,3)] assms(4) obtain d where "Suc (unat u_cnt) \<le> 20"
    "filter (\<lambda>opt. opt_number opt = 9) (take (Suc (unat u_cnt)) opts) = [osc\<lparr>opt_delta := d\<rparr>]" by auto
  moreover from this(1) have "unat (1 + u_cnt) = Suc (unat u_cnt)"
    using unat_u8_Suc [of u_cnt] by (simp add: add.commute)
  ultimately show ?thesis by (auto simp: pkt_options_def p)
qed

section \<open>The OSCORE option of a request\<close>

text \<open>Protecting a request takes the next number, then updates the context with its Partial
  IV and generates the option.\<close>

definition request_option ::
    "crypto \<Rightarrow> 'z zcbor \<Rightarrow> o_coap_packet \<Rightarrow> bytes \<Rightarrow> (oscore_ctx, o_coap_option) act" where
  "request_option C Z pkt piv =
     TRYS (setS (\<lambda>c. c\<lparr>rrc := (rrc c)\<lparr>rrc_piv := piv\<rparr>\<rparr>)) (\<lambda>_.
     TRYS (context_update C Z CLIENT (options pkt) (ucast (options_cnt pkt)) NULL_ARRAY NULL_ARRAY) (\<lambda>_.
     TRYS (getS rrc) (\<lambda>r.
     let len = get_oscore_opt_val_len (rrc_piv r) (rrc_kid r) (rrc_kid_context r) in
     liftS (if of_nat OSCORE_OPT_VALUE_LEN < len then Fail oscore_valuelen_to_long_error
            else oscore_option_generate (rrc_piv r) (rrc_kid r) (rrc_kid_context r) len))))"

lemma protect_option_run:
  "protect_option C Z pkt c =
    (if is_request pkt
     then TRYS (liftS (sender_seq_num2piv (sc_sender_seq_num (sc c)))) (request_option C Z pkt)
            (c\<lparr>sc := (sc c)\<lparr>sc_sender_seq_num := sc_sender_seq_num (sc c) + 1\<rparr>\<rparr>)
     else (Ok \<lparr>opt_delta = 0, opt_len = 0, opt_value = None, opt_number = ucast COAP_OPTION_OSCORE\<rparr>, c))"
  by (simp add: protect_option_def is_request_def request_option_def [abs_def] TRYS_getS TRYS_setS
      liftS_def)

text \<open>The update for a client keeps the Partial IV, the kid and the Common IV, and leaves the
  nonce of these; the AAD does not grow.\<close>

lemma context_update_client:
  assumes "context_update C Z CLIENT opts n piv kc c = (Ok (), c')"
  shows "rrc_piv (rrc c') = rrc_piv (rrc c) \<and> rrc_kid (rrc c') = rrc_kid (rrc c) \<and>
    rrc_kid_context (rrc c') = rrc_kid_context (rrc c) \<and> cc c' = cc c \<and> sc c' = sc c \<and> rc c' = rc c \<and>
    create_nonce (rrc_kid (rrc c)) (rrc_piv (rrc c)) (cc_common_iv (cc c)) (rrc_nonce (rrc c))
      = Ok (rrc_nonce (rrc c')) \<and> length (rrc_aad (rrc c')) \<le> length (rrc_aad (rrc c))"
  using assms
  by (auto simp: context_update_def context_update_nonce_def context_update_aad_def TRYS_eq_Ok step_eq_Ok
      liftS_def setS_def case_prod_unfold Let_def create_aad_length)

lemma protect_option_fresh:
  assumes "protect_option C Z pkt c = (Ok osc, c')" and "is_request pkt"
  obtains piv where "sender_seq_num2piv (sc_sender_seq_num (sc c)) = Ok piv"
    "create_nonce (rrc_kid (rrc c)) piv (cc_common_iv (cc c)) (rrc_nonce (rrc c)) = Ok (rrc_nonce (rrc c'))"
    "oscore_option_generate piv (rrc_kid (rrc c)) (rrc_kid_context (rrc c))
      (get_oscore_opt_val_len piv (rrc_kid (rrc c)) (rrc_kid_context (rrc c))) = Ok osc"
    "sc_sender_key (sc c') = sc_sender_key (sc c)"
    "sc_sender_seq_num (sc c') = sc_sender_seq_num (sc c) + 1"
    "length (rrc_aad (rrc c')) \<le> length (rrc_aad (rrc c))"
  using assms
  by (auto simp: protect_option_run request_option_def Let_def TRYS_eq_Ok step_eq_Ok
      dest!: context_update_client split: if_splits)

lemma generated_option_piv:
  assumes "oscore_option_generate piv kid kc (get_oscore_opt_val_len piv kid kc) = Ok osc"
    and "0 < length piv" "length piv \<le> MAX_PIV_LEN" "length kid \<le> MAX_KID_LEN" "length kc \<le> MAX_KID_CONTEXT_LEN"
  shows "opt_number osc = 9 \<and> option_piv (osc\<lparr>opt_delta := d\<rparr>) = Some piv"
proof -
  from oscore_option_generate_eq [OF assms(2-5)] assms(1) obtain zs where osc:
    "osc = \<lparr>opt_delta = 0, opt_len = of_nat (length (rfc8613_option piv kid kc)),
       opt_value = Some (rfc8613_option piv kid kc @ zs), opt_number = 9\<rparr>" by auto
  have "unat (of_nat (length piv) :: u32) = length piv" using assms(3) by simp
  moreover have "opt_len (osc\<lparr>opt_delta := d\<rparr>) = of_nat (length (rfc8613_option piv kid kc))"
    "opt_value (osc\<lparr>opt_delta := d\<rparr>) = Some (rfc8613_option piv kid kc @ zs)" by (simp_all add: osc)
  ultimately show ?thesis
    unfolding option_piv_def parse_oscore_value_eq [OF assms(2-5) \<open>opt_len _ = _\<close> \<open>opt_value _ = _\<close>]
    by (simp add: osc)
qed

section \<open>What a protected packet holds\<close>

text \<open>The local arrays of \<^verbatim>\<open>coap2oscore\<close> with their declared sizes.\<close>

definition protect_locals_wf :: "protect_locals \<Rightarrow> bool" where
  "protect_locals_wf L \<longleftrightarrow> length (options (pl_oscore_pkt L)) = MAX_OPTION_COUNT \<and>
     length (pl_plaintext L) = MAX_PLAINTEXT_LEN \<and> length (pl_ciphertext L) = MAX_CIPHERTEXT_LEN"

text \<open>The plaintext of a packet: code, E-options and payload.\<close>

definition plaintext_size :: "o_coap_packet \<Rightarrow> eu_state \<Rightarrow> u32" where
  "plaintext_size pkt s = (if payload_len pkt \<noteq> 0 then 1 + ucast (eu_e_len s) + 1 + payload_len pkt
     else 1 + ucast (eu_e_len s))"

definition packet_plaintext :: "protect_locals \<Rightarrow> bytes \<Rightarrow> bytes res" where
  "packet_plaintext L inb =
     TRY (buf2coap (pl_o_coap_pkt L) inb) (\<lambda>pkt.
     TRY (e_u_options_extract pkt (pl_e_options L) (pl_u_options L)) (\<lambda>s.
     TRY (plaintext_setup pkt (eu_e_options s) (eu_e_cnt s) (pl_plaintext L) (plaintext_size pkt s)) (\<lambda>buf.
     Ok (take (unat (plaintext_size pkt s)) buf))))"

text \<open>The payload of \<open>p\<close> is what the cipher makes of \<open>plain\<close> with this key and nonce and with the
  Enc_structure around \<open>aad\<close>.\<close>

definition sealed :: "crypto \<Rightarrow> 'z zcbor \<Rightarrow> bytes \<Rightarrow> bytes \<Rightarrow> bytes \<Rightarrow> bytes \<Rightarrow> o_coap_packet \<Rightarrow> bool" where
  "sealed C Z key nonce aad plain p \<longleftrightarrow>
     (\<exists>enc ct tag buf. create_enc_structure Z aad (length aad + 16) = Ok enc \<and>
        crypto_aead C ENCRYPT plain key nonce enc (of_nat (length plain)) 8 = Ok (ct, tag) \<and>
        payload p = Some buf \<and> holds_ciphertext buf (length plain) ct tag \<and>
        payload_len p = of_nat (length plain + AUTH_TAG_LEN))"

lemma written_ciphertext:
  assumes "write_mem out 0 ct = Ok out1" and "write_mem out1 (int n) tag = Ok buf"
  shows "holds_ciphertext buf n ct tag"
  using assms
  by (auto simp: holds_ciphertext_def write_mem_def min_def split: if_splits)

lemma oscore_cose_encrypt_Ok:
  assumes "oscore_cose_encrypt C Z plain out n nonce aad key = Ok buf" and "length aad \<le> MAX_AAD_LEN"
  obtains enc ct tag where "create_enc_structure Z aad (length aad + 16) = Ok enc"
    "crypto_aead C ENCRYPT plain key nonce enc (n - 8) 8 = Ok (ct, tag)"
    "holds_ciphertext buf (length plain) ct tag"
proof -
  have "unat (of_nat (length aad) + 16 :: u32) = length aad + 16"
    using assms(2) by (simp add: unat_word_ariths)
  with assms(1) show thesis
    by (auto simp: oscore_cose_encrypt_def Let_def TRY_eq_Ok ENCRYPT0_ENCODING_OVERHEAD_def
        intro: that written_ciphertext)
qed

lemma plaintext_setup_length: "plaintext_setup pkt e cnt buf n = Ok b \<Longrightarrow> length b = length buf"
  by (cases "payload_len pkt = 0")
    (auto simp: plaintext_setup_def Let_def TRY_eq_Ok memcpy_s_length write_mem_length)

lemma protect_to_packet_Ok:
  assumes "protect_to_packet C Z L pkt c = (Ok p, c')"
  obtains s plaintext osc ct where
    "e_u_options_extract pkt (pl_e_options L) (pl_u_options L) = Ok s"
    "plaintext_size pkt s \<le> 128"
    "plaintext_setup pkt (eu_e_options s) (eu_e_cnt s) (pl_plaintext L) (plaintext_size pkt s) = Ok plaintext"
    "protect_option C Z pkt c = (Ok osc, c')"
    "plaintext_encrypt C Z c' (take (unat (plaintext_size pkt s)) plaintext) (pl_ciphertext L)
       (plaintext_size pkt s + 8) = Ok ct"
    "oscore_pkg_generate pkt (pl_oscore_pkt L) (eu_u_options s) (eu_u_cnt s) ct (plaintext_size pkt s + 8) osc
       = Ok p"
  using assms unfolding protect_to_packet_def Let_def plaintext_size_def [symmetric]
  apply (simp only: TRYS_eq_Ok step_eq_Ok)
  apply (elim exE conjE)
  apply (rule that, assumption)
      apply (simp add: check_buffer_size_def not_less split: if_splits)
     apply simp_all
  done

lemma for_arr_in_range: "for_arr k i arr body s = Ok s' \<Longrightarrow> k = 0 \<or> i + k \<le> length arr"
  by (induction k arbitrary: i s) (fastforce simp: TRY_eq_Ok arr_get_def split: if_splits)+

text \<open>The U-options have the OSCORE number only if an option of the packet has it.\<close>

lemma no_u_option_9:
  assumes "e_u_options_extract pkt e u = Ok s" and "9 \<notin> fst ` set (map in_8_bits (absolute 0 (pkt_options pkt)))"
  shows "\<forall>opt \<in> set (take (unat (eu_u_cnt s)) (eu_u_options s)). opt_number opt \<noteq> 9"
proof -
  have "unat (options_cnt pkt) = 0 \<or> 0 + unat (options_cnt pkt) \<le> length (options pkt)"
    using assms(1) unfolding e_u_options_extract_def by (rule for_arr_in_range)
  then have le: "0 + unat (options_cnt pkt) \<le> length (options pkt)" by auto
  show ?thesis
    by (rule u_numbers [OF assms(1) [unfolded e_u_options_extract_def for_arr_foldR [OF le]]])
      (use assms(2) wrapped_eq [of 0 "pkt_options pkt"] in \<open>simp_all add: pkt_options_def\<close>)
qed

lemma sender_seq_num2piv_nonempty:
  assumes "sender_seq_num2piv n = Ok piv"
  shows "0 < length piv"
proof -
  have "read_mem (Some p) (unat (1 + of_nat i :: u32)) \<noteq> Ok []" if "i \<le> 7" for i p
  proof -
    have "0 < unat (1 + of_nat i :: u32)" using that by (simp add: unat_word_ariths take_bit_nat_eq_self)
    then show ?thesis using read_mem_Ok_length [of "Some p" _ "[]"] by (metis list.size(3) less_irrefl)
  qed
  then have "sender_seq_num2piv_loop k bs = Ok piv \<Longrightarrow> k \<le> 8 \<Longrightarrow> piv \<noteq> []" for k bs
    by (induction k bs rule: sender_seq_num2piv_loop.induct)
      (auto simp: copy_array_def TRY_eq_Ok split: if_splits)
  with assms show ?thesis unfolding sender_seq_num2piv_def by blast
qed

lemma oscore_pkg_generate_payload:
  "oscore_pkg_generate pkt out u u_cnt ct ct_len osc = Ok p \<Longrightarrow> payload p = Some ct \<and> payload_len p = ct_len"
  by (auto simp: oscore_pkg_generate_def Let_def TRY_eq_Ok)

text \<open>The protected request: the number moves on by one, and the packet carries the Partial IV of the
  old number and the plaintext, sealed with the nonce of that Partial IV.\<close>

lemma emitted_request:
  assumes run: "emitted C Z L inb c = (Ok p, c')" and req: "protects_request L inb"
    and L: "protect_locals_wf L" and wf: "ctx_wf c"
  obtains piv nonce plain where "sender_seq_num2piv (sc_sender_seq_num (sc c)) = Ok piv"
    "sc_sender_seq_num (sc c') = sc_sender_seq_num (sc c) + 1"
    "\<not> has_oscore_option L inb \<Longrightarrow> carried_piv p = Some piv"
    "create_nonce (rrc_kid (rrc c)) piv (cc_common_iv (cc c)) (rrc_nonce (rrc c)) = Ok nonce"
    "packet_plaintext L inb = Ok plain"
    "sealed C Z (sc_sender_key (sc c)) nonce (rrc_aad (rrc c')) plain p"
proof -
  from run obtain pkt where pkt: "buf2coap (pl_o_coap_pkt L) inb = Ok pkt"
    and protect: "protect_to_packet C Z L pkt c = (Ok p, c')"
    by (auto simp: emitted_def TRYS_eq_Ok step_eq_Ok)
  from protect obtain s plaintext osc ct where
    s: "e_u_options_extract pkt (pl_e_options L) (pl_u_options L) = Ok s"
    and size: "plaintext_size pkt s \<le> 128"
    and buf: "plaintext_setup pkt (eu_e_options s) (eu_e_cnt s) (pl_plaintext L) (plaintext_size pkt s) = Ok plaintext"
    and opt: "protect_option C Z pkt c = (Ok osc, c')"
    and enc: "plaintext_encrypt C Z c' (take (unat (plaintext_size pkt s)) plaintext) (pl_ciphertext L)
       (plaintext_size pkt s + 8) = Ok ct"
    and gen: "oscore_pkg_generate pkt (pl_oscore_pkt L) (eu_u_options s) (eu_u_cnt s) ct
       (plaintext_size pkt s + 8) osc = Ok p"
    by (rule protect_to_packet_Ok)
  from req pkt have "is_request pkt" by (simp add: protects_request_def)
  with opt obtain piv where piv: "sender_seq_num2piv (sc_sender_seq_num (sc c)) = Ok piv"
    and nonce: "create_nonce (rrc_kid (rrc c)) piv (cc_common_iv (cc c)) (rrc_nonce (rrc c)) = Ok (rrc_nonce (rrc c'))"
    and osc: "oscore_option_generate piv (rrc_kid (rrc c)) (rrc_kid_context (rrc c))
      (get_oscore_opt_val_len piv (rrc_kid (rrc c)) (rrc_kid_context (rrc c))) = Ok osc"
    and key: "sc_sender_key (sc c') = sc_sender_key (sc c)"
    and seq: "sc_sender_seq_num (sc c') = sc_sender_seq_num (sc c) + 1"
    and aad: "length (rrc_aad (rrc c')) \<le> length (rrc_aad (rrc c))"
    by (rule protect_option_fresh)
  let ?plain = "take (unat (plaintext_size pkt s)) plaintext"
  have len: "length ?plain = unat (plaintext_size pkt s)"
  proof -
    have "unat (plaintext_size pkt s) \<le> unat (128 :: u32)" using size by (simp only: word_le_nat_alt)
    then show ?thesis using L plaintext_setup_length [OF buf] by (simp add: protect_locals_wf_def)
  qed
  have "length (rrc_aad (rrc c')) \<le> MAX_AAD_LEN" using aad wf by (simp add: ctx_wf_def)
  with enc obtain e ct' tag where
    "create_enc_structure Z (rrc_aad (rrc c')) (length (rrc_aad (rrc c')) + 16) = Ok e"
    "crypto_aead C ENCRYPT ?plain (sc_sender_key (sc c')) (rrc_nonce (rrc c')) e (plaintext_size pkt s + 8 - 8) 8
       = Ok (ct', tag)"
    "holds_ciphertext ct (length ?plain) ct' tag"
    unfolding plaintext_encrypt_def by (rule oscore_cose_encrypt_Ok)
  with oscore_pkg_generate_payload [OF gen] key len
  have sealed: "sealed C Z (sc_sender_key (sc c)) (rrc_nonce (rrc c')) (rrc_aad (rrc c')) ?plain p"
    unfolding sealed_def by (intro exI [of _ e] exI [of _ ct'] exI [of _ tag] exI [of _ ct]) simp
  have carried: "carried_piv p = Some piv" if "\<not> has_oscore_option L inb"
  proof -
    have len: "0 < length piv" "length piv \<le> MAX_PIV_LEN"
      using sender_seq_num2piv_length [OF piv] sender_seq_num2piv_nonempty [OF piv] by simp_all
    note generated = generated_option_piv [OF osc len] wf [unfolded ctx_wf_def]
    then have "opt_number osc = 9" "\<And>d. option_piv (osc\<lparr>opt_delta := d\<rparr>) = Some piv" by simp_all
    moreover have "\<forall>opt \<in> set (take (unat (eu_u_cnt s)) (eu_u_options s)). opt_number opt \<noteq> 9"
      using that pkt by (intro no_u_option_9 [OF s]) (simp add: has_oscore_option_def)
    ultimately show ?thesis
      using oscore_pkg_generate_Ok [OF gen] L by (auto simp: carried_piv_def protect_locals_wf_def)
  qed
  have "packet_plaintext L inb = Ok ?plain" by (simp add: packet_plaintext_def pkt s buf)
  from that [OF piv seq carried nonce this sealed] show thesis .
qed

text \<open>A successful call protects a request by sending the serialisation of the emitted packet.\<close>

lemma coap2oscore_emits:
  assumes "coap2oscore C Z L inb out out_len c = (Ok x, c')" and "protects_request L inb"
  obtains p where "emitted C Z L inb c = (Ok p, c')" "coap2buf p out out_len = Ok x"
  using assms
  by (auto simp: coap2oscore_def emitted_def protect_packet_def protects_request_def TRYS_eq_Ok step_eq_Ok
      split: res.splits if_splits)

text \<open>The Partial IV of the packet a call sends.\<close>

definition wire_piv :: "crypto \<Rightarrow> 'z zcbor \<Rightarrow> protect_locals \<Rightarrow> bytes \<Rightarrow> oscore_ctx \<Rightarrow> bytes option" where
  "wire_piv C Z L inb c = (case fst (emitted C Z L inb c) of Ok p \<Rightarrow> carried_piv p | _ \<Rightarrow> None)"

end
