(* ===== verification/Oscore_Session.thy ===== *)
theory Oscore_Session
  imports Oscore_Wire
begin

text \<open>
  A security context over its life: two endpoints that are initialised with the same secrets
  agree, the sequence number steps with every protected request, and the Partial IVs of a
  session are distinct.
\<close>

section \<open>Two endpoints\<close>

text \<open>The parameters of the other endpoint: the same secrets, the identifiers swapped.\<close>

definition mirrored :: "oscore_init_params \<Rightarrow> oscore_init_params \<Rightarrow> bool" where
  "mirrored p q \<longleftrightarrow>
     p_master_secret q = p_master_secret p \<and> p_master_salt q = p_master_salt p \<and>
     p_id_context q = p_id_context p \<and> p_sender_id q = p_recipient_id p \<and>
     p_recipient_id q = p_sender_id p \<and> p_dev_type p = CLIENT \<and> p_dev_type q = SERVER"

text \<open>C11: Two endpoints initialised with the same secrets and swapped identifiers agree: each one's
  sender key is the other's recipient key, the common contexts are equal, and both put the
  client's identifier into the kid of the request-response context.\<close>

theorem endpoints_agree:
  assumes "mirrored p q"
    and "oscore_context_init C Z p c0 = (Ok (), client)"
    and "oscore_context_init C Z q s0 = (Ok (), server)"
  shows "sc_sender_key (sc client) = rc_recipient_key (rc server) \<and>
    rc_recipient_key (rc client) = sc_sender_key (sc server) \<and> cc client = cc server \<and>
    sc_sender_id (sc client) = rc_recipient_id (rc server) \<and>
    rc_recipient_id (rc client) = sc_sender_id (sc server) \<and>
    rrc_kid (rrc client) = rrc_kid (rrc server)"
proof -
  from assms(1) have same: "init_common q = init_common p"
    by (simp add: mirrored_def init_common_def)
  show ?thesis
    by (rule oscore_context_init_Ok [OF assms(2)], rule oscore_context_init_Ok [OF assms(3)])
      (use assms(1) same in \<open>simp add: mirrored_def\<close>)
qed

definition example_server :: oscore_init_params where
  "example_server = example_params\<lparr>p_dev_type := SERVER, p_sender_id := p_recipient_id example_params,
     p_recipient_id := p_sender_id example_params\<rparr>"

theorem endpoints_agree_witness:
  "sc_sender_key (sc (snd (oscore_context_init example_crypto rfc8949_zcbor example_params blank_ctx))) =
   rc_recipient_key (rc (snd (oscore_context_init example_crypto rfc8949_zcbor example_server blank_ctx)))"
proof -
  let ?run = "\<lambda>p. oscore_context_init example_crypto rfc8949_zcbor p blank_ctx"
  have "fst (?run example_params) = Ok ()" "fst (?run example_server) = Ok ()" by code_simp+
  then have "?run example_params = (Ok (), snd (?run example_params))"
    "?run example_server = (Ok (), snd (?run example_server))" by (simp_all add: prod_eq_iff)
  moreover have "mirrored example_params example_server"
    by (simp add: mirrored_def example_server_def example_params_def)
  ultimately show ?thesis using endpoints_agree by blast
qed

section \<open>Sequence numbers\<close>

text \<open>Only the protection of a request changes the sequence number of the context.\<close>

abbreviation seq_is :: "(u64 \<Rightarrow> bool) \<Rightarrow> oscore_ctx \<Rightarrow> bool" where
  "seq_is P c \<equiv> P (sc_sender_seq_num (sc c))"

lemma derive_seq [keeping]:
  "keeps (seq_is P) (derive_common_iv C Z)" "keeps (seq_is P) (derive_sender_key C Z)"
  "keeps (seq_is P) (derive_recipient_key C Z)"
  unfolding derive_common_iv_def derive_sender_key_def derive_recipient_key_def
  by (rule keeps_read_then, simp add: setS_def)+

lemma set_seq [keeping]:
  "keeps (seq_is P) (setS (\<lambda>c. c\<lparr>rrc := f c\<rparr>))" "keeps (seq_is P) (setS (\<lambda>c. c\<lparr>cc := g c\<rparr>))"
  "keeps (seq_is P) (setS (\<lambda>c. c\<lparr>rc := h c\<rparr>))"
  by (rule keeps_setS, simp)+

lemma context_update_seq [keeping]: "keeps (seq_is P) (context_update C Z dev opts n piv kc)"
proof -
  have "keeps (seq_is P) context_update_nonce"
    unfolding context_update_nonce_def by (rule keeps_read_then) (simp add: setS_def)
  moreover have "keeps (seq_is P) (context_update_aad Z opts n)"
    by (rule keepsI) (simp add: context_update_aad_def split: prod.split)
  ultimately show ?thesis
    unfolding context_update_def context_update_server_def context_update_ids_def by (intro keeping)
qed

lemma oscore2coap_seq: "keeps (seq_is P) (oscore2coap C Z L inb out out_len)"
  unfolding oscore2coap_def unprotect_packet_def unprotect_request_def unprotect_update_window_def
    Let_def case_prod_unfold
  by (intro keeping)

lemma request_option_seq [keeping]: "keeps (seq_is P) (request_option C Z pkt piv)"
  unfolding request_option_def Let_def by (intro keeping)

lemma protect_option_seq:
  "sc_sender_seq_num (sc (snd (protect_option C Z pkt c))) =
    (if is_request pkt then sc_sender_seq_num (sc c) + 1 else sc_sender_seq_num (sc c))"
proof -
  have "keeps (seq_is (\<lambda>m. m = n)) (TRYS (liftS r) (request_option C Z pkt))" for r n
    by (intro keeping)
  from keepsD [OF this] show ?thesis by (simp add: protect_option_run)
qed

lemma protect_packet_context:
  assumes "protect_packet C Z L pkt out n c = (r, c')"
  shows "(c' = c \<and> (\<forall>x. r \<noteq> Ok x)) \<or>
    (c' = snd (protect_option C Z pkt c) \<and> (\<forall>x. r = Ok x \<longrightarrow> (\<exists>osc. protect_option C Z pkt c = (Ok osc, c'))))"
  using assms
  by (auto simp: protect_packet_def protect_to_packet_def Let_def TRYS_def liftS_def split: res.splits prod.splits)

lemma liftS_run: "liftS r s = (x, s') \<longleftrightarrow> x = r \<and> s' = s"
  by (auto simp: liftS_def)

lemma coap2oscore_context:
  assumes "coap2oscore C Z L inb out n c = (r, c')"
  shows "(c' = c \<and> (\<forall>x. r = Ok x \<longrightarrow> \<not> protects_request L inb)) \<or>
    (\<exists>pkt. c' = snd (protect_option C Z pkt c) \<and> (is_request pkt \<longleftrightarrow> protects_request L inb) \<and>
       (\<forall>x. r = Ok x \<longrightarrow> (\<exists>osc. protect_option C Z pkt c = (Ok osc, c'))))"
proof (cases "buf2coap (pl_o_coap_pkt L) inb")
  case (Ok pkt)
  show ?thesis
  proof (cases "CODE_EMPTY = hdr_code (header pkt) \<and> TYPE_ACK = hdr_type (header pkt)")
    case True
    with assms Ok show ?thesis
      by (auto simp: coap2oscore_def protects_request_def TRYS_liftS liftS_run)
  next
    case False
    with assms Ok have run: "protect_packet C Z L pkt out n c = (r, c')"
      by (auto simp: coap2oscore_def TRYS_liftS split: if_splits)
    have "is_request pkt \<longleftrightarrow> protects_request L inb"
      using Ok False by (simp add: protects_request_def)
    with protect_packet_context [OF run] show ?thesis by blast
  qed
qed (use assms in \<open>auto simp: coap2oscore_def TRYS_liftS protects_request_def\<close>)

text \<open>The step of the sequence number.\<close>

lemma coap2oscore_steps:
  assumes "coap2oscore C Z L inb out out_len c = (r, c')"
  shows "sc_sender_seq_num (sc c') \<in> {sc_sender_seq_num (sc c), sc_sender_seq_num (sc c) + 1} \<and>
    (\<forall>x. r = Ok x \<longrightarrow> protects_request L inb \<longrightarrow> sc_sender_seq_num (sc c') = sc_sender_seq_num (sc c) + 1)"
  using coap2oscore_context [OF assms] by (auto simp: protect_option_seq)

lemma wire_piv_of_number:
  assumes "coap2oscore C Z L inb out out_len c = (Ok x, c')" and "protects_request L inb"
    and "\<not> has_oscore_option L inb" "protect_locals_wf L" "ctx_wf c"
  obtains piv where "wire_piv C Z L inb c = Some piv" "sender_seq_num2piv (sc_sender_seq_num (sc c)) = Ok piv"
proof -
  from assms(1,2) obtain p where p: "emitted C Z L inb c = (Ok p, c')" by (rule coap2oscore_emits)
  from p assms(2,4,5) obtain piv where "sender_seq_num2piv (sc_sender_seq_num (sc c)) = Ok piv"
    "carried_piv p = Some piv" by (rule emitted_request) (use assms(3) in blast)
  with that [of piv] p show thesis by (simp add: wire_piv_def)
qed

section \<open>Sessions\<close>

text \<open>\<open>session C Z n pivs c\<close>: after an initialisation and \<open>n\<close> calls of \<open>coap2oscore\<close>, with any
  calls of \<open>oscore2coap\<close> between them, the context is \<open>c\<close> and the OSCORE options of the requests
  sent so far carry the Partial IVs \<open>pivs\<close>, the latest first; \<open>None\<close> would be a request without
  one.  A request that already has an option with the number 9 is sent with two of them, and
  is not counted.\<close>

inductive session :: "crypto \<Rightarrow> 'z zcbor \<Rightarrow> nat \<Rightarrow> bytes option list \<Rightarrow> oscore_ctx \<Rightarrow> bool" for C Z where
  session_init: "oscore_context_init C Z params c0 = (Ok (), c) \<Longrightarrow> session C Z 0 [] c"
| session_request: "session C Z n pivs c \<Longrightarrow> coap2oscore C Z L inb out out_len c = (Ok x, c') \<Longrightarrow>
    protects_request L inb \<Longrightarrow> \<not> has_oscore_option L inb \<Longrightarrow> protect_locals_wf L \<Longrightarrow>
    session C Z (Suc n) (wire_piv C Z L inb c # pivs) c'"
| session_other: "session C Z n pivs c \<Longrightarrow> coap2oscore C Z L inb out out_len c = (r, c') \<Longrightarrow>
    (\<forall>x. r \<noteq> Ok x) \<or> \<not> protects_request L inb \<or> has_oscore_option L inb \<Longrightarrow> session C Z (Suc n) pivs c'"
| session_unprotect: "session C Z n pivs c \<Longrightarrow> oscore2coap C Z L inb out out_len c = (r, c') \<Longrightarrow>
    session C Z n pivs c'"

lemma trim_le_inject:
  assumes "trim_le a = trim_le b" and "length a = length b"
  shows "a = b"
proof -
  have tail: "bs = trim_le bs @ replicate (length bs - length (trim_le bs)) 0" for bs
  proof (induction bs rule: rev_induct)
    case (snoc b bs)
    have "length (trim_le bs) \<le> length bs" by (metis length_append le_add1 snoc)
    with snoc show ?case by (auto simp: Suc_diff_le simp flip: replicate_append_same)
  qed simp
  from tail [of a] tail [of b] assms show ?thesis by metis
qed

lemma trim_le_not_zero: "trim_le bs \<noteq> [0]"
  by (induction bs rule: rev_induct) auto

lemma u64_le_bytes_inject: "u64_le_bytes x = u64_le_bytes y \<Longrightarrow> x = y"
proof (rule bit_word_eqI)
  fix n assume eq: "u64_le_bytes x = u64_le_bytes y" and "n < LENGTH(64)"
  then have n: "n div 8 < 8" by simp
  have bytes: "u64_le_bytes z = map (\<lambda>i. ucast (drop_bit (8 * i) z)) [0..<8]" for z
    by (simp add: u64_le_bytes_def upt_rec)
  from eq n have "(ucast (drop_bit (8 * (n div 8)) x) :: u8) = ucast (drop_bit (8 * (n div 8)) y)"
    unfolding bytes by (auto simp: map_eq_conv dest!: bspec)
  then have "bit (ucast (drop_bit (8 * (n div 8)) x) :: u8) (n mod 8)
      = bit (ucast (drop_bit (8 * (n div 8)) y) :: u8) (n mod 8)" by simp
  then show "bit x n = bit y n" by (simp add: bit_simps)
qed

lemma sender_seq_num2piv_inject:
  assumes "sender_seq_num2piv x = Ok p" and "sender_seq_num2piv y = Ok p"
  shows "x = y"
proof -
  have zero: "trim_le (u64_le_bytes 0) = []" by code_simp
  have len: "length (u64_le_bytes z) = 8" for z by (simp add: u64_le_bytes_def)
  show ?thesis
    using assms trim_le_not_zero trim_le_inject [of "u64_le_bytes x" "u64_le_bytes y"]
    by (auto simp: sender_seq_num2piv_cases len dest: u64_le_bytes_inject split: if_splits)
qed

lemma session_wf:
  assumes "session C Z n pivs c" and C: "hkdf_fills C"
  shows "ctx_wf c"
  using assms(1)
proof induction
  case (session_init params c0 c)
  with C show ?case by (rule oscore_context_init_wf)
next
  case (session_request n pivs c L inb out out_len x c')
  with keepsD [OF coap2oscore_keeps [OF C], of c Z L inb out out_len] show ?case by simp
next
  case (session_other n pivs c L inb out out_len r c')
  with keepsD [OF coap2oscore_keeps [OF C], of c Z L inb out out_len] show ?case by simp
next
  case (session_unprotect n pivs c L inb out out_len r c')
  with keepsD [OF oscore2coap_keeps [OF C], of c Z L inb out out_len] show ?case by simp
qed

definition numbered :: "bytes option \<Rightarrow> nat \<Rightarrow> bool" where
  "numbered p j \<longleftrightarrow> (\<exists>b. p = Some b \<and> sender_seq_num2piv (of_nat j) = Ok b)"

lemma numbered_inject:
  assumes "numbered p j" "numbered p k" "j < 2 ^ 64" "k < 2 ^ 64"
  shows "j = k"
proof -
  from assms(1,2) have "(of_nat j :: u64) = of_nat k"
    by (auto simp: numbered_def intro: sender_seq_num2piv_inject)
  then have "unat (of_nat j :: u64) = unat (of_nat k :: u64)" by simp
  with assms(3,4) show ?thesis by (simp add: unsigned_of_nat take_bit_nat_eq_self)
qed

lemma session_invariant:
  assumes "session C Z n pivs c" and C: "hkdf_fills C"
  shows "\<exists>k \<le> n. sc_sender_seq_num (sc c) = of_nat k \<and> (\<forall>p \<in> set pivs. \<exists>j < k. numbered p j) \<and>
    (n < 2 ^ 64 \<longrightarrow> distinct pivs)"
  using assms(1)
proof induction
  case (session_init params c0 c)
  then show ?case by (auto elim!: oscore_context_init_Ok)
next
  case (session_request n pivs c L inb out out_len x c')
  then obtain k where k: "k \<le> n" "sc_sender_seq_num (sc c) = of_nat k"
    and pivs: "\<forall>p \<in> set pivs. \<exists>j < k. numbered p j" and dist: "n < 2 ^ 64 \<longrightarrow> distinct pivs" by blast
  let ?p = "wire_piv C Z L inb c"
  from coap2oscore_steps [OF session_request.hyps(2)] session_request.hyps(3) k
  have new: "sc_sender_seq_num (sc c') = of_nat (Suc k)" by (auto simp: add.commute)
  have p: "numbered ?p k"
    by (rule wire_piv_of_number [OF session_request.hyps(2-5) session_wf [OF session_request.hyps(1) C]])
      (simp add: numbered_def k(2))
  have "?p \<notin> set pivs" if "Suc n < 2 ^ 64"
  proof
    assume "?p \<in> set pivs"
    with pivs obtain j where "j < k" "numbered ?p j" by blast
    with numbered_inject [OF _ p, of j] k(1) that show False by simp
  qed
  with new p pivs dist k(1) show ?case
    by (intro exI [of _ "Suc k"]) (auto intro: less_SucI)
next
  case (session_other n pivs c L inb out out_len r c')
  then obtain k where k: "k \<le> n" "sc_sender_seq_num (sc c) = of_nat k"
    and pivs: "\<forall>p \<in> set pivs. \<exists>j < k. numbered p j" and dist: "n < 2 ^ 64 \<longrightarrow> distinct pivs" by blast
  from coap2oscore_steps [OF session_other.hyps(2)] k(2)
  have "sc_sender_seq_num (sc c') = of_nat k \<or> sc_sender_seq_num (sc c') = of_nat (Suc k)"
    by (auto simp: add.commute)
  with k(1) pivs dist show ?case by (metis Suc_le_mono Suc_lessD le_SucI less_SucI)
next
  case (session_unprotect n pivs c L inb out out_len r c')
  with keepsD [OF oscore2coap_seq, of "\<lambda>m. m = sc_sender_seq_num (sc c)" c C Z L inb out out_len]
  show ?case by simp
qed

text \<open>What the uninitialised locals hold in the examples, and the packet \<open>example_packet\<close> as
  bytes.\<close>

definition example_protect_locals :: protect_locals where
  "example_protect_locals = \<lparr>pl_o_coap_pkt = blank_packet, pl_e_options = replicate 20 blank_option,
     pl_u_options = replicate 20 blank_option, pl_plaintext = replicate 128 0,
     pl_ciphertext = replicate 136 0, pl_oscore_pkt = blank_packet\<rparr>"

definition example_request :: bytes where
  "example_request = [0x41, 0x01, 0x5d, 0x1f, 0xAB, 0x31, 0x61, 0x83, 0x74, 0x76, 0x31, 0xFF, 1, 2]"

definition example_ctx :: "oscore_init_params \<Rightarrow> oscore_ctx" where
  "example_ctx p = snd (oscore_context_init example_crypto rfc8949_zcbor p blank_ctx)"

definition example_protect :: "oscore_ctx \<Rightarrow> (bytes \<times> u32) res \<times> oscore_ctx" where
  "example_protect = coap2oscore example_crypto rfc8949_zcbor example_protect_locals example_request
     (replicate 60 0) 60"

lemma example_requests:
  "fst (oscore_context_init example_crypto rfc8949_zcbor example_params blank_ctx) = Ok ()"
  "fst (oscore_context_init example_crypto rfc8949_zcbor example_server blank_ctx) = Ok ()"
  "protects_request example_protect_locals example_request"
  "\<not> has_oscore_option example_protect_locals example_request"
  "protect_locals_wf example_protect_locals"
  "is_Ok (fst (example_protect (example_ctx example_params)))"
  "is_Ok (fst (example_protect (snd (example_protect (example_ctx example_params)))))"
  by code_simp+

definition example_piv :: "oscore_ctx \<Rightarrow> bytes option" where
  "example_piv = wire_piv example_crypto rfc8949_zcbor example_protect_locals example_request"

lemma example_runs:
  assumes "is_Ok (fst (example_protect c))"
  obtains x where "coap2oscore example_crypto rfc8949_zcbor example_protect_locals example_request
    (replicate 60 0) 60 c = (Ok x, snd (example_protect c))"
  using assms by (auto simp: example_protect_def prod_eq_iff elim!: is_OkE)

lemma example_session_start: "session example_crypto rfc8949_zcbor 0 [] (example_ctx example_params)"
  using example_requests(1) unfolding example_ctx_def
  by (intro session_init [where params = example_params and ?c0.0 = blank_ctx]) (simp add: prod_eq_iff)

lemma example_session:
  "session example_crypto rfc8949_zcbor 2
    [example_piv (snd (example_protect (example_ctx example_params))), example_piv (example_ctx example_params)]
    (snd (example_protect (snd (example_protect (example_ctx example_params)))))"
proof -
  have again: "session example_crypto rfc8949_zcbor (Suc n) (example_piv c # ps) (snd (example_protect c))"
    if s: "session example_crypto rfc8949_zcbor n ps c" and ok: "is_Ok (fst (example_protect c))" for n ps c
    using ok unfolding example_piv_def
    by (rule example_runs) (rule session_request [OF s _ example_requests(3-5)])
  from again [OF again [OF example_session_start example_requests(6)] example_requests(7)] show ?thesis
    by (simp add: numeral_2_eq_2)
qed

text \<open>C9: A call of \<open>coap2oscore\<close> adds at most one to the sequence number.  When it protects a
  request it adds exactly one, and what it sends is the serialisation of a packet whose OSCORE
  option carries the Partial IV of the old number (unless the request has an option 9 of its own)
  and whose payload is the plaintext of the request, encrypted under the sender key with the nonce
  of that Partial IV, the kid and the Common IV.\<close>

theorem coap2oscore_sequence_number:
  assumes "coap2oscore C Z L inb out out_len c = (r, c')"
  shows "sc_sender_seq_num (sc c') \<in> {sc_sender_seq_num (sc c), sc_sender_seq_num (sc c) + 1} \<and>
    (\<forall>x. r = Ok x \<longrightarrow> protects_request L inb \<longrightarrow>
      sc_sender_seq_num (sc c') = sc_sender_seq_num (sc c) + 1 \<and>
      (ctx_wf c \<longrightarrow> protect_locals_wf L \<longrightarrow>
        (\<exists>p piv nonce plain. emitted C Z L inb c = (Ok p, c') \<and> coap2buf p out out_len = Ok x \<and>
           sender_seq_num2piv (sc_sender_seq_num (sc c)) = Ok piv \<and>
           (\<not> has_oscore_option L inb \<longrightarrow> carried_piv p = Some piv) \<and>
           create_nonce (rrc_kid (rrc c)) piv (cc_common_iv (cc c)) (rrc_nonce (rrc c)) = Ok nonce \<and>
           packet_plaintext L inb = Ok plain \<and>
           sealed C Z (sc_sender_key (sc c)) nonce (rrc_aad (rrc c')) plain p)))"
proof -
  have "\<exists>p piv nonce plain. emitted C Z L inb c = (Ok p, c') \<and> coap2buf p out out_len = Ok x \<and>
           sender_seq_num2piv (sc_sender_seq_num (sc c)) = Ok piv \<and>
           (\<not> has_oscore_option L inb \<longrightarrow> carried_piv p = Some piv) \<and>
           create_nonce (rrc_kid (rrc c)) piv (cc_common_iv (cc c)) (rrc_nonce (rrc c)) = Ok nonce \<and>
           packet_plaintext L inb = Ok plain \<and>
           sealed C Z (sc_sender_key (sc c)) nonce (rrc_aad (rrc c')) plain p"
    if "r = Ok x" "protects_request L inb" "ctx_wf c" "protect_locals_wf L" for x
  proof -
    from assms that(1,2) obtain p where p: "emitted C Z L inb c = (Ok p, c')" "coap2buf p out out_len = Ok x"
      by (auto elim: coap2oscore_emits)
    from p(1) that(2,4,3) show ?thesis by (rule emitted_request) (use p in blast)
  qed
  with coap2oscore_steps [OF assms] show ?thesis by blast
qed

theorem coap2oscore_sequence_number_witness:
  "sc_sender_seq_num (sc (snd (example_protect (example_ctx example_params)))) =
     sc_sender_seq_num (sc (example_ctx example_params)) + 1 \<and>
   (\<exists>p piv nonce plain.
     emitted example_crypto rfc8949_zcbor example_protect_locals example_request (example_ctx example_params) =
       (Ok p, snd (example_protect (example_ctx example_params))) \<and>
     sender_seq_num2piv (sc_sender_seq_num (sc (example_ctx example_params))) = Ok piv \<and> carried_piv p = Some piv \<and>
     sealed example_crypto rfc8949_zcbor (sc_sender_key (sc (example_ctx example_params))) nonce
       (rrc_aad (rrc (snd (example_protect (example_ctx example_params))))) plain p)"
proof -
  have wf: "ctx_wf (example_ctx example_params)"
    by (rule session_wf [OF example_session_start example_hkdf_fills])
  from example_requests(6) obtain x where
    run: "coap2oscore example_crypto rfc8949_zcbor example_protect_locals example_request
      (replicate 60 0) 60 (example_ctx example_params) = (Ok x, snd (example_protect (example_ctx example_params)))"
    by (rule example_runs)
  from coap2oscore_sequence_number [OF run] wf example_requests(3-5) show ?thesis by blast
qed

text \<open>C5: In a session with fewer than 2 to the 64 calls of \<open>coap2oscore\<close>, every protected request
  that is sent carries a Partial IV in its OSCORE option and no two carry the same, whatever packets
  are received in between and whatever calls fail.  Requests that had an OSCORE option before
  their protection are not counted.\<close>

theorem session_pivs_distinct:
  assumes "session C Z n pivs c" and "n < 2 ^ 64" and "hkdf_fills C"
  shows "distinct pivs \<and> None \<notin> set pivs"
  using session_invariant [OF assms(1,3)] assms(2) by (auto simp: numbered_def)

theorem session_pivs_distinct_witness:
  "example_piv (snd (example_protect (example_ctx example_params))) \<noteq> example_piv (example_ctx example_params) \<and>
   example_piv (example_ctx example_params) \<noteq> None"
proof -
  have "(2 :: nat) < 2 ^ 64" by simp
  from session_pivs_distinct [OF example_session this example_hkdf_fills] show ?thesis
    by (metis distinct_length_2_or_more list.set_intros)
qed

text \<open>The length of the plaintext is computed from the deltas before the division.  A request with
  Uri-Port (7) and Uri-Query (15) has two deltas below 13, but the delta of the Uri-Query alone
  needs an extension byte: the request cannot be protected, whatever the buffers.\<close>

lemma uri_port_and_query_refused:
  "fst (coap2oscore example_crypto rfc8949_zcbor example_protect_locals
      [0x40, 0x01, 0x5d, 0x1f, 0x71, 0x50, 0x81, 0x61, 0xFF, 1] (replicate 60 0) 60
      (example_ctx example_params)) = Fail buffer_to_small"
  by code_simp

end
