(* ===== verification/Oscore_Receive.thy ===== *)
theory Oscore_Receive
  imports Oscore_Session
begin

text \<open>
  What \<open>oscore2coap\<close> accepts: the replay window has no influence on the outcome, requests of
  another sender are refused before the context changes, and packets without an OSCORE option
  pass through.
\<close>

section \<open>Independence of the replay window\<close>

definition with_window :: "u64 list \<Rightarrow> oscore_ctx \<Rightarrow> oscore_ctx" where
  "with_window win c = c\<lparr>rc := (rc c)\<lparr>rc_replay_window := win\<rparr>\<rparr>"

text \<open>Two contexts that differ at most in the window, which has its full length in both.\<close>

definition window_full :: "oscore_ctx \<Rightarrow> bool" where
  "window_full c \<longleftrightarrow> length (rc_replay_window (rc c)) = REPLAY_WINDOW_LEN \<and>
     rc_replay_window_len (rc c) = of_nat REPLAY_WINDOW_LEN"

definition same_but_window :: "oscore_ctx \<Rightarrow> oscore_ctx \<Rightarrow> bool" where
  "same_but_window c d \<longleftrightarrow>
     window_full c \<and> (\<exists>win. length win = REPLAY_WINDOW_LEN \<and> d = with_window win c)"

text \<open>Functions with the same outcome on two such contexts.\<close>

definition window_blind :: "(oscore_ctx, 'a) act \<Rightarrow> bool" where
  "window_blind m \<longleftrightarrow> (\<forall>c d. same_but_window c d \<longrightarrow>
     fst (m c) = fst (m d) \<and> same_but_window (snd (m c)) (snd (m d)))"

named_theorems blinding \<open>functions that do not depend on the replay window\<close>

lemma window_blindD:
  "window_blind m \<Longrightarrow> same_but_window c d \<Longrightarrow> fst (m c) = fst (m d) \<and> same_but_window (snd (m c)) (snd (m d))"
  by (simp add: window_blind_def)

lemma blind_TRYS [blinding]:
  assumes m: "window_blind m" and f: "\<And>a. window_blind (f a)"
  shows "window_blind (TRYS m f)"
  unfolding window_blind_def
proof (intro allI impI)
  fix c d assume cd: "same_but_window c d"
  obtain r c' where c: "m c = (r, c')" by fastforce
  obtain r' d' where d: "m d = (r', d')" by fastforce
  from window_blindD [OF m cd] c d have "r' = r" and s: "same_but_window c' d'" by simp_all
  then show "fst (TRYS m f c) = fst (TRYS m f d) \<and> same_but_window (snd (TRYS m f c)) (snd (TRYS m f d))"
    using c d window_blindD [OF f s] by (cases r) (simp_all add: TRYS_run)
qed

lemma blind_liftS [blinding]: "window_blind (liftS r)"
  by (simp add: window_blind_def liftS_def)

lemma blind_read:
  assumes "\<And>c win. g (with_window win c) = g c"
  shows "window_blind (\<lambda>c. liftS (g c) c)"
  using assms by (auto simp: window_blind_def liftS_def same_but_window_def)

lemma blind_getS: "(\<And>c win. g (with_window win c) = g c) \<Longrightarrow> window_blind (getS g)"
  by (auto simp: window_blind_def getS_def same_but_window_def)

lemma blind_setS:
  assumes "\<And>c win. u (with_window win c) = with_window win (u c)"
    and "\<And>c. window_full c \<Longrightarrow> window_full (u c)"
  shows "window_blind (setS u)"
  using assms by (auto simp: window_blind_def setS_def same_but_window_def)

lemma blind_if [blinding]: "window_blind m \<Longrightarrow> window_blind m' \<Longrightarrow> window_blind (if b then m else m')"
  by simp

text \<open>The steps of the context.\<close>

lemma blind_setS_parts [blinding]:
  "window_blind (setS (\<lambda>c. c\<lparr>rrc := (rrc c)\<lparr>rrc_piv := p\<rparr>\<rparr>))"
  "window_blind (setS (\<lambda>c. c\<lparr>rrc := (rrc c)\<lparr>rrc_kid_context := p\<rparr>\<rparr>))"
  "window_blind (setS (\<lambda>c. c\<lparr>rrc := (rrc c)\<lparr>rrc_nonce := p\<rparr>\<rparr>))"
  "window_blind (setS (\<lambda>c. c\<lparr>cc := (cc c)\<lparr>cc_id_context := p\<rparr>\<rparr>))"
  "window_blind (setS (\<lambda>c. c\<lparr>cc := (cc c)\<lparr>cc_common_iv := p\<rparr>\<rparr>))"
  "window_blind (setS (\<lambda>c. c\<lparr>sc := (sc c)\<lparr>sc_sender_key := p\<rparr>\<rparr>))"
  "window_blind (setS (\<lambda>c. c\<lparr>rc := (rc c)\<lparr>rc_recipient_key := p\<rparr>\<rparr>))"
  by (rule blind_setS; simp add: with_window_def window_full_def)+

text \<open>A value read from the context and then used.\<close>

lemma blind_read_then:
  assumes "\<And>c win. g (with_window win c) = g c" and "\<And>a. window_blind (f a)"
  shows "window_blind (\<lambda>c. TRYS (liftS (g c)) f c)"
proof -
  have "(\<lambda>c. TRYS (liftS (g c)) f c) = TRYS (\<lambda>c. liftS (g c) c) f"
    by (rule ext) (simp add: TRYS_def liftS_def)
  with assms show ?thesis by (simp add: blind_TRYS blind_read)
qed

lemma derive_blind [blinding]:
  "window_blind (derive_common_iv C Z)" "window_blind (derive_sender_key C Z)"
  "window_blind (derive_recipient_key C Z)"
  unfolding derive_common_iv_def derive_sender_key_def derive_recipient_key_def
  by (rule blind_read_then, simp add: with_window_def, rule blinding)+

lemma context_update_blind [blinding]: "window_blind (context_update C Z dev opts n piv kc)"
proof -
  have nonce: "window_blind context_update_nonce"
    unfolding context_update_nonce_def
    by (rule blind_read_then) (simp add: with_window_def, rule blinding)
  have aad: "window_blind (context_update_aad Z opts n)"
    by (auto simp: window_blind_def context_update_aad_def same_but_window_def with_window_def
        window_full_def split: prod.split)
  have room: "window_blind (getS (\<lambda>c. length (cc_id_context (cc c))))"
    by (rule blind_getS) (simp add: with_window_def)
  have eq: "window_blind (\<lambda>c. liftS (array_equals (array_of (cc_id_context (cc c))) kc) c)"
    by (rule blind_read) (simp add: with_window_def)
  show ?thesis
    unfolding context_update_def context_update_server_def context_update_ids_def
    by (intro blinding nonce aad room eq)
qed

text \<open>The update of the window itself succeeds on both sides.\<close>

definition window_step :: "u64 \<Rightarrow> (oscore_ctx, unit) act" where
  "window_step n =
     TRYS (\<lambda>c. liftS (update_replay_window n (rc_replay_window (rc c)) (rc_replay_window_len (rc c))) c)
       (\<lambda>win. setS (\<lambda>c. c\<lparr>rc := (rc c)\<lparr>rc_replay_window := win\<rparr>\<rparr>))"

lemma window_step_full:
  assumes "window_full c"
  shows "\<exists>win. window_step n c = (Ok (), with_window win c) \<and> length win = REPLAY_WINDOW_LEN"
proof -
  from assms have "rc_replay_window (rc c) \<noteq> []"
    "unat (rc_replay_window_len (rc c)) = length (rc_replay_window (rc c))"
    by (auto simp: window_full_def)
  from update_replay_window_eq [OF this, of n]
  obtain win where win: "update_replay_window n (rc_replay_window (rc c)) (rc_replay_window_len (rc c)) = Ok win"
    by blast
  with assms have "length win = REPLAY_WINDOW_LEN"
    by (simp add: window_full_def update_replay_window_length)
  with win show ?thesis
    by (intro exI [of _ win]) (simp add: window_step_def TRYS_def liftS_def setS_def with_window_def)
qed

lemma window_step_blind: "window_blind (window_step n)"
  unfolding window_blind_def
proof (intro allI impI)
  fix c d assume cd: "same_but_window c d"
  then have full: "window_full c" "window_full d"
    by (auto simp: same_but_window_def with_window_def window_full_def)
  with cd show "fst (window_step n c) = fst (window_step n d) \<and>
      same_but_window (snd (window_step n c)) (snd (window_step n d))"
    using window_step_full [of c n] window_step_full [of d n]
    by (auto simp: same_but_window_def with_window_def window_full_def)
qed

lemma update_window_blind [blinding]: "window_blind (unprotect_update_window pkt opt)"
  unfolding unprotect_update_window_def window_step_def [symmetric]
  by (intro blind_if blind_liftS blind_TRYS window_step_blind)

lemma oscore2coap_blind: "window_blind (oscore2coap C Z L inb out out_len)"
proof -
  have kid: "window_blind (\<lambda>c. liftS (array_equals (array_of (rc_recipient_id (rc c))) a) c)" for a
    by (rule blind_read) (simp add: with_window_def)
  have check: "window_blind (\<lambda>c. liftS (replay_check n (rc_replay_window (rc c))
      (rc_replay_window_len (rc c))) c)" for n
    by (rule blind_read) (simp add: replay_check_def)
  have decrypt: "window_blind (\<lambda>c. liftS (payload_decrypt C Z c out len pkt) c)" for out len pkt
    by (rule blind_read) (simp add: payload_decrypt_def with_window_def)
  show ?thesis
    unfolding oscore2coap_def unprotect_packet_def unprotect_request_def Let_def case_prod_unfold
    by (intro blinding kid check decrypt)
qed

section \<open>What is accepted\<close>

lemma array_equals_array_of:
  assumes "length xs < 2 ^ 32" and "mem_ok (ba_ptr a) (unat (ba_len a))"
  shows "array_equals (array_of xs) a = Ok (xs = mem_bytes (ba_ptr a) (unat (ba_len a)))"
proof (cases "ba_len a = of_nat (length xs)")
  case True
  with assms(1) have n: "unat (ba_len a) = length xs" by simp
  show ?thesis
  proof (cases "ba_ptr a")
    case None
    with assms n show ?thesis by (simp add: array_equals_def True)
  next
    case (Some bs)
    with assms n array_equals_loop_content [of "length xs" xs bs] show ?thesis
      by (simp add: array_equals_def True)
  qed
next
  case False
  then have "length xs \<noteq> unat (ba_len a)" by auto
  with assms(2) have "xs \<noteq> mem_bytes (ba_ptr a) (unat (ba_len a))" by (auto simp: mem_ok_def)
  with False show ?thesis by (simp add: array_equals_def)
qed

text \<open>What the payload of \<open>pkt\<close> decrypts to under a context: the Enc_structure authenticates it.\<close>

definition opened :: "crypto \<Rightarrow> 'z zcbor \<Rightarrow> oscore_ctx \<Rightarrow> o_coap_packet \<Rightarrow> bytes \<Rightarrow> bool" where
  "opened C Z c pkt plain \<longleftrightarrow>
     (\<exists>ct enc n tag. read_mem (payload pkt) (unat (payload_len pkt)) = Ok ct \<and>
        create_enc_structure Z (rrc_aad (rrc c)) n = Ok enc \<and>
        crypto_aead C DECRYPT ct (rc_recipient_key (rc c)) (rrc_nonce (rrc c)) enc
          (payload_len pkt - of_nat AUTH_TAG_LEN) 8 = Ok (plain, tag))"

lemma payload_decrypt_Ok:
  assumes "payload_decrypt C Z c buf (payload_len pkt - of_nat AUTH_TAG_LEN) pkt = Ok plaintext"
  obtains plain where "opened C Z c pkt plain" "write_mem buf 0 plain = Ok plaintext"
  using assms
  by (auto simp: payload_decrypt_def oscore_cose_decrypt_def Let_def res_simps opened_def)

text \<open>The code of the packet that is put together is the first byte of the plaintext.\<close>

lemma o_coap_pkg_generate_code:
  assumes "o_coap_pkg_generate buf n pkt e out = Ok p" and "write_mem old 0 (b # plain) = Ok buf"
  shows "hdr_code (header p) = b"
proof -
  have code: "deref (Some buf) = Ok b" using assms(2) by (auto simp: write_mem_def split: if_splits)
  have "header p' = header q" if "options_from_oscore_reorder pkt e' k q = Ok p'" for e' k q p'
    using that by (auto simp: options_from_oscore_reorder_def Let_def TRY_eq_Ok split: if_splits)
  with assms(1) code show ?thesis
    by (fastforce simp: o_coap_pkg_generate_def oscore_decrypted_payload_parser_def Let_def TRY_eq_Ok)
qed

text \<open>For a request the context takes the Partial IV of the option, and its nonce is that of this
  Partial IV.\<close>

abbreviation piv_nonce_are :: "bytes \<Rightarrow> bytes \<Rightarrow> oscore_ctx \<Rightarrow> bool" where
  "piv_nonce_are piv nonce c \<equiv> rrc_piv (rrc c) = piv \<and> rrc_nonce (rrc c) = nonce"

lemma context_update_ids_piv: "keeps (piv_nonce_are piv nonce) (context_update_ids C Z kc)"
proof -
  have "keeps (piv_nonce_are piv nonce) (derive_common_iv C Z)" "keeps (piv_nonce_are piv nonce) (derive_sender_key C Z)"
    "keeps (piv_nonce_are piv nonce) (derive_recipient_key C Z)"
    unfolding derive_common_iv_def derive_sender_key_def derive_recipient_key_def
    by (rule keeps_read_then, simp add: setS_def)+
  moreover have "keeps (piv_nonce_are piv nonce) (setS (\<lambda>c. c\<lparr>rrc := (rrc c)\<lparr>rrc_kid_context := k\<rparr>\<rparr>))"
    "keeps (piv_nonce_are piv nonce) (setS (\<lambda>c. c\<lparr>cc := (cc c)\<lparr>cc_id_context := ic\<rparr>\<rparr>))" for k ic
    by (rule keeps_setS, simp)+
  ultimately show ?thesis unfolding context_update_ids_def by (intro keeping)
qed

lemma context_update_server_Ok:
  assumes "context_update_server C Z piv kc c = (Ok (), c')"
  shows "copy_array (of_nat MAX_PIV_LEN) piv = Ok (rrc_piv (rrc c'))" "rrc_nonce (rrc c') = rrc_nonce (rrc c)"
proof -
  from assms obtain p eq where p: "copy_array (of_nat MAX_PIV_LEN) piv = Ok p"
    and rest: "(if \<not> eq then context_update_ids C Z kc else liftS (Ok ()))
      (c\<lparr>rrc := (rrc c)\<lparr>rrc_piv := p\<rparr>\<rparr>) = (Ok (), c')"
    by (auto simp: context_update_server_def TRYS_eq_Ok step_eq_Ok simp del: context_consts)
  have "keeps (piv_nonce_are p (rrc_nonce (rrc c))) (if \<not> eq then context_update_ids C Z kc else liftS (Ok ()))"
    by (intro keeps_if context_update_ids_piv keeps_liftS)
  from keepsD [OF this, of "c\<lparr>rrc := (rrc c)\<lparr>rrc_piv := p\<rparr>\<rparr>"] rest p
  show "copy_array (of_nat MAX_PIV_LEN) piv = Ok (rrc_piv (rrc c'))" "rrc_nonce (rrc c') = rrc_nonce (rrc c)"
    by simp_all
qed

definition nonce_of_request :: "compressed_oscore_option \<Rightarrow> oscore_ctx \<Rightarrow> oscore_ctx \<Rightarrow> bool" where
  "nonce_of_request opt c c' \<longleftrightarrow>
     read_mem (ba_ptr (co_piv opt)) (unat (ba_len (co_piv opt))) = Ok (rrc_piv (rrc c')) \<and>
     create_nonce (rrc_kid (rrc c')) (rrc_piv (rrc c')) (cc_common_iv (cc c')) (rrc_nonce (rrc c)) =
       Ok (rrc_nonce (rrc c'))"

lemma unprotect_request_Ok:
  assumes "unprotect_request C Z pkt opt c = (Ok (), c')"
  shows "nonce_of_request opt c c'"
proof -
  from assms have "context_update C Z SERVER (options pkt) (ucast (options_cnt pkt)) (co_piv opt)
      (co_kid_context opt) c = (Ok (), c')"
    by (auto simp: unprotect_request_def TRYS_eq_Ok step_eq_Ok split: if_splits)
  then obtain c1 where "context_update_server C Z (co_piv opt) (co_kid_context opt) c = (Ok (), c1)"
    and rest: "TRYS context_update_nonce (\<lambda>_. context_update_aad Z (options pkt) (ucast (options_cnt pkt))) c1
      = (Ok (), c')"
    by (auto simp: context_update_def TRYS_eq_Ok)
  note server = context_update_server_Ok [OF this(1)]
  from server(1) have "read_mem (ba_ptr (co_piv opt)) (unat (ba_len (co_piv opt))) = Ok (rrc_piv (rrc c1))"
    by (auto simp: copy_array_def TRY_eq_Ok)
  with server(2) rest show ?thesis
    by (auto simp: nonce_of_request_def context_update_nonce_def context_update_aad_def TRYS_eq_Ok step_eq_Ok
        liftS_def setS_def case_prod_unfold Let_def)
qed

lemma unprotect_packet_Ok:
  assumes "unprotect_packet C Z L pkt opt out out_len c = (Ok x, c')"
  obtains plain plaintext p where "opened C Z c' pkt plain" "write_mem (ul_plaintext L) 0 plain = Ok plaintext"
    "o_coap_pkg_generate plaintext (payload_len pkt - of_nat AUTH_TAG_LEN) pkt (ul_E_options L)
       (ul_o_coap_packet L) = Ok p"
    "coap2buf p out out_len = Ok x" "is_request pkt \<Longrightarrow> nonce_of_request opt c c'"
proof -
  let ?n = "payload_len pkt - of_nat AUTH_TAG_LEN"
  from assms obtain c1 c2 plaintext p where
    req: "(if is_request pkt then unprotect_request C Z pkt opt else liftS (Ok ())) c = (Ok (), c1)"
    and dec: "payload_decrypt C Z c1 (ul_plaintext L) ?n pkt = Ok plaintext"
    and win: "unprotect_update_window pkt opt c1 = (Ok (), c2)" and c': "c' = c2"
    and gen: "o_coap_pkg_generate plaintext ?n pkt (ul_E_options L) (ul_o_coap_packet L) = Ok p"
      "coap2buf p out out_len = Ok x"
    by (auto simp: unprotect_packet_def Let_def TRYS_eq_Ok step_eq_Ok)
  have parts: "rrc c' = rrc c1" "rc_recipient_key (rc c') = rc_recipient_key (rc c1)" "cc c' = cc c1"
    using win c' by (auto simp: unprotect_update_window_def TRYS_eq_Ok step_eq_Ok split: if_splits)
  then have same: "opened C Z c' pkt = opened C Z c1 pkt" by (intro ext) (simp add: opened_def)
  from dec obtain plain where "opened C Z c1 pkt plain" "write_mem (ul_plaintext L) 0 plain = Ok plaintext"
    by (rule payload_decrypt_Ok)
  moreover have "nonce_of_request opt c c'" if "is_request pkt"
    using unprotect_request_Ok [of C Z pkt opt c c1] req that by (simp add: nonce_of_request_def parts)
  ultimately show thesis using that gen by (simp add: same)
qed

text \<open>C6: The replay window has no influence on \<open>oscore2coap\<close>: on contexts that differ only in
  the contents of the window it returns the same result, so a request whose number is already in
  the window is accepted like a new one.\<close>

theorem replay_window_has_no_effect:
  assumes "window_full c" and "length win = REPLAY_WINDOW_LEN"
  shows "fst (oscore2coap C Z L inb out out_len (with_window win c)) = fst (oscore2coap C Z L inb out out_len c)"
proof -
  from assms have "same_but_window c (with_window win c)" by (auto simp: same_but_window_def)
  from window_blindD [OF oscore2coap_blind [of C Z L inb out out_len] this] show ?thesis by simp
qed

text \<open>C29: A request whose kid is not the recipient identifier of the context is refused with
  \<open>oscore_kid_recipent_id_mismatch\<close>, and the context is left as it was.\<close>

theorem oscore2coap_kid_mismatch:
  assumes "buf2coap (ul_oscore_packet L) inb = Ok pkt" and "is_request pkt"
    and "oscore_option_parser pkt (ul_oscore_option L) = Ok (opt, True)"
    and "mem_ok (ba_ptr (co_kid opt)) (unat (ba_len (co_kid opt)))"
    and "mem_bytes (ba_ptr (co_kid opt)) (unat (ba_len (co_kid opt))) \<noteq> rc_recipient_id (rc c)"
    and "length (rc_recipient_id (rc c)) < 2 ^ 32"
  shows "oscore2coap C Z L inb out out_len c = (Fail oscore_kid_recipent_id_mismatch, c)"
proof -
  have "array_equals (array_of (rc_recipient_id (rc c))) (co_kid opt) = Ok False"
    using array_equals_array_of [OF assms(6,4)] assms(5) by simp
  with assms(1-3) show ?thesis
    by (simp add: oscore2coap_def unprotect_packet_def unprotect_request_def TRYS_def liftS_def)
qed

text \<open>C8: Whatever \<open>oscore2coap\<close> returns as an unprotected packet was decrypted: the cipher
  accepted the payload under the recipient key, the nonce and the associated data of the context the
  call leaves, where the nonce of a request is made from the Partial IV in its OSCORE option; and the packet returned is the serialisation of the one that is put together from the
  decrypted plaintext, whose first byte is its code.\<close>

theorem oscore2coap_authentic:
  assumes "oscore2coap C Z L inb out out_len c = (Ok (True, out', n'), c')"
  shows "\<exists>pkt opt plain plaintext p. buf2coap (ul_oscore_packet L) inb = Ok pkt \<and>
    oscore_option_parser pkt (ul_oscore_option L) = Ok (opt, True) \<and>
    (is_request pkt \<longrightarrow> nonce_of_request opt c c') \<and>
    opened C Z c' pkt plain \<and> write_mem (ul_plaintext L) 0 plain = Ok plaintext \<and>
    o_coap_pkg_generate plaintext (payload_len pkt - of_nat AUTH_TAG_LEN) pkt (ul_E_options L)
      (ul_o_coap_packet L) = Ok p \<and>
    coap2buf p out out_len = Ok (out', n') \<and> (plain \<noteq> [] \<longrightarrow> hdr_code (header p) = hd plain)"
proof -
  from assms obtain pkt opt where pkt: "buf2coap (ul_oscore_packet L) inb = Ok pkt"
      "oscore_option_parser pkt (ul_oscore_option L) = Ok (opt, True)"
      and run: "unprotect_packet C Z L pkt opt out out_len c = (Ok (out', n'), c')"
    by (auto simp: oscore2coap_def TRYS_eq_Ok step_eq_Ok case_prod_unfold split: if_splits)
  from run obtain plain plaintext p where p: "opened C Z c' pkt plain"
    "write_mem (ul_plaintext L) 0 plain = Ok plaintext"
    "o_coap_pkg_generate plaintext (payload_len pkt - of_nat AUTH_TAG_LEN) pkt (ul_E_options L)
       (ul_o_coap_packet L) = Ok p" "coap2buf p out out_len = Ok (out', n')" "is_request pkt \<longrightarrow> nonce_of_request opt c c'"
    by (rule unprotect_packet_Ok) blast
  have "hdr_code (header p) = hd plain" if "plain \<noteq> []"
    using that p(2) o_coap_pkg_generate_code [OF p(3)] by (cases plain) auto
  with pkt p show ?thesis by blast
qed

text \<open>A packet without an OSCORE option passes through: the flag is false, and neither the
  output buffer nor the context changes.\<close>

lemma oscore2coap_passes_plain_packets:
  assumes "buf2coap (ul_oscore_packet L) inb = Ok pkt"
    and "unat (options_cnt pkt) \<le> length (options pkt)"
    and "\<forall>opt \<in> set (take (unat (options_cnt pkt)) (options pkt)). ucast (opt_number opt) \<noteq> COAP_OPTION_OSCORE"
  shows "oscore2coap C Z L inb out out_len c = (Ok (False, out, out_len), c)"
proof -
  have "foldR oscore_option_parse_step opts (co, b) = Ok (co, b)"
    if "\<forall>opt \<in> set opts. ucast (opt_number opt) \<noteq> COAP_OPTION_OSCORE" for opts co b
    using that by (induction opts) (simp_all add: oscore_option_parse_step_def)
  with assms have "oscore_option_parser pkt (ul_oscore_option L) = Ok (ul_oscore_option L, False)"
    by (simp add: oscore_option_parser_def for_arr_foldR)
  with assms(1) show ?thesis by (simp add: oscore2coap_def TRYS_def liftS_def)
qed

section \<open>Examples\<close>

definition example_unprotect_locals :: unprotect_locals where
  "example_unprotect_locals = \<lparr>ul_oscore_packet = blank_packet,
     ul_oscore_option = \<lparr>co_h = 0, co_k = 0, co_n = 0, co_piv = NULL_ARRAY,
       co_kid_context = NULL_ARRAY, co_kid = NULL_ARRAY\<rparr>,
     ul_plaintext = replicate 128 0, ul_E_options = replicate 10 blank_option,
     ul_o_coap_packet = blank_packet\<rparr>"

definition example_unprotect :: "bytes \<Rightarrow> oscore_ctx \<Rightarrow> (bool \<times> bytes \<times> u32) res \<times> oscore_ctx" where
  "example_unprotect inb = oscore2coap example_crypto rfc8949_zcbor example_unprotect_locals inb
     (replicate 60 0) 60"

text \<open>The first request of \<open>example_session\<close> on the wire.\<close>

definition example_sent :: bytes where
  "example_sent = [65, 2, 93, 31, 171, 49, 97, 101, 25, 0, 2, 55, 203, 255, 1, 179, 116, 118, 49, 255, 1, 2]
     @ replicate 8 34"

lemma example_sent_eq:
  "fst (example_protect (example_ctx example_params)) = Ok (example_sent @ replicate 30 0, 30)"
  by code_simp

lemma example_received:
  "fst (example_unprotect example_sent (example_ctx example_server)) =
     Ok (True, example_request @ replicate 46 0, 14)"
  "window_full (example_ctx example_server)"
  by code_simp+

text \<open>It is accepted with a window full of its own number.\<close>

theorem replay_window_has_no_effect_witness:
  "fst (example_unprotect example_sent (with_window (replicate 32 0) (example_ctx example_server))) =
     Ok (True, example_request @ replicate 46 0, 14)"
  using replay_window_has_no_effect [OF example_received(2), of "replicate 32 0" example_crypto
      rfc8949_zcbor example_unprotect_locals example_sent "replicate 60 0" 60] example_received(1)
  by (simp add: example_unprotect_def)

definition example_parsed :: o_coap_packet where
  "example_parsed = (case buf2coap blank_packet example_sent of Ok p \<Rightarrow> p | _ \<Rightarrow> blank_packet)"

definition example_option :: compressed_oscore_option where
  "example_option = (case oscore_option_parser example_parsed (ul_oscore_option example_unprotect_locals) of
     Ok (opt, _) \<Rightarrow> opt | _ \<Rightarrow> ul_oscore_option example_unprotect_locals)"

lemma example_parsing:
  "buf2coap blank_packet example_sent = Ok example_parsed"
  "oscore_option_parser example_parsed (ul_oscore_option example_unprotect_locals) = Ok (example_option, True)"
  "is_request example_parsed"
  "mem_ok (ba_ptr (co_kid example_option)) (unat (ba_len (co_kid example_option)))"
  "mem_bytes (ba_ptr (co_kid example_option)) (unat (ba_len (co_kid example_option))) = []"
  by code_simp+

theorem oscore2coap_kid_mismatch_witness:
  "example_unprotect example_sent (example_ctx example_params) =
     (Fail oscore_kid_recipent_id_mismatch, example_ctx example_params)"
proof -
  have id: "rc_recipient_id (rc (example_ctx example_params)) = [1]" by code_simp
  have "ul_oscore_packet example_unprotect_locals = blank_packet"
    by (simp add: example_unprotect_locals_def)
  then show ?thesis
    unfolding example_unprotect_def using example_parsing id
    by (intro oscore2coap_kid_mismatch [where pkt = example_parsed and opt = example_option]) simp_all
qed

theorem oscore2coap_authentic_witness:
  "\<exists>pkt opt plain plaintext p. buf2coap (ul_oscore_packet example_unprotect_locals) example_sent = Ok pkt \<and>
     oscore_option_parser pkt (ul_oscore_option example_unprotect_locals) = Ok (opt, True) \<and>
     opened example_crypto rfc8949_zcbor (snd (example_unprotect example_sent (example_ctx example_server))) pkt plain \<and>
     write_mem (ul_plaintext example_unprotect_locals) 0 plain = Ok plaintext \<and>
     o_coap_pkg_generate plaintext (payload_len pkt - of_nat AUTH_TAG_LEN) pkt
       (ul_E_options example_unprotect_locals) (ul_o_coap_packet example_unprotect_locals) = Ok p \<and>
     coap2buf p (replicate 60 0) 60 = Ok (example_request @ replicate 46 0, 14)"
proof -
  have "oscore2coap example_crypto rfc8949_zcbor example_unprotect_locals example_sent (replicate 60 0) 60
      (example_ctx example_server) =
    (Ok (True, example_request @ replicate 46 0, 14), snd (example_unprotect example_sent (example_ctx example_server)))"
    using example_received(1) by (simp add: example_unprotect_def prod_eq_iff)
  from oscore2coap_authentic [OF this] show ?thesis by blast
qed

lemma oscore2coap_passes_plain_packets_example:
  "example_unprotect example_request (example_ctx example_server) =
     (Ok (False, replicate 60 0, 60), example_ctx example_server)"
proof -
  define p where "p = (case buf2coap blank_packet example_request of Ok p \<Rightarrow> p | _ \<Rightarrow> blank_packet)"
  have "buf2coap blank_packet example_request = Ok p" "unat (options_cnt p) \<le> length (options p)"
    "\<forall>opt \<in> set (take (unat (options_cnt p)) (options p)). ucast (opt_number opt) \<noteq> COAP_OPTION_OSCORE"
    unfolding p_def by code_simp+
  then show ?thesis
    unfolding example_unprotect_def
    by (intro oscore2coap_passes_plain_packets) (simp_all add: example_unprotect_locals_def)
qed

end
