(* ===== verification/Edhoc_Cbor_Encode.thy ===== *)
theory Edhoc_Cbor_Encode
  imports Cbor_Encode
begin

text \<open>
  The CBOR encoders of the EDHOC side, \<^verbatim>\<open>src/cbor/edhoc_encode_*.c\<close> with the structures of
  \<^verbatim>\<open>inc/cbor/edhoc_encode_*_types.h\<close>, over the zcbor library \<open>Z\<close> of \<open>Cbor_Encode\<close>.

  The structures are shared with the decoders: their strings have the type \<open>'s\<close>, which is
  \<open>bytes\<close> for the encoders (what the encoder reads through pointer and length).  A union
  with its choice is a datatype; a member with its \<^verbatim>\<open>_present\<close> flag is an \<open>option\<close>, since
  no function reads a member that is not present.
\<close>

section \<open>The structures\<close>

datatype 's int_or_bstr = choice_int i32 | choice_bstr 's
datatype 's int_or_tstr = alg_int i32 | alg_tstr 's

datatype suites_choice = SUITES_I_suite "i32 list" nat | SUITES_I_int i32

record 's message_1 =
  message_1_METHOD :: i32
  message_1_SUITES_I :: suites_choice
  message_1_G_X :: 's
  message_1_C_I :: "'s int_or_bstr"
  message_1_ead_1 :: "'s option"

record 's m2 =
  m2_G_Y_CIPHERTEXT_2 :: 's
  m2_C_R :: "'s int_or_bstr"

record th2 =
  th2_hash_msg1 :: bytes
  th2_G_Y :: bytes
  th2_C_R :: "bytes int_or_bstr"

record th3 =
  th3_th_2 :: bytes
  th3_CIPHERTEXT_2 :: bytes

record th4 =
  th4_th_3 :: bytes
  th4_CIPHERTEXT_3 :: bytes

record data_2 =
  data_2_C_I :: "bytes int_or_bstr option"
  data_2_G_Y :: bytes
  data_2_C_R :: "bytes int_or_bstr"

record info =
  info_transcript_hash :: bytes
  info_label :: bytes
  info_context :: bytes
  info_length :: u32

record edhoc_enc_structure =
  edhoc_enc_context :: bytes
  edhoc_enc_protected :: bytes
  edhoc_enc_external_aad :: bytes

record sig_structure =
  sig_structure_context :: bytes
  sig_structure_protected :: bytes
  sig_structure_external_aad :: bytes
  sig_structure_payload :: bytes

record message_error =
  message_error_C_x :: "bytes int_or_bstr option"
  message_error_DIAG_MSG :: bytes
  message_error_SUITES_R :: "suites_choice option"

record 's x5t =
  x5t_alg :: "'s int_or_tstr"
  x5t_hash :: 's

record 's id_cred_x_map =
  map_kid :: "i32 option"
  map_x5bag :: "'s option"
  map_x5chain :: "'s option"
  map_x5t :: "'s x5t option"
  map_x5u :: "'s option"
  map_c5b :: "'s option"
  map_c5c :: "'s option"
  map_c5t :: "'s x5t option"
  map_c5u :: "'s option"

section \<open>Single items\<close>

definition encode_int_or_bstr :: "'z zcbor \<Rightarrow> bytes int_or_bstr \<Rightarrow> 'z zcall" where
  "encode_int_or_bstr Z c = (case c of
      choice_int i \<Rightarrow> zcbor_int32_encode Z i
    | choice_bstr b \<Rightarrow> zcbor_bstr_encode Z b)"

text \<open>\<^verbatim>\<open>zcbor_present_encode\<close> of a member.\<close>

definition encode_present :: "'z zcbor \<Rightarrow> ('a \<Rightarrow> 'z zcall) \<Rightarrow> 'a option \<Rightarrow> 'z zcall" where
  "encode_present Z enc m = (case m of
      Some x \<Rightarrow> zcbor_present_encode Z True (enc x)
    | None \<Rightarrow> zcbor_present_encode Z False z_false)"

definition cbor_encode_bstr_type_b_str :: "'z zcbor \<Rightarrow> nat \<Rightarrow> bytes \<Rightarrow> bytes option" where
  "cbor_encode_bstr_type_b_str Z cap input = cbor_entry Z 2 cap 1 (zcbor_bstr_encode Z input)"

definition cbor_encode_int_type_i :: "'z zcbor \<Rightarrow> nat \<Rightarrow> i32 \<Rightarrow> bytes option" where
  "cbor_encode_int_type_i Z cap input = cbor_entry Z 2 cap 1 (zcbor_int32_encode Z input)"

definition cbor_encode_m3_CIPHERTEXT_3 :: "'z zcbor \<Rightarrow> nat \<Rightarrow> bytes \<Rightarrow> bytes option" where
  "cbor_encode_m3_CIPHERTEXT_3 Z cap input = cbor_entry Z 2 cap 1 (zcbor_bstr_encode Z input)"

section \<open>Key schedule and COSE structures\<close>

definition encode_info :: "'z zcbor \<Rightarrow> info \<Rightarrow> 'z zcall" where
  "encode_info Z input =
     z_and (zcbor_bstr_encode Z (info_transcript_hash input))
     (z_and (zcbor_tstr_encode Z (info_label input))
     (z_and (zcbor_bstr_encode Z (info_context input))
            (zcbor_uint32_encode Z (info_length input))))"

definition cbor_encode_info :: "'z zcbor \<Rightarrow> nat \<Rightarrow> info \<Rightarrow> bytes option" where
  "cbor_encode_info Z cap input = cbor_entry Z 2 cap 4 (encode_info Z input)"

definition encode_th2 :: "'z zcbor \<Rightarrow> th2 \<Rightarrow> 'z zcall" where
  "encode_th2 Z input =
     z_and (zcbor_bstr_encode Z (th2_hash_msg1 input))
     (z_and (zcbor_bstr_encode Z (th2_G_Y input))
            (encode_int_or_bstr Z (th2_C_R input)))"

definition cbor_encode_th2 :: "'z zcbor \<Rightarrow> nat \<Rightarrow> th2 \<Rightarrow> bytes option" where
  "cbor_encode_th2 Z cap input = cbor_entry Z 3 cap 3 (encode_th2 Z input)"

definition encode_th3 :: "'z zcbor \<Rightarrow> th3 \<Rightarrow> 'z zcall" where
  "encode_th3 Z input =
     z_and (zcbor_bstr_encode Z (th3_th_2 input)) (zcbor_bstr_encode Z (th3_CIPHERTEXT_2 input))"

definition cbor_encode_th3 :: "'z zcbor \<Rightarrow> nat \<Rightarrow> th3 \<Rightarrow> bytes option" where
  "cbor_encode_th3 Z cap input = cbor_entry Z 2 cap 2 (encode_th3 Z input)"

definition encode_th4 :: "'z zcbor \<Rightarrow> th4 \<Rightarrow> 'z zcall" where
  "encode_th4 Z input =
     z_and (zcbor_bstr_encode Z (th4_th_3 input)) (zcbor_bstr_encode Z (th4_CIPHERTEXT_3 input))"

definition cbor_encode_th4 :: "'z zcbor \<Rightarrow> nat \<Rightarrow> th4 \<Rightarrow> bytes option" where
  "cbor_encode_th4 Z cap input = cbor_entry Z 2 cap 2 (encode_th4 Z input)"

definition encode_data_2 :: "'z zcbor \<Rightarrow> data_2 \<Rightarrow> 'z zcall" where
  "encode_data_2 Z input =
     z_and (encode_present Z (encode_int_or_bstr Z) (data_2_C_I input))
     (z_and (zcbor_bstr_encode Z (data_2_G_Y input))
            (encode_int_or_bstr Z (data_2_C_R input)))"

definition cbor_encode_data_2 :: "'z zcbor \<Rightarrow> nat \<Rightarrow> data_2 \<Rightarrow> bytes option" where
  "cbor_encode_data_2 Z cap input = cbor_entry Z 3 cap 3 (encode_data_2 Z input)"

definition encode_edhoc_enc_structure :: "'z zcbor \<Rightarrow> edhoc_enc_structure \<Rightarrow> 'z zcall" where
  "encode_edhoc_enc_structure Z input = z_list Z 3
     (z_and (zcbor_tstr_encode Z (edhoc_enc_context input))
     (z_and (zcbor_bstr_encode Z (edhoc_enc_protected input))
            (zcbor_bstr_encode Z (edhoc_enc_external_aad input))))"

definition cbor_encode_edhoc_enc_structure ::
    "'z zcbor \<Rightarrow> nat \<Rightarrow> edhoc_enc_structure \<Rightarrow> bytes option" where
  "cbor_encode_edhoc_enc_structure Z cap input =
     cbor_entry Z 3 cap 1 (encode_edhoc_enc_structure Z input)"

definition encode_sig_structure :: "'z zcbor \<Rightarrow> sig_structure \<Rightarrow> 'z zcall" where
  "encode_sig_structure Z input = z_list Z 4
     (z_and (zcbor_tstr_encode Z (sig_structure_context input))
     (z_and (zcbor_bstr_encode Z (sig_structure_protected input))
     (z_and (zcbor_bstr_encode Z (sig_structure_external_aad input))
            (zcbor_bstr_encode Z (sig_structure_payload input)))))"

definition cbor_encode_sig_structure :: "'z zcbor \<Rightarrow> nat \<Rightarrow> sig_structure \<Rightarrow> bytes option" where
  "cbor_encode_sig_structure Z cap input = cbor_entry Z 3 cap 1 (encode_sig_structure Z input)"

section \<open>Messages\<close>

text \<open>The list of two to ten suites, or the only one.\<close>

definition encode_suites :: "'z zcbor \<Rightarrow> suites_choice \<Rightarrow> 'z zcall" where
  "encode_suites Z c = (case c of
      SUITES_I_suite xs n \<Rightarrow>
        z_list Z 10 (zcbor_multi_encode_minmax Z 2 10 n (zcbor_int32_encode Z) xs)
    | SUITES_I_int i \<Rightarrow> zcbor_int32_encode Z i)"

definition encode_message_1 :: "'z zcbor \<Rightarrow> bytes message_1 \<Rightarrow> 'z zcall" where
  "encode_message_1 Z input =
     z_and (zcbor_int32_encode Z (message_1_METHOD input))
     (z_and (encode_suites Z (message_1_SUITES_I input))
     (z_and (zcbor_bstr_encode Z (message_1_G_X input))
     (z_and (encode_int_or_bstr Z (message_1_C_I input))
            (encode_present Z (zcbor_bstr_encode Z) (message_1_ead_1 input)))))"

definition cbor_encode_message_1 :: "'z zcbor \<Rightarrow> nat \<Rightarrow> bytes message_1 \<Rightarrow> bytes option" where
  "cbor_encode_message_1 Z cap input = cbor_entry Z 4 cap 5 (encode_message_1 Z input)"

definition encode_m2 :: "'z zcbor \<Rightarrow> bytes m2 \<Rightarrow> 'z zcall" where
  "encode_m2 Z input =
     z_and (zcbor_bstr_encode Z (m2_G_Y_CIPHERTEXT_2 input)) (encode_int_or_bstr Z (m2_C_R input))"

definition cbor_encode_m2 :: "'z zcbor \<Rightarrow> nat \<Rightarrow> bytes m2 \<Rightarrow> bytes option" where
  "cbor_encode_m2 Z cap input = cbor_entry Z 3 cap 2 (encode_m2 Z input)"

definition encode_message_error :: "'z zcbor \<Rightarrow> message_error \<Rightarrow> 'z zcall" where
  "encode_message_error Z input =
     z_and (encode_present Z (encode_int_or_bstr Z) (message_error_C_x input))
     (z_and (zcbor_tstr_encode Z (message_error_DIAG_MSG input))
            (encode_present Z (encode_suites Z) (message_error_SUITES_R input)))"

definition cbor_encode_message_error :: "'z zcbor \<Rightarrow> nat \<Rightarrow> message_error \<Rightarrow> bytes option" where
  "cbor_encode_message_error Z cap input = cbor_entry Z 4 cap 3 (encode_message_error Z input)"

section \<open>Credential identifiers\<close>

text \<open>One entry of the map: the label and the value.\<close>

definition encode_repeated_kid :: "'z zcbor \<Rightarrow> i32 \<Rightarrow> 'z zcall" where
  "encode_repeated_kid Z i = z_and (zcbor_uint32_put Z 4) (zcbor_int32_encode Z i)"

definition encode_repeated_x5bag :: "'z zcbor \<Rightarrow> bytes \<Rightarrow> 'z zcall" where
  "encode_repeated_x5bag Z b = z_and (zcbor_uint32_put Z 32) (zcbor_bstr_encode Z b)"

definition encode_repeated_x5chain :: "'z zcbor \<Rightarrow> bytes \<Rightarrow> 'z zcall" where
  "encode_repeated_x5chain Z b = z_and (zcbor_uint32_put Z 33) (zcbor_bstr_encode Z b)"

definition encode_hash_entry :: "'z zcbor \<Rightarrow> bytes x5t \<Rightarrow> 'z zcall" where
  "encode_hash_entry Z t = z_list Z 2
     (z_and (case x5t_alg t of
               alg_int i \<Rightarrow> zcbor_int32_encode Z i
             | alg_tstr s \<Rightarrow> zcbor_tstr_encode Z s)
            (zcbor_bstr_encode Z (x5t_hash t)))"

definition encode_repeated_x5t :: "'z zcbor \<Rightarrow> bytes x5t \<Rightarrow> 'z zcall" where
  "encode_repeated_x5t Z t = z_and (zcbor_uint32_put Z 34) (encode_hash_entry Z t)"

definition encode_repeated_x5u :: "'z zcbor \<Rightarrow> bytes \<Rightarrow> 'z zcall" where
  "encode_repeated_x5u Z b = z_and (zcbor_uint32_put Z 35) (zcbor_bstr_encode Z b)"

definition encode_repeated_c5b :: "'z zcbor \<Rightarrow> bytes \<Rightarrow> 'z zcall" where
  "encode_repeated_c5b Z b = z_and (zcbor_uint32_put Z 52) (zcbor_bstr_encode Z b)"

definition encode_repeated_c5c :: "'z zcbor \<Rightarrow> bytes \<Rightarrow> 'z zcall" where
  "encode_repeated_c5c Z b = z_and (zcbor_uint32_put Z 53) (zcbor_bstr_encode Z b)"

definition encode_repeated_c5t :: "'z zcbor \<Rightarrow> bytes x5t \<Rightarrow> 'z zcall" where
  "encode_repeated_c5t Z t = z_and (zcbor_uint32_put Z 54) (encode_hash_entry Z t)"

definition encode_repeated_c5u :: "'z zcbor \<Rightarrow> bytes \<Rightarrow> 'z zcall" where
  "encode_repeated_c5u Z b = z_and (zcbor_uint32_put Z 55) (zcbor_bstr_encode Z b)"

definition z_map :: "'z zcbor \<Rightarrow> nat \<Rightarrow> 'z zcall \<Rightarrow> 'z zcall" where
  "z_map Z n body = z_and (zcbor_map_start_encode Z n)
     (\<lambda>s. let (int_res, s1) = body s; (end_res, s2) = zcbor_map_end_encode Z n s1
          in (end_res \<and> int_res, s2))"

definition encode_id_cred_x_map :: "'z zcbor \<Rightarrow> bytes id_cred_x_map \<Rightarrow> 'z zcall" where
  "encode_id_cred_x_map Z input = z_map Z 9
     (z_and (encode_present Z (encode_repeated_kid Z) (map_kid input))
     (z_and (encode_present Z (encode_repeated_x5bag Z) (map_x5bag input))
     (z_and (encode_present Z (encode_repeated_x5chain Z) (map_x5chain input))
     (z_and (encode_present Z (encode_repeated_x5t Z) (map_x5t input))
     (z_and (encode_present Z (encode_repeated_x5u Z) (map_x5u input))
     (z_and (encode_present Z (encode_repeated_c5b Z) (map_c5b input))
     (z_and (encode_present Z (encode_repeated_c5c Z) (map_c5c input))
     (z_and (encode_present Z (encode_repeated_c5t Z) (map_c5t input))
            (encode_present Z (encode_repeated_c5u Z) (map_c5u input))))))))))"

definition cbor_encode_id_cred_x_map :: "'z zcbor \<Rightarrow> nat \<Rightarrow> bytes id_cred_x_map \<Rightarrow> bytes option" where
  "cbor_encode_id_cred_x_map Z cap input = cbor_entry Z 5 cap 1 (encode_id_cred_x_map Z input)"

end
