(* ===== verification/Edhoc_Cbor_Decode.thy ===== *)
theory Edhoc_Cbor_Decode
  imports Edhoc_Cbor_Encode
begin

text \<open>
  The CBOR decoders of the EDHOC side, \<^verbatim>\<open>src/cbor/edhoc_decode_*.c\<close> with the structures of
  \<^verbatim>\<open>inc/cbor/edhoc_decode_*_types.h\<close>.  The decoding functions of the zcbor library are the
  fields of a record \<open>D\<close>, with the state type \<open>'z\<close> left open.

  A decoded string points into the payload: its pointer gives access to the payload from
  there to the end of the object that holds the message, which may be beyond the string.
  Its length is a \<^verbatim>\<open>size_t\<close> that every caller casts to 32 bits.
\<close>

section \<open>The decoding half of zcbor\<close>

record zcbor_string =
  zs_value :: ptr
  zs_len :: u32

text \<open>\<open>None\<close> stands for the return value \<^verbatim>\<open>false\<close>.\<close>

type_synonym ('z, 'a) zdec = "'z \<Rightarrow> 'a option \<times> 'z"

text \<open>What the decoder handed to \<^verbatim>\<open>zcbor_present_decode\<close> leaves behind its result pointer.\<close>

datatype zval = zv_int i32 | zv_str zcbor_string | zv_x5t "zcbor_string x5t"

record 'z zcbor_dec =
  zd_new_state :: "nat \<Rightarrow> ptr \<Rightarrow> nat \<Rightarrow> nat \<Rightarrow> 'z"
  zcbor_int32_decode :: "('z, i32) zdec"
  zcbor_bstr_decode :: "('z, zcbor_string) zdec"
  zcbor_tstr_decode :: "('z, zcbor_string) zdec"
  zcbor_uint32_expect :: "u32 \<Rightarrow> 'z zcall"
  zcbor_list_start_decode :: "'z zcall"
  zcbor_list_end_decode :: "'z zcall"
  zcbor_map_start_decode :: "'z zcall"
  zcbor_map_end_decode :: "'z zcall"
  zcbor_union_start_code :: "'z zcall"
  zcbor_union_elem_code :: "'z zcall"
  zcbor_union_end_code :: "'z zcall"
  zcbor_multi_decode :: "nat \<Rightarrow> nat \<Rightarrow> ('z, i32) zdec \<Rightarrow> ('z, i32 list) zdec"
  zcbor_present_decode :: "('z, zval) zdec \<Rightarrow> ('z, zval option) zdec"

text \<open>\<^verbatim>\<open>p && q\<close>, \<^verbatim>\<open>p || q\<close>, and a result kept.\<close>

definition zd_bind :: "('z, 'a) zdec \<Rightarrow> ('a \<Rightarrow> ('z, 'b) zdec) \<Rightarrow> ('z, 'b) zdec" where
  "zd_bind p f = (\<lambda>s. case p s of (Some a, s') \<Rightarrow> f a s' | (None, s') \<Rightarrow> (None, s'))"

definition zd_or :: "('z, 'a) zdec \<Rightarrow> ('z, 'a) zdec \<Rightarrow> ('z, 'a) zdec" where
  "zd_or p q = (\<lambda>s. case p s of (Some a, s') \<Rightarrow> (Some a, s') | (None, s') \<Rightarrow> q s')"

definition zd_ret :: "'a \<Rightarrow> ('z, 'a) zdec" where
  "zd_ret a = (\<lambda>s. (Some a, s))"

definition zd_test :: "'z zcall \<Rightarrow> ('z, 'a) zdec \<Rightarrow> ('z, 'a) zdec" where
  "zd_test p q = (\<lambda>s. case p s of (True, s') \<Rightarrow> q s' | (False, s') \<Rightarrow> (None, s'))"

definition zd_map :: "('a \<Rightarrow> 'b) \<Rightarrow> ('z, 'a) zdec \<Rightarrow> ('z, 'b) zdec" where
  "zd_map f p = zd_bind p (\<lambda>a. zd_ret (f a))"

text \<open>The generated patterns \<^verbatim>\<open>start && (int_res = body, end && int_res)\<close> of lists and maps,
  and \<^verbatim>\<open>start && (int_res = body, end, int_res)\<close> of unions.\<close>

definition zd_enclosed :: "'z zcall \<Rightarrow> 'z zcall \<Rightarrow> ('z, 'a) zdec \<Rightarrow> ('z, 'a) zdec" where
  "zd_enclosed start end_call body = zd_test start
     (\<lambda>s. let (r, s1) = body s; (end_res, s2) = end_call s1 in (if end_res then r else None, s2))"

definition zd_list :: "'z zcbor_dec \<Rightarrow> ('z, 'a) zdec \<Rightarrow> ('z, 'a) zdec" where
  "zd_list D = zd_enclosed (zcbor_list_start_decode D) (zcbor_list_end_decode D)"

definition zd_union :: "'z zcbor_dec \<Rightarrow> ('z, 'a) zdec \<Rightarrow> ('z, 'a) zdec" where
  "zd_union D body = zd_test (zcbor_union_start_code D)
     (\<lambda>s. let (r, s1) = body s in (r, snd (zcbor_union_end_code D s1)))"

text \<open>Optional members, by the type of what they hold.\<close>

definition the_int :: "zval \<Rightarrow> i32" where
  "the_int v = (case v of zv_int i \<Rightarrow> i | _ \<Rightarrow> 0)"

definition the_str :: "zval \<Rightarrow> zcbor_string" where
  "the_str v = (case v of zv_str s \<Rightarrow> s | _ \<Rightarrow> \<lparr>zs_value = None, zs_len = 0\<rparr>)"

definition the_x5t :: "zval \<Rightarrow> zcbor_string x5t" where
  "the_x5t v = (case v of zv_x5t t \<Rightarrow> t
     | _ \<Rightarrow> \<lparr>x5t_alg = alg_int 0, x5t_hash = \<lparr>zs_value = None, zs_len = 0\<rparr>\<rparr>)"

definition present_int :: "'z zcbor_dec \<Rightarrow> ('z, i32) zdec \<Rightarrow> ('z, i32 option) zdec" where
  "present_int D p = zd_map (map_option the_int) (zcbor_present_decode D (zd_map zv_int p))"

definition present_str :: "'z zcbor_dec \<Rightarrow> ('z, zcbor_string) zdec \<Rightarrow> ('z, zcbor_string option) zdec" where
  "present_str D p = zd_map (map_option the_str) (zcbor_present_decode D (zd_map zv_str p))"

definition present_x5t ::
    "'z zcbor_dec \<Rightarrow> ('z, zcbor_string x5t) zdec \<Rightarrow> ('z, zcbor_string x5t option) zdec" where
  "present_x5t D p = zd_map (map_option the_x5t) (zcbor_present_decode D (zd_map zv_x5t p))"

text \<open>The entry points \<^verbatim>\<open>cbor_decode_X\<close>: a fresh state over a payload of \<open>n\<close> bytes.  None of
  the callers looks at the number of bytes consumed.\<close>

definition cbor_decode_entry ::
    "'z zcbor_dec \<Rightarrow> nat \<Rightarrow> nat \<Rightarrow> ('z, 'a) zdec \<Rightarrow> ptr \<Rightarrow> nat \<Rightarrow> 'a option" where
  "cbor_decode_entry D n_states elem_count dec payload n =
     fst (dec (zd_new_state D n_states payload n elem_count))"

section \<open>Byte strings and messages\<close>

definition cbor_decode_bstr_type_b_str :: "'z zcbor_dec \<Rightarrow> ptr \<Rightarrow> nat \<Rightarrow> zcbor_string option" where
  "cbor_decode_bstr_type_b_str D = cbor_decode_entry D 2 1 (zcbor_bstr_decode D)"

definition cbor_decode_m3_CIPHERTEXT_3 :: "'z zcbor_dec \<Rightarrow> ptr \<Rightarrow> nat \<Rightarrow> zcbor_string option" where
  "cbor_decode_m3_CIPHERTEXT_3 D = cbor_decode_entry D 2 1 (zcbor_bstr_decode D)"

text \<open>An integer or a byte string.\<close>

definition decode_int_or_bstr :: "'z zcbor_dec \<Rightarrow> ('z, zcbor_string int_or_bstr) zdec" where
  "decode_int_or_bstr D = zd_union D
     (zd_or (zd_map choice_int (zcbor_int32_decode D)) (zd_map choice_bstr (zcbor_bstr_decode D)))"

text \<open>The list of suites, or the only one.\<close>

definition decode_suites :: "'z zcbor_dec \<Rightarrow> ('z, suites_choice) zdec" where
  "decode_suites D = zd_union D
     (zd_or
       (zd_map (\<lambda>xs. SUITES_I_suite xs (length xs))
          (zd_list D (zcbor_multi_decode D 2 10 (zcbor_int32_decode D))))
       (zd_test (zcbor_union_elem_code D) (zd_map SUITES_I_int (zcbor_int32_decode D))))"

definition decode_message_1 :: "'z zcbor_dec \<Rightarrow> ('z, zcbor_string message_1) zdec" where
  "decode_message_1 D =
     zd_bind (zcbor_int32_decode D) (\<lambda>m.
     zd_bind (decode_suites D) (\<lambda>suites.
     zd_bind (zcbor_bstr_decode D) (\<lambda>g_x.
     zd_bind (decode_int_or_bstr D) (\<lambda>c_i.
     zd_map (\<lambda>ead_1. \<lparr>message_1_METHOD = m, message_1_SUITES_I = suites, message_1_G_X = g_x,
                       message_1_C_I = c_i, message_1_ead_1 = ead_1\<rparr>)
       (present_str D (zcbor_bstr_decode D))))))"

definition cbor_decode_message_1 :: "'z zcbor_dec \<Rightarrow> ptr \<Rightarrow> nat \<Rightarrow> zcbor_string message_1 option" where
  "cbor_decode_message_1 D = cbor_decode_entry D 4 5 (decode_message_1 D)"

definition decode_m2 :: "'z zcbor_dec \<Rightarrow> ('z, zcbor_string m2) zdec" where
  "decode_m2 D =
     zd_bind (zcbor_bstr_decode D) (\<lambda>g_y_ciphertext_2.
     zd_map (\<lambda>c_r. \<lparr>m2_G_Y_CIPHERTEXT_2 = g_y_ciphertext_2, m2_C_R = c_r\<rparr>) (decode_int_or_bstr D))"

definition cbor_decode_m2 :: "'z zcbor_dec \<Rightarrow> ptr \<Rightarrow> nat \<Rightarrow> zcbor_string m2 option" where
  "cbor_decode_m2 D = cbor_decode_entry D 3 2 (decode_m2 D)"

section \<open>Certificates\<close>

record cert =
  cert_type :: i32
  cert_serial_number :: i32
  cert_issuer :: zcbor_string
  cert_validity_not_before :: i32
  cert_validity_not_after :: i32
  cert_subject :: zcbor_string
  cert_subject_public_key_algorithm :: i32
  cert_pk :: zcbor_string
  cert_extensions :: i32
  cert_issuer_signature_algorithm :: i32
  cert_signature :: zcbor_string

definition decode_cert :: "'z zcbor_dec \<Rightarrow> ('z, cert) zdec" where
  "decode_cert D =
     zd_bind (zcbor_int32_decode D) (\<lambda>type.
     zd_bind (zcbor_int32_decode D) (\<lambda>serial.
     zd_bind (zcbor_tstr_decode D) (\<lambda>issuer.
     zd_bind (zcbor_int32_decode D) (\<lambda>not_before.
     zd_bind (zcbor_int32_decode D) (\<lambda>not_after.
     zd_bind (zcbor_bstr_decode D) (\<lambda>subject.
     zd_bind (zcbor_int32_decode D) (\<lambda>pk_alg.
     zd_bind (zcbor_bstr_decode D) (\<lambda>pk.
     zd_bind (zcbor_int32_decode D) (\<lambda>ext.
     zd_bind (zcbor_int32_decode D) (\<lambda>sig_alg.
     zd_map (\<lambda>sig. \<lparr>cert_type = type, cert_serial_number = serial, cert_issuer = issuer,
         cert_validity_not_before = not_before, cert_validity_not_after = not_after,
         cert_subject = subject, cert_subject_public_key_algorithm = pk_alg, cert_pk = pk,
         cert_extensions = ext, cert_issuer_signature_algorithm = sig_alg,
         cert_signature = sig\<rparr>)
       (zcbor_bstr_decode D)))))))))))"

definition cbor_decode_cert :: "'z zcbor_dec \<Rightarrow> ptr \<Rightarrow> nat \<Rightarrow> cert option" where
  "cbor_decode_cert D = cbor_decode_entry D 2 11 (decode_cert D)"

section \<open>Credential identifiers\<close>

definition decode_repeated_kid :: "'z zcbor_dec \<Rightarrow> ('z, i32) zdec" where
  "decode_repeated_kid D = zd_test (zcbor_uint32_expect D 4) (zcbor_int32_decode D)"

definition decode_repeated_x5bag :: "'z zcbor_dec \<Rightarrow> ('z, zcbor_string) zdec" where
  "decode_repeated_x5bag D = zd_test (zcbor_uint32_expect D 32) (zcbor_bstr_decode D)"

definition decode_repeated_x5chain :: "'z zcbor_dec \<Rightarrow> ('z, zcbor_string) zdec" where
  "decode_repeated_x5chain D = zd_test (zcbor_uint32_expect D 33) (zcbor_bstr_decode D)"

definition decode_hash_entry :: "'z zcbor_dec \<Rightarrow> ('z, zcbor_string x5t) zdec" where
  "decode_hash_entry D = zd_list D
     (zd_bind (zd_union D (zd_or (zd_map alg_int (zcbor_int32_decode D))
                                 (zd_map alg_tstr (zcbor_tstr_decode D)))) (\<lambda>alg.
      zd_map (\<lambda>h. \<lparr>x5t_alg = alg, x5t_hash = h\<rparr>) (zcbor_bstr_decode D)))"

definition decode_repeated_x5t :: "'z zcbor_dec \<Rightarrow> ('z, zcbor_string x5t) zdec" where
  "decode_repeated_x5t D = zd_test (zcbor_uint32_expect D 34) (decode_hash_entry D)"

definition decode_repeated_x5u :: "'z zcbor_dec \<Rightarrow> ('z, zcbor_string) zdec" where
  "decode_repeated_x5u D = zd_test (zcbor_uint32_expect D 35) (zcbor_bstr_decode D)"

definition decode_repeated_c5b :: "'z zcbor_dec \<Rightarrow> ('z, zcbor_string) zdec" where
  "decode_repeated_c5b D = zd_test (zcbor_uint32_expect D 52) (zcbor_bstr_decode D)"

definition decode_repeated_c5c :: "'z zcbor_dec \<Rightarrow> ('z, zcbor_string) zdec" where
  "decode_repeated_c5c D = zd_test (zcbor_uint32_expect D 53) (zcbor_bstr_decode D)"

definition decode_repeated_c5t :: "'z zcbor_dec \<Rightarrow> ('z, zcbor_string x5t) zdec" where
  "decode_repeated_c5t D = zd_test (zcbor_uint32_expect D 54) (decode_hash_entry D)"

definition decode_repeated_c5u :: "'z zcbor_dec \<Rightarrow> ('z, zcbor_string) zdec" where
  "decode_repeated_c5u D = zd_test (zcbor_uint32_expect D 55) (zcbor_bstr_decode D)"

definition decode_id_cred_x_map :: "'z zcbor_dec \<Rightarrow> ('z, zcbor_string id_cred_x_map) zdec" where
  "decode_id_cred_x_map D =
     zd_enclosed (zcbor_map_start_decode D) (zcbor_map_end_decode D)
      (zd_bind (present_int D (decode_repeated_kid D)) (\<lambda>kid.
       zd_bind (present_str D (decode_repeated_x5bag D)) (\<lambda>x5bag.
       zd_bind (present_str D (decode_repeated_x5chain D)) (\<lambda>x5chain.
       zd_bind (present_x5t D (decode_repeated_x5t D)) (\<lambda>x5t.
       zd_bind (present_str D (decode_repeated_x5u D)) (\<lambda>x5u.
       zd_bind (present_str D (decode_repeated_c5b D)) (\<lambda>c5b.
       zd_bind (present_str D (decode_repeated_c5c D)) (\<lambda>c5c.
       zd_bind (present_x5t D (decode_repeated_c5t D)) (\<lambda>c5t.
       zd_map (\<lambda>c5u. \<lparr>map_kid = kid, map_x5bag = x5bag, map_x5chain = x5chain, map_x5t = x5t,
           map_x5u = x5u, map_c5b = c5b, map_c5c = c5c, map_c5t = c5t, map_c5u = c5u\<rparr>)
         (present_str D (decode_repeated_c5u D)))))))))))"

definition cbor_decode_id_cred_x_map ::
    "'z zcbor_dec \<Rightarrow> ptr \<Rightarrow> nat \<Rightarrow> zcbor_string id_cred_x_map option" where
  "cbor_decode_id_cred_x_map D = cbor_decode_entry D 5 1 (decode_id_cred_x_map D)"

section \<open>Plaintexts\<close>

text \<open>The decoder of the map inside a plaintext is generated a second time, with the same
  body and the same structure under other names.\<close>

definition decode_map :: "'z zcbor_dec \<Rightarrow> ('z, zcbor_string id_cred_x_map) zdec" where
  "decode_map D = decode_id_cred_x_map D"

datatype id_cred_choice =
    ID_CRED_x__map "zcbor_string id_cred_x_map"
  | ID_CRED_x_bstr zcbor_string
  | ID_CRED_x_int i32

record plaintext =
  plaintext_ID_CRED_x :: id_cred_choice
  plaintext_SGN_or_MAC_x :: zcbor_string
  plaintext_AD_x :: "zcbor_string option"

definition decode_plaintext :: "'z zcbor_dec \<Rightarrow> ('z, plaintext) zdec" where
  "decode_plaintext D =
     zd_bind (zd_union D
       (zd_or (zd_map ID_CRED_x__map (decode_map D))
       (zd_or (zd_test (zcbor_union_elem_code D) (zd_map ID_CRED_x_bstr (zcbor_bstr_decode D)))
              (zd_map ID_CRED_x_int (zcbor_int32_decode D))))) (\<lambda>id.
     zd_bind (zcbor_bstr_decode D) (\<lambda>sgn.
     zd_map (\<lambda>ad. \<lparr>plaintext_ID_CRED_x = id, plaintext_SGN_or_MAC_x = sgn, plaintext_AD_x = ad\<rparr>)
       (present_str D (zcbor_bstr_decode D))))"

definition cbor_decode_plaintext :: "'z zcbor_dec \<Rightarrow> ptr \<Rightarrow> nat \<Rightarrow> plaintext option" where
  "cbor_decode_plaintext D = cbor_decode_entry D 6 3 (decode_plaintext D)"

end
