(* ===== verification/Edhoc_Keys.thy ===== *)
theory Edhoc_Keys
  imports Edhoc_Cbor_Decode Crypto_Wrapper
begin

text \<open>
  The parameters and the key schedule of EDHOC: the buffer sizes of \<^verbatim>\<open>inc/edhoc.h\<close> (in the
  configuration \<^verbatim>\<open>EDHOC_BUF_SIZES_X509_CERT\<close>), \<^verbatim>\<open>suites.c\<close>, \<^verbatim>\<open>edhoc_method_type.c\<close>, \<^verbatim>\<open>c_x.c\<close>,
  \<^verbatim>\<open>hkdf_info.c\<close>, \<^verbatim>\<open>okm.c\<close>, \<^verbatim>\<open>prk.c\<close>, \<^verbatim>\<open>edhoc_exporter.c\<close>, \<^verbatim>\<open>edhoc_cose.c\<close>,
  \<^verbatim>\<open>associated_data_encode.c\<close> and \<^verbatim>\<open>th.c\<close> of \<^verbatim>\<open>src/edhoc\<close>.

  A pointer with a length that is only read is the list of those bytes; a C string is the
  list of its characters without the final zero.  An output buffer with its length is the
  list of the bytes that are written.
\<close>

section \<open>Buffer sizes\<close>

definition MSG_1_DEFAULT_SIZE :: nat where "MSG_1_DEFAULT_SIZE = 255"
definition MSG_2_DEFAULT_SIZE :: nat where "MSG_2_DEFAULT_SIZE = 700"
definition MSG_3_DEFAULT_SIZE :: nat where "MSG_3_DEFAULT_SIZE = 700"
definition MSG_4_DEFAULT_SIZE :: nat where "MSG_4_DEFAULT_SIZE = 700"
definition PLAINTEXT_DEFAULT_SIZE :: nat where "PLAINTEXT_DEFAULT_SIZE = 650"
definition CIPHERTEXT2_DEFAULT_SIZE :: nat where "CIPHERTEXT2_DEFAULT_SIZE = PLAINTEXT_DEFAULT_SIZE"
definition CIPHERTEXT3_DEFAULT_SIZE :: nat where "CIPHERTEXT3_DEFAULT_SIZE = PLAINTEXT_DEFAULT_SIZE"
definition CIPHERTEXT4_DEFAULT_SIZE :: nat where "CIPHERTEXT4_DEFAULT_SIZE = PLAINTEXT_DEFAULT_SIZE"
definition CRED_DEFAULT_SIZE :: nat where "CRED_DEFAULT_SIZE = 600"
definition SGN_OR_MAC_DEFAULT_SIZE :: nat where "SGN_OR_MAC_DEFAULT_SIZE = 128"
definition ID_CRED_DEFAULT_SIZE :: nat where "ID_CRED_DEFAULT_SIZE = 600"
definition CONTEXT_MAC_DEFAULT_SIZE :: nat where "CONTEXT_MAC_DEFAULT_SIZE = 1200"
definition INFO_DEFAULT_SIZE :: nat where "INFO_DEFAULT_SIZE = 1200"
definition SIGNATURE_STRUCT_DEFAULT_SIZE :: nat where "SIGNATURE_STRUCT_DEFAULT_SIZE = 1200"
definition P_256_PUB_KEY_COMPRESSED_SIZE :: nat where "P_256_PUB_KEY_COMPRESSED_SIZE = 33"
definition P_256_PUB_KEY_UNCOMPRESSED_SIZE :: nat where "P_256_PUB_KEY_UNCOMPRESSED_SIZE = 65"
definition PK_DEFAULT_SIZE :: nat where "PK_DEFAULT_SIZE = P_256_PUB_KEY_UNCOMPRESSED_SIZE"
definition C_R_DEFAULT_SIZE :: nat where "C_R_DEFAULT_SIZE = 1"
definition C_I_DEFAULT_SIZE :: nat where "C_I_DEFAULT_SIZE = 8"
definition G_Y_DEFAULT_SIZE :: nat where "G_Y_DEFAULT_SIZE = P_256_PUB_KEY_COMPRESSED_SIZE"
definition G_X_DEFAULT_SIZE :: nat where "G_X_DEFAULT_SIZE = P_256_PUB_KEY_COMPRESSED_SIZE"
definition G_R_DEFAULT_SIZE :: nat where "G_R_DEFAULT_SIZE = P_256_PUB_KEY_UNCOMPRESSED_SIZE"
definition G_I_DEFAULT_SIZE :: nat where "G_I_DEFAULT_SIZE = P_256_PUB_KEY_UNCOMPRESSED_SIZE"
definition SHA_DEFAULT_SIZE :: nat where "SHA_DEFAULT_SIZE = 32"
definition DATA_2_DEFAULT_SIZE :: nat where
  "DATA_2_DEFAULT_SIZE = C_I_DEFAULT_SIZE + G_Y_DEFAULT_SIZE + C_R_DEFAULT_SIZE"
definition TH2_INPUT_DEFAULT_SIZE :: nat where
  "TH2_INPUT_DEFAULT_SIZE = MSG_1_DEFAULT_SIZE + DATA_2_DEFAULT_SIZE"
definition TH3_INPUT_DEFAULT_SIZE :: nat where
  "TH3_INPUT_DEFAULT_SIZE = SHA_DEFAULT_SIZE + CIPHERTEXT3_DEFAULT_SIZE"
definition TH4_INPUT_DEFAULT_SIZE :: nat where
  "TH4_INPUT_DEFAULT_SIZE = SHA_DEFAULT_SIZE + CIPHERTEXT4_DEFAULT_SIZE"
definition ECDH_SECRET_DEFAULT_SIZE :: nat where "ECDH_SECRET_DEFAULT_SIZE = 32"
definition AD_DEFAULT_SIZE :: nat where "AD_DEFAULT_SIZE = 256"
definition PRK_DEFAULT_SIZE :: nat where "PRK_DEFAULT_SIZE = 32"
definition ASSOCIATED_DATA_DEFAULT_SIZE :: nat where "ASSOCIATED_DATA_DEFAULT_SIZE = 64"
definition KID_DEFAULT_SIZE :: nat where "KID_DEFAULT_SIZE = 8"
definition MAC_DEFAULT_SIZE :: nat where "MAC_DEFAULT_SIZE = 16"
definition AEAD_IV_DEFAULT_SIZE :: nat where "AEAD_IV_DEFAULT_SIZE = 13"
definition SIGNATURE_DEFAULT_SIZE :: nat where "SIGNATURE_DEFAULT_SIZE = 64"
definition ENCODING_OVERHEAD :: nat where "ENCODING_OVERHEAD = 6"

lemmas edhoc_sizes [simp] =
  MSG_1_DEFAULT_SIZE_def MSG_2_DEFAULT_SIZE_def MSG_3_DEFAULT_SIZE_def MSG_4_DEFAULT_SIZE_def
  PLAINTEXT_DEFAULT_SIZE_def CIPHERTEXT2_DEFAULT_SIZE_def CIPHERTEXT3_DEFAULT_SIZE_def
  CIPHERTEXT4_DEFAULT_SIZE_def CRED_DEFAULT_SIZE_def SGN_OR_MAC_DEFAULT_SIZE_def
  ID_CRED_DEFAULT_SIZE_def CONTEXT_MAC_DEFAULT_SIZE_def INFO_DEFAULT_SIZE_def
  SIGNATURE_STRUCT_DEFAULT_SIZE_def P_256_PUB_KEY_COMPRESSED_SIZE_def
  P_256_PUB_KEY_UNCOMPRESSED_SIZE_def PK_DEFAULT_SIZE_def C_R_DEFAULT_SIZE_def
  C_I_DEFAULT_SIZE_def G_Y_DEFAULT_SIZE_def G_X_DEFAULT_SIZE_def G_R_DEFAULT_SIZE_def
  G_I_DEFAULT_SIZE_def SHA_DEFAULT_SIZE_def DATA_2_DEFAULT_SIZE_def TH2_INPUT_DEFAULT_SIZE_def
  TH3_INPUT_DEFAULT_SIZE_def TH4_INPUT_DEFAULT_SIZE_def ECDH_SECRET_DEFAULT_SIZE_def
  AD_DEFAULT_SIZE_def PRK_DEFAULT_SIZE_def ASSOCIATED_DATA_DEFAULT_SIZE_def KID_DEFAULT_SIZE_def
  MAC_DEFAULT_SIZE_def AEAD_IV_DEFAULT_SIZE_def SIGNATURE_DEFAULT_SIZE_def ENCODING_OVERHEAD_def

section \<open>Cipher suites\<close>

text \<open>Enumerations are \<open>int\<close>: suite labels and methods come from received messages.\<close>

definition SUITE_0 :: int where "SUITE_0 = 0"
definition SUITE_1 :: int where "SUITE_1 = 1"
definition SUITE_2 :: int where "SUITE_2 = 2"
definition SUITE_3 :: int where "SUITE_3 = 3"
definition MAC8 :: u32 where "MAC8 = 8"
definition MAC16 :: u32 where "MAC16 = 16"

lemmas suite_consts [simp] =
  SUITE_0_def SUITE_1_def SUITE_2_def SUITE_3_def MAC8_def MAC16_def

record suite =
  suite_label :: int
  edhoc_aead :: int
  edhoc_hash :: int
  edhoc_mac_len_static_dh :: u32
  edhoc_ecdh :: int
  edhoc_sign :: int
  app_aead :: int
  app_hash :: int

definition get_suite :: "int \<Rightarrow> suite res" where
  "get_suite label =
     (if label = SUITE_0 then Ok \<lparr>suite_label = SUITE_0, edhoc_aead = AES_CCM_16_64_128,
        edhoc_hash = SHA_256, edhoc_mac_len_static_dh = MAC8, edhoc_ecdh = X25519,
        edhoc_sign = EdDSA, app_aead = AES_CCM_16_64_128, app_hash = SHA_256\<rparr>
      else if label = SUITE_1 then Ok \<lparr>suite_label = SUITE_1, edhoc_aead = AES_CCM_16_128_128,
        edhoc_hash = SHA_256, edhoc_mac_len_static_dh = MAC16, edhoc_ecdh = X25519,
        edhoc_sign = EdDSA, app_aead = AES_CCM_16_64_128, app_hash = SHA_256\<rparr>
      else if label = SUITE_2 then Ok \<lparr>suite_label = SUITE_2, edhoc_aead = AES_CCM_16_64_128,
        edhoc_hash = SHA_256, edhoc_mac_len_static_dh = MAC8, edhoc_ecdh = P256,
        edhoc_sign = ES256, app_aead = AES_CCM_16_64_128, app_hash = SHA_256\<rparr>
      else if label = SUITE_3 then Ok \<lparr>suite_label = SUITE_3, edhoc_aead = AES_CCM_16_128_128,
        edhoc_hash = SHA_256, edhoc_mac_len_static_dh = MAC16, edhoc_ecdh = P256,
        edhoc_sign = ES256, app_aead = AES_CCM_16_64_128, app_hash = SHA_256\<rparr>
      else Fail unsupported_cipher_suite)"

definition get_hash_len :: "int \<Rightarrow> u32" where
  "get_hash_len alg = (if alg = SHA_256 then 32 else 0)"

definition get_aead_mac_len :: "int \<Rightarrow> u32" where
  "get_aead_mac_len alg =
     (if alg = AES_CCM_16_128_128 then 16 else if alg = AES_CCM_16_64_128 then 8 else 0)"

definition get_aead_key_len :: "int \<Rightarrow> u32" where
  "get_aead_key_len alg = (if alg = AES_CCM_16_128_128 \<or> alg = AES_CCM_16_64_128 then 16 else 0)"

definition get_aead_iv_len :: "int \<Rightarrow> u32" where
  "get_aead_iv_len alg = (if alg = AES_CCM_16_128_128 \<or> alg = AES_CCM_16_64_128 then 13 else 0)"

definition get_signature_len :: "int \<Rightarrow> u32" where
  "get_signature_len alg = (if alg = ES256 \<or> alg = EdDSA then 64 else 0)"

definition get_ecdh_pk_len :: "int \<Rightarrow> u32" where
  "get_ecdh_pk_len alg = (if alg = P256 then 33 else if alg = X25519 then 32 else 0)"

section \<open>Methods\<close>

definition INITIATOR_SK_RESPONDER_SK :: int where "INITIATOR_SK_RESPONDER_SK = 0"
definition INITIATOR_SK_RESPONDER_SDHK :: int where "INITIATOR_SK_RESPONDER_SDHK = 1"
definition INITIATOR_SDHK_RESPONDER_SK :: int where "INITIATOR_SDHK_RESPONDER_SK = 2"
definition INITIATOR_SDHK_RESPONDER_SDHK :: int where "INITIATOR_SDHK_RESPONDER_SDHK = 3"

lemmas method_consts [simp] =
  INITIATOR_SK_RESPONDER_SK_def INITIATOR_SK_RESPONDER_SDHK_def INITIATOR_SDHK_RESPONDER_SK_def
  INITIATOR_SDHK_RESPONDER_SDHK_def

text \<open>\<open>old\<close> is what the two variables hold before; an unknown method leaves them alone.\<close>

definition authentication_type_get :: "int \<Rightarrow> bool \<times> bool \<Rightarrow> (bool \<times> bool) res" where
  "authentication_type_get m old =
     (if m = INITIATOR_SK_RESPONDER_SK then Ok (False, False)
      else if m = INITIATOR_SK_RESPONDER_SDHK then Ok (False, True)
      else if m = INITIATOR_SDHK_RESPONDER_SK then Ok (True, False)
      else if m = INITIATOR_SDHK_RESPONDER_SDHK then Ok (True, True)
      else Ok old)"

section \<open>Connection identifiers\<close>

text \<open>The union of an integer and a byte array; \<open>c_x_bstr buf len\<close> is the array of the first
  \<open>len\<close> bytes of the object \<open>buf\<close>.\<close>

datatype c_x_type = C_INT | C_BSTR
datatype c_x_mem = c_x_int i32 | c_x_bstr bytes u32

record c_x =
  cx_type :: c_x_type
  cx_mem :: c_x_mem

definition c_x_init :: "c_x \<Rightarrow> bytes \<Rightarrow> c_x" where
  "c_x_init c buf = c\<lparr>cx_mem := c_x_bstr buf (of_nat (length buf))\<rparr>"

definition c_x_set :: "c_x_type \<Rightarrow> ptr \<Rightarrow> u32 \<Rightarrow> i32 \<Rightarrow> c_x \<Rightarrow> c_x res" where
  "c_x_set t raw_buf raw_buf_len i out =
     (if t = C_INT then Ok \<lparr>cx_type = C_INT, cx_mem = c_x_int i\<rparr>
      else case cx_mem out of
          c_x_int _ \<Rightarrow> Undef
        | c_x_bstr buf _ \<Rightarrow>
            TRY (memcpy_s buf 0 raw_buf_len raw_buf raw_buf_len) (\<lambda>buf'.
            Ok \<lparr>cx_type = C_BSTR, cx_mem = c_x_bstr buf' raw_buf_len\<rparr>))"

text \<open>How a connection identifier is handed to an encoder: by its type, from the member of
  the union that belongs to it.\<close>

definition c_x_choice :: "c_x \<Rightarrow> bytes int_or_bstr res" where
  "c_x_choice c = (case (cx_type c, cx_mem c) of
      (C_INT, c_x_int i) \<Rightarrow> Ok (choice_int i)
    | (C_BSTR, c_x_bstr buf n) \<Rightarrow> TRY (read_mem (Some buf) (unat n)) (\<lambda>b. Ok (choice_bstr b))
    | _ \<Rightarrow> Undef)"

section \<open>Key derivation\<close>

definition cstr :: "string \<Rightarrow> bytes" where
  "cstr s = map of_char s"

definition create_hkdf_info ::
    "'z zcbor \<Rightarrow> bytes \<Rightarrow> bytes \<Rightarrow> bytes \<Rightarrow> u32 \<Rightarrow> nat \<Rightarrow> bytes res" where
  "create_hkdf_info Z th label context okm_len out_len =
     TRY_EXPECT (cbor_encode_info Z out_len
       \<lparr>info_transcript_hash = th, info_label = label, info_context = context,
        info_length = okm_len\<rparr>) Ok"

definition okm_calc ::
    "crypto \<Rightarrow> 'z zcbor \<Rightarrow> int \<Rightarrow> bytes \<Rightarrow> bytes \<Rightarrow> bytes \<Rightarrow> bytes \<Rightarrow> u32 \<Rightarrow> bytes res" where
  "okm_calc C Z hash_alg prk th label context okm_len =
     TRY (create_hkdf_info Z th label context okm_len INFO_DEFAULT_SIZE) (\<lambda>info.
     crypto_hkdf_expand C hash_alg prk info (unat okm_len))"

definition edhoc_exporter ::
    "crypto \<Rightarrow> 'z zcbor \<Rightarrow> int \<Rightarrow> bytes \<Rightarrow> bytes \<Rightarrow> bytes \<Rightarrow> u32 \<Rightarrow> bytes res" where
  "edhoc_exporter C Z app_hash_alg prk_4x3m th4 label out_len =
     okm_calc C Z app_hash_alg prk_4x3m th4 label [] out_len"

definition prk_derive ::
    "crypto \<Rightarrow> bool \<Rightarrow> suite \<Rightarrow> bytes \<Rightarrow> bytes \<Rightarrow> bytes \<Rightarrow> bytes res" where
  "prk_derive C static_dh_auth s prk_in stat_pk stat_sk =
     (if static_dh_auth then
        TRY (crypto_shared_secret_derive C (edhoc_ecdh s) stat_sk stat_pk) (\<lambda>dh_secret.
        crypto_hkdf_extract C (edhoc_hash s) prk_in dh_secret)
      else Ok prk_in)"

section \<open>COSE structures\<close>

definition cose_enc_structure_encode ::
    "'z zcbor \<Rightarrow> bytes \<Rightarrow> bytes \<Rightarrow> bytes \<Rightarrow> nat \<Rightarrow> bytes res" where
  "cose_enc_structure_encode Z context protected external_aad out_len =
     TRY_EXPECT (cbor_encode_edhoc_enc_structure Z out_len
       \<lparr>edhoc_enc_context = context, edhoc_enc_protected = protected,
        edhoc_enc_external_aad = external_aad\<rparr>) Ok"

definition cose_sig_structure_encode ::
    "'z zcbor \<Rightarrow> bytes \<Rightarrow> bytes \<Rightarrow> bytes \<Rightarrow> bytes \<Rightarrow> nat \<Rightarrow> bytes res" where
  "cose_sig_structure_encode Z context protected external_aad payload out_len =
     TRY_EXPECT (cbor_encode_sig_structure Z out_len
       \<lparr>sig_structure_context = context, sig_structure_protected = protected,
        sig_structure_external_aad = external_aad, sig_structure_payload = payload\<rparr>) Ok"

definition associated_data_encode :: "'z zcbor \<Rightarrow> bytes \<Rightarrow> nat \<Rightarrow> bytes res" where
  "associated_data_encode Z thX out_len =
     cose_enc_structure_encode Z (cstr ''Encrypt0'') [] thX out_len"

section \<open>Transcript hashes\<close>

definition th2_input_encode :: "'z zcbor \<Rightarrow> bytes \<Rightarrow> bytes \<Rightarrow> c_x \<Rightarrow> nat \<Rightarrow> bytes res" where
  "th2_input_encode Z hash_msg1 g_y c_r out_len =
     TRY (c_x_choice c_r) (\<lambda>c.
     TRY_EXPECT (cbor_encode_th2 Z out_len
       \<lparr>th2_hash_msg1 = hash_msg1, th2_G_Y = g_y, th2_C_R = c\<rparr>) Ok)"

definition th3_input_encode :: "'z zcbor \<Rightarrow> bytes \<Rightarrow> bytes \<Rightarrow> nat \<Rightarrow> bytes res" where
  "th3_input_encode Z th2 ciphertext_2 out_len =
     TRY_EXPECT (cbor_encode_th3 Z out_len \<lparr>th3_th_2 = th2, th3_CIPHERTEXT_2 = ciphertext_2\<rparr>) Ok"

definition th4_input_encode :: "'z zcbor \<Rightarrow> bytes \<Rightarrow> bytes \<Rightarrow> nat \<Rightarrow> bytes res" where
  "th4_input_encode Z th3 ciphertext_3 out_len =
     TRY_EXPECT (cbor_encode_th4 Z out_len \<lparr>th4_th_3 = th3, th4_CIPHERTEXT_3 = ciphertext_3\<rparr>) Ok"

definition th2_calculate ::
    "crypto \<Rightarrow> 'z zcbor \<Rightarrow> int \<Rightarrow> bytes \<Rightarrow> bytes \<Rightarrow> c_x \<Rightarrow> bytes res" where
  "th2_calculate C Z alg msg1 g_y c_r =
     TRY (crypto_hash C alg msg1) (\<lambda>hash_msg1.
     TRY (th2_input_encode Z hash_msg1 g_y c_r TH2_INPUT_DEFAULT_SIZE) (\<lambda>th2_input.
     crypto_hash C alg th2_input))"

definition th3_calculate :: "crypto \<Rightarrow> 'z zcbor \<Rightarrow> int \<Rightarrow> bytes \<Rightarrow> bytes \<Rightarrow> bytes res" where
  "th3_calculate C Z alg th2 ciphertext_2 =
     (let th3_input_len = of_nat (length th2) + of_nat (length ciphertext_2) + 6 in
      TRY (check_buffer_size (of_nat TH3_INPUT_DEFAULT_SIZE) th3_input_len) (\<lambda>_.
      TRY (th3_input_encode Z th2 ciphertext_2 (unat th3_input_len)) (\<lambda>th3_input.
      crypto_hash C alg th3_input)))"

definition th4_calculate :: "crypto \<Rightarrow> 'z zcbor \<Rightarrow> int \<Rightarrow> bytes \<Rightarrow> bytes \<Rightarrow> bytes res" where
  "th4_calculate C Z alg th3 ciphertext_3 =
     (let th4_input_len = of_nat (length th3) + of_nat (length ciphertext_3) + of_nat ENCODING_OVERHEAD in
      TRY (check_buffer_size (of_nat TH4_INPUT_DEFAULT_SIZE) th4_input_len) (\<lambda>_.
      TRY (th4_input_encode Z th3 ciphertext_3 (unat th4_input_len)) (\<lambda>th4_input.
      crypto_hash C alg th4_input)))"

end
