(* ===== verification/Edhoc_Auth.thy ===== *)
theory Edhoc_Auth
  imports Edhoc_Keys
begin

text \<open>
  Authentication in EDHOC: \<^verbatim>\<open>signature_or_mac_msg.c\<close>, \<^verbatim>\<open>cert.c\<close> and \<^verbatim>\<open>retrieve_cred.c\<close> of
  \<^verbatim>\<open>src/edhoc\<close>.

  A buffer whose length variable is read and written is the pair of the object and the
  variable; only the first \<open>len\<close> bytes of the object are meaningful.
\<close>

type_synonym io_buf = "bytes \<times> u32"

section \<open>Byte strings\<close>

definition encode_byte_string :: "'z zcbor \<Rightarrow> bytes \<Rightarrow> u32 \<Rightarrow> bytes res" where
  "encode_byte_string Z inb out_len =
     TRY_EXPECT (cbor_encode_bstr_type_b_str Z (unat out_len) inb) Ok"

definition decode_byte_string :: "'d zcbor_dec \<Rightarrow> ptr \<Rightarrow> u32 \<Rightarrow> io_buf \<Rightarrow> io_buf res" where
  "decode_byte_string D inb in_len = (\<lambda>(out, out_len).
     TRY_EXPECT (cbor_decode_bstr_type_b_str D inb (unat in_len)) (\<lambda>str.
     TRY (memcpy_s out 0 out_len (zs_value str) (zs_len str)) (\<lambda>out'.
     Ok (out', zs_len str))))"

text \<open>\<^verbatim>\<open>0 == memcmp(p, q, n)\<close>.\<close>

definition memcmp_equal :: "ptr \<Rightarrow> ptr \<Rightarrow> nat \<Rightarrow> bool res" where
  "memcmp_equal p q n = TRY (read_mem p n) (\<lambda>a. TRY (read_mem q n) (\<lambda>b. Ok (a = b)))"

section \<open>The MAC\<close>

definition context_mac :: "bytes \<Rightarrow> bytes \<Rightarrow> bytes \<Rightarrow> bytes res" where
  "context_mac id_cred cred ead =
     (let id_cred_len = of_nat (length id_cred); cred_len = of_nat (length cred);
          ead_len = of_nat (length ead);
          context_mac_len = id_cred_len + cred_len + ead_len :: u32 in
      TRY (check_buffer_size (of_nat CONTEXT_MAC_DEFAULT_SIZE) context_mac_len) (\<lambda>_.
      TRY (memcpy_s (replicate CONTEXT_MAC_DEFAULT_SIZE 0) 0 context_mac_len (Some id_cred)
             id_cred_len) (\<lambda>m1.
      TRY (memcpy_s m1 (int (unat id_cred_len)) (context_mac_len - id_cred_len) (Some cred)
             cred_len) (\<lambda>m2.
      TRY (memcpy_s m2 (int (unat id_cred_len + unat cred_len))
             (context_mac_len - id_cred_len - cred_len) (Some ead) ead_len) (\<lambda>m3.
      Ok (take (unat context_mac_len) m3))))))"

definition mac_len :: "bool \<Rightarrow> suite \<Rightarrow> u32" where
  "mac_len static_dh s =
     (if static_dh then edhoc_mac_len_static_dh s else get_hash_len (edhoc_hash s))"

definition mac ::
    "crypto \<Rightarrow> 'z zcbor \<Rightarrow> bytes \<Rightarrow> bytes \<Rightarrow> bytes \<Rightarrow> bytes \<Rightarrow> bytes \<Rightarrow> bytes \<Rightarrow> bool \<Rightarrow> suite \<Rightarrow>
     bytes res" where
  "mac C Z prk th id_cred cred ead mac_label static_dh s =
     TRY (context_mac id_cred cred ead) (\<lambda>ctx.
     okm_calc C Z (edhoc_hash s) prk th mac_label ctx (mac_len static_dh s))"

section \<open>Signature or MAC\<close>

definition signature_struct_gen ::
    "'z zcbor \<Rightarrow> bytes \<Rightarrow> bytes \<Rightarrow> bytes \<Rightarrow> bytes \<Rightarrow> bytes \<Rightarrow> nat \<Rightarrow> bytes res" where
  "signature_struct_gen Z th id_cred cred ead m out_len =
     TRY (encode_byte_string Z th (of_nat (SHA_DEFAULT_SIZE + 2))) (\<lambda>th_enc.
     let size = CRED_DEFAULT_SIZE + SHA_DEFAULT_SIZE + AD_DEFAULT_SIZE;
         tmp_len = of_nat (length th_enc) + of_nat (length cred) + of_nat (length ead) :: u32 in
     TRY (check_buffer_size (of_nat size) tmp_len) (\<lambda>_.
     TRY (write_mem (replicate size 0) 0 th_enc) (\<lambda>t1.
     TRY (write_mem t1 (int (length th_enc)) cred) (\<lambda>t2.
     TRY (if length ead \<noteq> 0 then write_mem t2 (int (length th_enc + length cred)) ead else Ok t2)
       (\<lambda>tmp.
     cose_sig_structure_encode Z (cstr ''Signature1'') id_cred (take (unat tmp_len) tmp) m
       out_len)))))"

datatype sgn_or_mac_op = VERIFY | GENERATE

text \<open>Generation writes the MAC or the signature to the buffer and sets the length.\<close>

definition signature_or_mac_generate ::
    "crypto \<Rightarrow> 'z zcbor \<Rightarrow> bool \<Rightarrow> suite \<Rightarrow> bytes \<Rightarrow> bytes \<Rightarrow> bytes \<Rightarrow> bytes \<Rightarrow> bytes \<Rightarrow> bytes \<Rightarrow>
     bytes \<Rightarrow> bytes \<Rightarrow> bytes \<Rightarrow> io_buf res" where
  "signature_or_mac_generate C Z static_dh s sk pk prk th id_cred cred ead mac_label buf =
     TRY (mac C Z prk th id_cred cred ead mac_label static_dh s) (\<lambda>m.
     TRY (write_mem buf 0 m) (\<lambda>buf1.
     if static_dh then Ok (buf1, mac_len static_dh s)
     else
       TRY (signature_struct_gen Z th id_cred cred ead m SIGNATURE_STRUCT_DEFAULT_SIZE) (\<lambda>signed.
       TRY (crypto_sign C (edhoc_sign s) sk pk signed) (\<lambda>sig.
       TRY (write_mem buf1 0 sig) (\<lambda>buf2.
       Ok (buf2, get_signature_len (edhoc_sign s)))))))"

text \<open>Verification leaves the buffer alone.  \<open>mac_buf\<close> is the local array for the MAC before
  it is computed.\<close>

definition signature_or_mac_verify ::
    "crypto \<Rightarrow> 'z zcbor \<Rightarrow> bytes \<Rightarrow> bool \<Rightarrow> suite \<Rightarrow> bytes \<Rightarrow> bytes \<Rightarrow> bytes \<Rightarrow> bytes \<Rightarrow> bytes \<Rightarrow>
     bytes \<Rightarrow> bytes \<Rightarrow> io_buf \<Rightarrow> unit res" where
  "signature_or_mac_verify C Z mac_buf static_dh s pk prk th id_cred cred ead mac_label =
   (\<lambda>(buf, len).
     TRY (check_buffer_size (of_nat SHA_DEFAULT_SIZE) (get_hash_len (edhoc_hash s))) (\<lambda>_.
     TRY (mac C Z prk th id_cred cred ead mac_label static_dh s) (\<lambda>m.
     TRY (write_mem mac_buf 0 m) (\<lambda>mac_buf1.
     if static_dh then
       TRY (memcmp_equal (Some mac_buf1) (Some buf) (unat len)) (\<lambda>eq.
       if \<not> eq then Fail mac_authentication_failed else Ok ())
     else
       TRY (signature_struct_gen Z th id_cred cred ead m SIGNATURE_STRUCT_DEFAULT_SIZE) (\<lambda>signed.
       TRY (read_mem (Some buf) (unat len)) (\<lambda>sig.
       TRY (crypto_verify C (edhoc_sign s) pk signed sig) (\<lambda>result.
       if \<not> result then Fail signature_authentication_failed else Ok ())))))))"

definition signature_or_mac ::
    "crypto \<Rightarrow> 'z zcbor \<Rightarrow> bytes \<Rightarrow> sgn_or_mac_op \<Rightarrow> bool \<Rightarrow> suite \<Rightarrow> bytes \<Rightarrow> bytes \<Rightarrow> bytes \<Rightarrow> bytes \<Rightarrow>
     bytes \<Rightarrow> bytes \<Rightarrow> bytes \<Rightarrow> bytes \<Rightarrow> io_buf \<Rightarrow> io_buf res" where
  "signature_or_mac C Z mac_buf op static_dh s sk pk prk th id_cred cred ead mac_label sm =
     (if op = GENERATE
      then signature_or_mac_generate C Z static_dh s sk pk prk th id_cred cred ead mac_label (fst sm)
      else TRY (signature_or_mac_verify C Z mac_buf static_dh s pk prk th id_cred cred ead mac_label sm)
             (\<lambda>_. Ok sm))"

section \<open>Certificates\<close>

record other_party_cred =
  oc_id_cred :: byte_array
  oc_cred :: byte_array
  oc_pk :: byte_array
  oc_g :: byte_array
  oc_ca :: byte_array
  oc_ca_pk :: byte_array

text \<open>The search for the CA, with \<open>k\<close> rounds left, at index \<open>i\<close>.\<close>

fun ca_pk_get_loop :: "nat \<Rightarrow> nat \<Rightarrow> other_party_cred list \<Rightarrow> ptr \<Rightarrow> byte_array res" where
  "ca_pk_get_loop 0 i cred_array issuer = Fail no_such_ca"
| "ca_pk_get_loop (Suc k) i cred_array issuer =
     TRY (arr_get cred_array i) (\<lambda>c.
     TRY (memcmp_equal (ba_ptr (oc_ca c)) issuer (unat (ba_len (oc_ca c)))) (\<lambda>eq.
     if eq then Ok (oc_ca_pk c) else ca_pk_get_loop k (Suc i) cred_array issuer))"

definition ca_pk_get :: "other_party_cred list \<Rightarrow> u16 \<Rightarrow> ptr \<Rightarrow> byte_array res" where
  "ca_pk_get cred_array cred_num issuer = ca_pk_get_loop (unat cred_num) 0 cred_array issuer"

text \<open>The result is the buffer of the key and whether the signature is valid.\<close>

definition cert_c509_verify ::
    "crypto \<Rightarrow> 'd zcbor_dec \<Rightarrow> ptr \<Rightarrow> u32 \<Rightarrow> other_party_cred list \<Rightarrow> u16 \<Rightarrow> io_buf \<Rightarrow>
     (io_buf \<times> bool) res" where
  "cert_c509_verify C D cert cert_len cred_array cred_num = (\<lambda>(pk, pk_len).
     TRY_EXPECT (cbor_decode_cert D cert (unat cert_len)) (\<lambda>c.
     TRY (ca_pk_get cred_array cred_num (zs_value (cert_issuer c))) (\<lambda>root.
     TRY (read_mem (ba_ptr root) (unat (ba_len root))) (\<lambda>root_pk.
     TRY (read_mem cert (unat (cert_len - 2 - zs_len (cert_signature c)))) (\<lambda>tbs.
     TRY (read_mem (zs_value (cert_signature c)) (unat (zs_len (cert_signature c)))) (\<lambda>sig.
     TRY (crypto_verify C (sint (cert_issuer_signature_algorithm c)) root_pk tbs sig) (\<lambda>verified.
     TRY (memcpy_s pk 0 pk_len (zs_value (cert_pk c)) (zs_len (cert_pk c))) (\<lambda>pk'.
     Ok ((pk', zs_len (cert_pk c)), verified)))))))))"

text \<open>Without MBEDTLS the function for X.509 certificates does nothing.\<close>

definition cert_x509_verify ::
    "ptr \<Rightarrow> u32 \<Rightarrow> other_party_cred list \<Rightarrow> u16 \<Rightarrow> io_buf \<Rightarrow> bool \<Rightarrow> (io_buf \<times> bool) res" where
  "cert_x509_verify cert cert_len cred_array cred_num pk verified = Ok (pk, verified)"

section \<open>Retrieving credentials\<close>

datatype id_cred_x_label =
    L_kid | L_x5bag | L_x5chain | L_x5t | L_x5u | L_c5b | L_c5c | L_c5t | L_c5u

text \<open>What is retrieved: the credential, the signature key and the static DH key.\<close>

record peer_keys =
  pk_cred :: io_buf
  pk_pk :: io_buf
  pk_g :: io_buf

text \<open>The function for X.509 certificates, which depends on the configuration, is an argument.\<close>

type_synonym x509_fun =
  "ptr \<Rightarrow> u32 \<Rightarrow> other_party_cred list \<Rightarrow> u16 \<Rightarrow> io_buf \<Rightarrow> bool \<Rightarrow> (io_buf \<times> bool) res"

definition verify_cert2cred ::
    "x509_fun \<Rightarrow> crypto \<Rightarrow> 'z zcbor \<Rightarrow> 'd zcbor_dec \<Rightarrow> bool \<Rightarrow> other_party_cred list \<Rightarrow> u16 \<Rightarrow> id_cred_x_label \<Rightarrow>
     zcbor_string \<Rightarrow> peer_keys \<Rightarrow> peer_keys res" where
  "verify_cert2cred x509 C Z D static_dh_auth cred_array cred_num label cert k =
     (let (cred, cred_len) = pk_cred k; (pk, pk_len) = pk_pk k; (g, g_len) = pk_g k;
          cert_ptr = zs_value cert; cert_len = zs_len cert in
      TRY (read_mem cert_ptr (unat cert_len)) (\<lambda>cert_bytes.
      TRY (encode_byte_string Z cert_bytes cred_len) (\<lambda>enc.
      TRY (write_mem cred 0 enc) (\<lambda>cred'.
      TRY (case (label = L_x5bag \<or> label = L_x5chain, label = L_c5b \<or> label = L_c5c) of
             (True, _) \<Rightarrow>
               if static_dh_auth then
                 TRY (x509 cert_ptr cert_len cred_array cred_num (g, g_len) False)
                   (\<lambda>(g', v). Ok (((pk, 0), g'), v))
               else
                 TRY (x509 cert_ptr cert_len cred_array cred_num (pk, pk_len) False)
                   (\<lambda>(pk', v). Ok ((pk', (g, 0)), v))
           | (False, True) \<Rightarrow>
               if static_dh_auth then
                 TRY (cert_c509_verify C D cert_ptr cert_len cred_array cred_num (g, g_len))
                   (\<lambda>(g', v). Ok (((pk, 0), g'), v))
               else
                 TRY (cert_c509_verify C D cert_ptr cert_len cred_array cred_num (pk, pk_len))
                   (\<lambda>(pk', v). Ok ((pk', (g, 0)), v))
           | (False, False) \<Rightarrow> Ok (((pk, pk_len), (g, g_len)), False)) (\<lambda>((pk', g'), verified).
      if verified
      then Ok \<lparr>pk_cred = (cred', of_nat (length enc)), pk_pk = pk', pk_g = g'\<rparr>
      else Fail certificate_authentication_failed)))))"

text \<open>The keys of a credential that matches.\<close>

definition copy_local_cred :: "bool \<Rightarrow> other_party_cred \<Rightarrow> peer_keys \<Rightarrow> peer_keys res" where
  "copy_local_cred static_dh_auth c k =
     (let (cred, cred_len) = pk_cred k; (pk, pk_len) = pk_pk k; (g, g_len) = pk_g k in
      TRY (memcpy_s cred 0 cred_len (ba_ptr (oc_cred c)) (ba_len (oc_cred c))) (\<lambda>cred'.
      if static_dh_auth then
        if ba_len (oc_g c) = 65 then
          TRY (arr_set g 0 2) (\<lambda>g1.
          TRY (memcpy_s g1 1 (g_len - 1) (advance (ba_ptr (oc_g c)) 1) 32) (\<lambda>g2.
          Ok \<lparr>pk_cred = (cred', ba_len (oc_cred c)), pk_pk = (pk, 0), pk_g = (g2, 33)\<rparr>))
        else
          TRY (memcpy_s g 0 g_len (ba_ptr (oc_g c)) (ba_len (oc_g c))) (\<lambda>g1.
          Ok \<lparr>pk_cred = (cred', ba_len (oc_cred c)), pk_pk = (pk, 0), pk_g = (g1, ba_len (oc_g c))\<rparr>)
      else
        TRY (memcpy_s pk 0 pk_len (ba_ptr (oc_pk c)) (ba_len (oc_pk c))) (\<lambda>pk1.
        Ok \<lparr>pk_cred = (cred', ba_len (oc_cred c)), pk_pk = (pk1, ba_len (oc_pk c)), pk_g = (g, 0)\<rparr>)))"

fun get_local_cred_loop ::
    "nat \<Rightarrow> nat \<Rightarrow> bool \<Rightarrow> other_party_cred list \<Rightarrow> bytes \<Rightarrow> peer_keys \<Rightarrow> peer_keys res" where
  "get_local_cred_loop 0 i static_dh_auth cred_array id_cred k = Fail credential_not_found"
| "get_local_cred_loop (Suc n) i static_dh_auth cred_array id_cred k =
     TRY (arr_get cred_array i) (\<lambda>c.
     TRY (if ba_len (oc_id_cred c) = of_nat (length id_cred)
          then memcmp_equal (ba_ptr (oc_id_cred c)) (Some id_cred) (length id_cred)
          else Ok False) (\<lambda>eq.
     if eq then copy_local_cred static_dh_auth c k
     else get_local_cred_loop n (Suc i) static_dh_auth cred_array id_cred k))"

definition get_local_cred ::
    "bool \<Rightarrow> other_party_cred list \<Rightarrow> u16 \<Rightarrow> bytes \<Rightarrow> peer_keys \<Rightarrow> peer_keys res" where
  "get_local_cred static_dh_auth cred_array cred_num id_cred k =
     get_local_cred_loop (unat cred_num) 0 static_dh_auth cred_array id_cred k"

definition retrieve_cred_by ::
    "x509_fun \<Rightarrow> crypto \<Rightarrow> 'z zcbor \<Rightarrow> 'd zcbor_dec \<Rightarrow> bool \<Rightarrow> other_party_cred list \<Rightarrow> u16 \<Rightarrow> bytes \<Rightarrow> peer_keys \<Rightarrow>
     peer_keys res" where
  "retrieve_cred_by x509 C Z D static_dh_auth cred_array cred_num id_cred k =
     TRY_EXPECT (cbor_decode_id_cred_x_map D (Some id_cred) (length id_cred)) (\<lambda>m.
     if map_kid m \<noteq> None \<or> map_x5u m \<noteq> None \<or> map_x5t m \<noteq> None \<or> map_c5u m \<noteq> None \<or> map_c5t m \<noteq> None
     then get_local_cred static_dh_auth cred_array cred_num id_cred k
     else case (map_x5chain m, map_x5bag m, map_c5c m, map_c5b m) of
         (Some cert, _, _, _) \<Rightarrow>
           verify_cert2cred x509 C Z D static_dh_auth cred_array cred_num L_x5chain cert k
       | (None, Some cert, _, _) \<Rightarrow>
           verify_cert2cred x509 C Z D static_dh_auth cred_array cred_num L_x5bag cert k
       | (None, None, Some cert, _) \<Rightarrow>
           verify_cert2cred x509 C Z D static_dh_auth cred_array cred_num L_c5c cert k
       | (None, None, None, Some cert) \<Rightarrow>
           verify_cert2cred x509 C Z D static_dh_auth cred_array cred_num L_c5b cert k
       | (None, None, None, None) \<Rightarrow> Fail credential_not_found)"

definition retrieve_cred ::
    "crypto \<Rightarrow> 'z zcbor \<Rightarrow> 'd zcbor_dec \<Rightarrow> bool \<Rightarrow> other_party_cred list \<Rightarrow> u16 \<Rightarrow> bytes \<Rightarrow> peer_keys \<Rightarrow>
     peer_keys res" where
  "retrieve_cred = retrieve_cred_by cert_x509_verify"

end
