(* ===== verification/Edhoc_Ciphertext.thy ===== *)
theory Edhoc_Ciphertext
  imports Edhoc_Auth
begin

text \<open>
  Plaintexts and ciphertexts of the EDHOC messages: \<^verbatim>\<open>plaintext_encode.c\<close>,
  \<^verbatim>\<open>plaintext_decode.c\<close> and \<^verbatim>\<open>ciphertext.c\<close> of \<^verbatim>\<open>src/edhoc\<close>.
\<close>

section \<open>Encoding a plaintext\<close>

text \<open>The kid of an ID_CRED, encoded as an integer; no bytes if there is none.\<close>

definition id_cred2kid :: "'z zcbor \<Rightarrow> 'd zcbor_dec \<Rightarrow> bytes \<Rightarrow> u32 \<Rightarrow> bytes res" where
  "id_cred2kid Z D id_cred kid_len =
     TRY_EXPECT (cbor_decode_id_cred_x_map D (Some id_cred) (length id_cred)) (\<lambda>m.
     case map_kid m of
       Some i \<Rightarrow> TRY_EXPECT (cbor_encode_int_type_i Z (unat kid_len) i) Ok
     | None \<Rightarrow> Ok [])"

definition plaintext_encode ::
    "'z zcbor \<Rightarrow> 'd zcbor_dec \<Rightarrow> bytes \<Rightarrow> bytes \<Rightarrow> bytes \<Rightarrow> io_buf \<Rightarrow> io_buf res" where
  "plaintext_encode Z D id_cred sgn_or_mac ad = (\<lambda>(plaintext, plaintext_len).
     TRY (id_cred2kid Z D id_cred (of_nat KID_DEFAULT_SIZE)) (\<lambda>kid.
     let src = (if length kid \<noteq> 0 then kid else id_cred); l = of_nat (length src) in
     TRY (memcpy_s plaintext 0 plaintext_len (Some src) l) (\<lambda>p1.
     TRY (encode_byte_string Z sgn_or_mac (of_nat (length sgn_or_mac) + 2)) (\<lambda>enc.
     TRY (write_mem p1 (int (unat l)) enc) (\<lambda>p2.
     TRY (memcpy_s p2 (int (unat l + length enc)) (plaintext_len - l - of_nat (length enc))
            (Some ad) (of_nat (length ad))) (\<lambda>p3.
     Ok (p3, l + of_nat (length enc) + of_nat (length ad))))))))"

section \<open>Splitting a plaintext\<close>

definition empty_map :: "bytes id_cred_x_map" where
  "empty_map = \<lparr>map_kid = None, map_x5bag = None, map_x5chain = None, map_x5t = None,
     map_x5u = None, map_c5b = None, map_c5c = None, map_c5t = None, map_c5u = None\<rparr>"

text \<open>An \<^verbatim>\<open>int32_t\<close> as it lies in memory (little endian).\<close>

definition int32_le :: "bytes \<Rightarrow> i32" where
  "int32_le bs = (case bs of
     [a, b, c, d] \<Rightarrow> ucast a OR push_bit 8 (ucast b) OR push_bit 16 (ucast c) OR push_bit 24 (ucast d)
   | _ \<Rightarrow> 0)"

definition int32_bytes :: "i32 \<Rightarrow> bytes" where
  "int32_bytes x = map (\<lambda>i. ucast (drop_bit (8 * i) x)) [0, 1, 2, 3]"

text \<open>\<open>idp\<close> and \<open>id_len\<close> are the arguments of the function; a kid is read as an \<^verbatim>\<open>int32_t\<close>
  through \<open>idp\<close>, whatever its length.\<close>

definition id_cred_x_encode ::
    "'z zcbor \<Rightarrow> id_cred_x_label \<Rightarrow> i32 \<Rightarrow> ptr \<Rightarrow> u32 \<Rightarrow> u32 \<Rightarrow> bytes res" where
  "id_cred_x_encode Z label algo idp id_len id_cred_x_len =
     TRY (case label of
            L_kid \<Rightarrow> TRY (read_mem idp 4) (\<lambda>b. Ok (empty_map\<lparr>map_kid := Some (int32_le b)\<rparr>))
          | L_x5chain \<Rightarrow> TRY (read_mem idp (unat id_len)) (\<lambda>b.
              Ok (empty_map\<lparr>map_x5chain := Some b\<rparr>))
          | L_x5t \<Rightarrow> TRY (read_mem idp (unat id_len)) (\<lambda>b.
              Ok (empty_map\<lparr>map_x5t := Some \<lparr>x5t_alg = alg_int algo, x5t_hash = b\<rparr>\<rparr>))
          | _ \<Rightarrow> Ok empty_map) (\<lambda>m.
     TRY_EXPECT (cbor_encode_id_cred_x_map Z (unat id_cred_x_len) m) Ok)"

text \<open>The hash algorithm of an x5t entry is read as an integer.  When it is a text string, the
  integer would be part of the pointer to it: the outcome depends on an address, which the
  model leaves undefined.\<close>

definition x5t_alg_as_int :: "zcbor_string x5t \<Rightarrow> i32 res" where
  "x5t_alg_as_int t = (case x5t_alg t of alg_int i \<Rightarrow> Ok i | alg_tstr _ \<Rightarrow> Undef)"

text \<open>\<open>id_buf\<close> is the buffer for the ID_CRED; the two \<^verbatim>\<open>if\<close>s for a map both may write it.\<close>

definition split_id_cred :: "'z zcbor \<Rightarrow> id_cred_choice \<Rightarrow> io_buf \<Rightarrow> io_buf res" where
  "split_id_cred Z c = (\<lambda>(id_buf, id_len).
     let put = (\<lambda>label algo p n (buf, len).
           TRY (id_cred_x_encode Z label algo p n len) (\<lambda>enc.
           TRY (write_mem buf 0 enc) (\<lambda>buf'. Ok (buf', of_nat (length enc))))) in
     case c of
       ID_CRED_x__map m \<Rightarrow>
         TRY (case map_x5chain m of
                Some s \<Rightarrow> put L_x5chain 0 (zs_value s) (zs_len s) (id_buf, id_len)
              | None \<Rightarrow> Ok (id_buf, id_len)) (\<lambda>io1.
         case map_x5t m of
           Some t \<Rightarrow> TRY (x5t_alg_as_int t) (\<lambda>alg.
             put L_x5t alg (zs_value (x5t_hash t)) (zs_len (x5t_hash t)) io1)
         | None \<Rightarrow> Ok io1)
     | ID_CRED_x_bstr s \<Rightarrow> put L_kid 0 (zs_value s) (zs_len s) (id_buf, id_len)
     | ID_CRED_x_int i \<Rightarrow> put L_kid 0 (Some (int32_bytes i)) 1 (id_buf, id_len))"

text \<open>What a received plaintext is split into.\<close>

record split_bufs =
  sb_id_cred :: io_buf
  sb_sgn_or_mac :: io_buf
  sb_ead :: io_buf

definition plaintext_split ::
    "'z zcbor \<Rightarrow> 'd zcbor_dec \<Rightarrow> ptr \<Rightarrow> u32 \<Rightarrow> split_bufs \<Rightarrow> split_bufs res" where
  "plaintext_split Z D ptxt ptxt_len b =
     TRY_EXPECT (cbor_decode_plaintext D ptxt (unat ptxt_len)) (\<lambda>p.
     TRY (split_id_cred Z (plaintext_ID_CRED_x p) (sb_id_cred b)) (\<lambda>id_cred.
     let s = plaintext_SGN_or_MAC_x p; (sm, sm_len) = sb_sgn_or_mac b; (ad, ad_len) = sb_ead b in
     TRY (memcpy_s sm 0 sm_len (zs_value s) (zs_len s)) (\<lambda>sm'.
     case plaintext_AD_x p of
       Some a \<Rightarrow>
         TRY (memcpy_s ad 0 ad_len (zs_value a) (zs_len a)) (\<lambda>ad'.
         Ok \<lparr>sb_id_cred = id_cred, sb_sgn_or_mac = (sm', zs_len s), sb_ead = (ad', zs_len a)\<rparr>)
     | None \<Rightarrow>
         Ok \<lparr>sb_id_cred = id_cred, sb_sgn_or_mac = (sm', zs_len s), sb_ead = (ad, 0)\<rparr>)))"

section \<open>Encryption and decryption\<close>

datatype ciphertext = CIPHERTEXT2 | CIPHERTEXT3 | CIPHERTEXT4

text \<open>The loop writes \<open>out\<close> from the left; \<open>i\<close> is the index, \<open>k\<close> the rounds left.\<close>

fun xor_arrays_loop :: "nat \<Rightarrow> nat \<Rightarrow> bytes \<Rightarrow> bytes \<Rightarrow> bytes \<Rightarrow> bytes res" where
  "xor_arrays_loop 0 i in1 in2 out = Ok out"
| "xor_arrays_loop (Suc k) i in1 in2 out =
     TRY (arr_get in1 i) (\<lambda>a. TRY (arr_get in2 i) (\<lambda>b.
     TRY (arr_set out i (a XOR b)) (\<lambda>out'. xor_arrays_loop k (Suc i) in1 in2 out')))"

definition xor_arrays :: "bytes \<Rightarrow> bytes \<Rightarrow> u32 \<Rightarrow> bytes \<Rightarrow> bytes res" where
  "xor_arrays in1 in2 len out = xor_arrays_loop (unat len) 0 in1 in2 out"

text \<open>The result is the output buffer.  The copy of the tag goes to an array that the callers
  do not read.\<close>

definition ciphertext_encrypt_decrypt ::
    "crypto \<Rightarrow> ciphertext \<Rightarrow> aes_operation \<Rightarrow> bytes \<Rightarrow> bytes \<Rightarrow> u32 \<Rightarrow> bytes \<Rightarrow> bytes \<Rightarrow> bytes \<Rightarrow>
     u32 \<Rightarrow> u32 \<Rightarrow> bytes res" where
  "ciphertext_encrypt_decrypt C ctxt op inb key key_len iv aad out out_len tag_len =
     (if ctxt = CIPHERTEXT2 then xor_arrays inb key key_len out
      else
        TRY (crypto_aead C op inb key iv aad out_len tag_len) (\<lambda>(written, _).
        write_mem out 0 written))"

text \<open>Keystream or key and IV.\<close>

definition key_gen ::
    "crypto \<Rightarrow> 'z zcbor \<Rightarrow> ciphertext \<Rightarrow> int \<Rightarrow> bytes \<Rightarrow> bytes \<Rightarrow> u32 \<Rightarrow> u32 \<Rightarrow> (bytes \<times> bytes) res" where
  "key_gen C Z ctxt hash_alg prk th key_len iv_len = (case ctxt of
       CIPHERTEXT2 \<Rightarrow>
         TRY (okm_calc C Z hash_alg prk th (cstr ''KEYSTREAM_2'') [] key_len) (\<lambda>key. Ok (key, []))
     | CIPHERTEXT3 \<Rightarrow>
         TRY (okm_calc C Z hash_alg prk th (cstr ''K_3'') [] key_len) (\<lambda>key.
         TRY (okm_calc C Z hash_alg prk th (cstr ''IV_3'') [] iv_len) (\<lambda>iv. Ok (key, iv)))
     | CIPHERTEXT4 \<Rightarrow>
         TRY (edhoc_exporter C Z hash_alg prk th (cstr ''EDHOC_K_4'') key_len) (\<lambda>key.
         TRY (edhoc_exporter C Z hash_alg prk th (cstr ''EDHOC_IV_4'') iv_len) (\<lambda>iv. Ok (key, iv))))"

definition ciphertext_decrypt_split ::
    "crypto \<Rightarrow> 'z zcbor \<Rightarrow> 'd zcbor_dec \<Rightarrow> ciphertext \<Rightarrow> suite \<Rightarrow> split_bufs \<Rightarrow> bytes \<Rightarrow> bytes \<Rightarrow>
     bytes \<Rightarrow> split_bufs res" where
  "ciphertext_decrypt_split C Z D ctxt s b prk th ciphertext =
     (let ciphertext_len = of_nat (length ciphertext);
          key_len = (if ctxt = CIPHERTEXT2 then ciphertext_len else get_aead_key_len (edhoc_aead s));
          iv_len = get_aead_iv_len (edhoc_aead s); tag_len = get_aead_mac_len (edhoc_aead s);
          plaintext_len = (if ctxt = CIPHERTEXT2 then ciphertext_len else ciphertext_len - tag_len) in
      TRY (check_buffer_size (of_nat CIPHERTEXT2_DEFAULT_SIZE) key_len) (\<lambda>_.
      TRY (check_buffer_size (of_nat AEAD_IV_DEFAULT_SIZE) iv_len) (\<lambda>_.
      TRY (key_gen C Z ctxt (edhoc_hash s) prk th key_len iv_len) (\<lambda>(key, iv).
      TRY (associated_data_encode Z th ASSOCIATED_DATA_DEFAULT_SIZE) (\<lambda>associated_data.
      TRY (check_buffer_size (of_nat PLAINTEXT_DEFAULT_SIZE) plaintext_len) (\<lambda>_.
      TRY (ciphertext_encrypt_decrypt C ctxt DECRYPT ciphertext key key_len iv associated_data
             (replicate PLAINTEXT_DEFAULT_SIZE 0) plaintext_len tag_len) (\<lambda>plaintext.
      if ctxt = CIPHERTEXT4 \<and> plaintext_len \<noteq> 0 then
        TRY (decode_byte_string D (Some plaintext) plaintext_len (sb_ead b)) (\<lambda>ead.
        Ok (b\<lparr>sb_ead := ead\<rparr>))
      else if ctxt = CIPHERTEXT4 \<and> plaintext_len = 0 then
        Ok (b\<lparr>sb_ead := (fst (sb_ead b), 0)\<rparr>)
      else plaintext_split Z D (Some plaintext) plaintext_len b)))))))"

text \<open>The plaintext before the EAD is appended: the object and the length used so far.\<close>

definition gen_plaintext ::
    "'z zcbor \<Rightarrow> 'd zcbor_dec \<Rightarrow> ciphertext \<Rightarrow> bytes \<Rightarrow> bytes \<Rightarrow> io_buf res" where
  "gen_plaintext Z D ctxt id_cred enc =
     (let p = replicate PLAINTEXT_DEFAULT_SIZE 0; p_len = of_nat PLAINTEXT_DEFAULT_SIZE :: u32 in
      if ctxt \<noteq> CIPHERTEXT4 then
        TRY (id_cred2kid Z D id_cred (of_nat KID_DEFAULT_SIZE)) (\<lambda>kid.
        let src = (if length kid \<noteq> 0 then kid else id_cred); l = of_nat (length src) :: u32 in
        TRY (memcpy_s p 0 p_len (Some src) l) (\<lambda>p1.
        TRY (memcpy_s p1 (int (unat l)) (p_len - l) (Some enc) (of_nat (length enc))) (\<lambda>p2.
        Ok (p2, of_nat (length enc) + l))))
      else Ok (p, 0))"

text \<open>\<open>ciphertext\<close> is the output buffer before the call; the result are the bytes of the
  ciphertext in it.\<close>

definition ciphertext_gen ::
    "crypto \<Rightarrow> 'z zcbor \<Rightarrow> 'd zcbor_dec \<Rightarrow> ciphertext \<Rightarrow> suite \<Rightarrow> bytes \<Rightarrow> bytes \<Rightarrow> bytes \<Rightarrow> bytes \<Rightarrow>
     bytes \<Rightarrow> bytes \<Rightarrow> bytes res" where
  "ciphertext_gen C Z D ctxt s id_cred sgn_or_mac ead prk th ciphertext =
     (let sm_len = of_nat (length sgn_or_mac) :: u32 in
      TRY (check_buffer_size (of_nat SGN_OR_MAC_DEFAULT_SIZE) (sm_len + 2)) (\<lambda>_.
      TRY (encode_byte_string Z sgn_or_mac (sm_len + 2)) (\<lambda>enc.
      TRY (gen_plaintext Z D ctxt id_cred enc) (\<lambda>(p1, l1).
      TRY (if 0 < length ead then
             TRY (memcpy_s p1 (int (unat l1)) (of_nat PLAINTEXT_DEFAULT_SIZE - l1) (Some ead)
                    (of_nat (length ead))) (\<lambda>p2. Ok (p2, l1 + of_nat (length ead)))
           else Ok (p1, l1)) (\<lambda>(plaintext, plaintext_len).
      let key_len = (if ctxt = CIPHERTEXT2 then plaintext_len else get_aead_key_len (edhoc_aead s));
          iv_len = get_aead_iv_len (edhoc_aead s);
          mac_len = get_aead_mac_len (edhoc_aead s);
          tag_len = (if ctxt \<noteq> CIPHERTEXT2 then mac_len else 0) in
      TRY (check_buffer_size (of_nat CIPHERTEXT2_DEFAULT_SIZE) key_len) (\<lambda>_.
      TRY (check_buffer_size (of_nat AEAD_IV_DEFAULT_SIZE) iv_len) (\<lambda>_.
      TRY (key_gen C Z ctxt (edhoc_hash s) prk th key_len iv_len) (\<lambda>(key, iv).
      TRY (check_buffer_size (of_nat MAC_DEFAULT_SIZE) mac_len) (\<lambda>_.
      TRY (if ctxt \<noteq> CIPHERTEXT2 then associated_data_encode Z th ASSOCIATED_DATA_DEFAULT_SIZE
           else Ok []) (\<lambda>aad.
      TRY (ciphertext_encrypt_decrypt C ctxt ENCRYPT (take (unat plaintext_len) plaintext) key
             key_len iv aad ciphertext plaintext_len tag_len) (\<lambda>out.
      Ok (take (unat (plaintext_len + tag_len)) out))))))))))))"

end
