(* ===== verification/Edhoc_Protocol.thy ===== *)
theory Edhoc_Protocol
  imports Edhoc_Ciphertext
begin

text \<open>
  The two roles of EDHOC: \<^verbatim>\<open>initiator.c\<close>, \<^verbatim>\<open>responder.c\<close> and \<^verbatim>\<open>runtime_context.c\<close> of
  \<^verbatim>\<open>src/edhoc\<close> with the contexts of \<^verbatim>\<open>inc/edhoc.h\<close>.

  A role is a sequence of message functions on a runtime context, which is a local variable
  of the run: after an error nobody sees it, so the functions return it with \<open>Ok\<close> only.
  Sending and receiving are functions of the application; they are the parameters \<open>tx\<close> and
  \<open>rx\<close>, which change a world \<open>'w\<close>.  Arrays that are not initialised start with zeros, except
  where the code can read what was never written: those are the fields of \<open>edhoc_locals\<close>.
\<close>

section \<open>Contexts\<close>

record edhoc_initiator_context =
  ic_msg4 :: bool
  ic_c_i :: c_x
  ic_method :: int
  ic_suites_i :: bytes
  ic_ead_1 :: bytes
  ic_ead_3 :: bytes
  ic_id_cred_i :: bytes
  ic_cred_i :: bytes
  ic_g_x :: bytes
  ic_x :: bytes
  ic_g_i :: bytes
  ic_i :: bytes
  ic_sk_i :: bytes
  ic_pk_i :: bytes

record edhoc_responder_context =
  rp_msg4 :: bool
  rp_c_r :: c_x
  rp_suites_r :: bytes
  rp_g_y :: bytes
  rp_y :: bytes
  rp_g_r :: bytes
  rp_r :: bytes
  rp_ead_2 :: bytes
  rp_ead_4 :: bytes
  rp_id_cred_r :: bytes
  rp_cred_r :: bytes
  rp_sk_r :: bytes
  rp_pk_r :: bytes

record runtime_context =
  rt_msg1 :: io_buf
  rt_msg2 :: io_buf
  rt_msg3 :: io_buf
  rt_msg4 :: io_buf
  rt_suite :: suite
  rt_th3 :: bytes
  rt_PRK_3e2m :: bytes
  rt_static_dh_i :: bool

text \<open>\<^verbatim>\<open>struct runtime_context rc = { 0 }; runtime_context_init(&rc);\<close>\<close>

definition zero_suite :: suite where
  "zero_suite = \<lparr>suite_label = 0, edhoc_aead = 0, edhoc_hash = 0, edhoc_mac_len_static_dh = 0,
     edhoc_ecdh = 0, edhoc_sign = 0, app_aead = 0, app_hash = 0\<rparr>"

definition full_buf :: "nat \<Rightarrow> io_buf" where
  "full_buf n = (replicate n 0, of_nat n)"

definition runtime_context_init :: runtime_context where
  "runtime_context_init = \<lparr>
     rt_msg1 = full_buf MSG_1_DEFAULT_SIZE, rt_msg2 = full_buf MSG_2_DEFAULT_SIZE,
     rt_msg3 = full_buf MSG_2_DEFAULT_SIZE, rt_msg4 = full_buf MSG_4_DEFAULT_SIZE,
     rt_suite = zero_suite, rt_th3 = replicate SHA_DEFAULT_SIZE 0,
     rt_PRK_3e2m = replicate PRK_DEFAULT_SIZE 0, rt_static_dh_i = False\<rparr>"

text \<open>An encoded message put into its buffer; the bytes of a buffer.\<close>

definition put_msg :: "io_buf \<Rightarrow> bytes \<Rightarrow> io_buf res" where
  "put_msg io b = TRY (write_mem (fst io) 0 b) (\<lambda>buf. Ok (buf, of_nat (length b)))"

definition io_bytes :: "io_buf \<Rightarrow> bytes" where
  "io_bytes io = take (unat (snd io)) (fst io)"

record edhoc_locals =
  el_mac_buf :: bytes
  el_static_dh_r :: bool

definition fresh_keys :: peer_keys where
  "fresh_keys = \<lparr>pk_cred = full_buf CRED_DEFAULT_SIZE, pk_pk = full_buf PK_DEFAULT_SIZE,
     pk_g = full_buf G_R_DEFAULT_SIZE\<rparr>"

definition fresh_c_x :: "nat \<Rightarrow> c_x" where
  "fresh_c_x n = c_x_init \<lparr>cx_type = C_INT, cx_mem = c_x_int 0\<rparr> (replicate n 0)"

section \<open>Initiator: message 1\<close>

definition msg1_suites :: "bytes \<Rightarrow> suites_choice res" where
  "msg1_suites suites_i =
     (if length suites_i = 1 then
        TRY (arr_get suites_i 0) (\<lambda>s. Ok (SUITES_I_int (ucast s)))
      else if 1 < length suites_i then
        if length suites_i \<le> 10
        then Ok (SUITES_I_suite (map ucast suites_i @ replicate (10 - length suites_i) 0)
                   (length suites_i))
        else Undef
      else Undef)"

definition msg1_gen ::
    "'z zcbor \<Rightarrow> edhoc_initiator_context \<Rightarrow> runtime_context \<Rightarrow> runtime_context res" where
  "msg1_gen Z c rt =
     TRY (msg1_suites (ic_suites_i c)) (\<lambda>suites.
     TRY (c_x_choice (ic_c_i c)) (\<lambda>c_i.
     TRY_EXPECT (cbor_encode_message_1 Z (unat (snd (rt_msg1 rt)))
       \<lparr>message_1_METHOD = of_int (ic_method c), message_1_SUITES_I = suites,
        message_1_G_X = ic_g_x c, message_1_C_I = c_i,
        message_1_ead_1 = (if length (ic_ead_1 c) \<noteq> 0 then Some (ic_ead_1 c) else None)\<rparr>) (\<lambda>b.
     TRY (put_msg (rt_msg1 rt) b) (\<lambda>m. Ok (rt\<lparr>rt_msg1 := m\<rparr>)))))"

section \<open>Initiator: message 2 and 3\<close>

text \<open>The result is the key, the connection identifier and the ciphertext.\<close>

definition msg2_parse ::
    "'d zcbor_dec \<Rightarrow> io_buf \<Rightarrow> u32 \<Rightarrow> c_x \<Rightarrow> io_buf \<Rightarrow> (bytes \<times> c_x \<times> io_buf) res" where
  "msg2_parse D msg2 g_y_len c_r = (\<lambda>(ct, ct_len).
     TRY_EXPECT (cbor_decode_m2 D (Some (fst msg2)) (unat (snd msg2))) (\<lambda>m.
     let s = m2_G_Y_CIPHERTEXT_2 m; rest_len = zs_len s - g_y_len in
     TRY (memcpy_s (replicate G_Y_DEFAULT_SIZE 0) 0 g_y_len (zs_value s) g_y_len) (\<lambda>g_y.
     TRY (memcpy_s ct 0 ct_len (advance (zs_value s) (unat g_y_len)) rest_len) (\<lambda>ct'.
     TRY (case m2_C_R m of
            choice_int i \<Rightarrow> c_x_set C_INT None 0 i c_r
          | choice_bstr b \<Rightarrow> c_x_set C_BSTR (zs_value b) (zs_len b) 0 c_r) (\<lambda>c_r'.
     Ok (take (unat g_y_len) g_y, c_r', (ct', rest_len)))))))"

text \<open>The values both roles derive before the responder is authenticated.\<close>

definition prk_2e_derive :: "crypto \<Rightarrow> suite \<Rightarrow> bytes \<Rightarrow> bytes \<Rightarrow> bytes res" where
  "prk_2e_derive C s sk pk =
     TRY (crypto_shared_secret_derive C (edhoc_ecdh s) sk pk) (\<lambda>g_xy.
     crypto_hkdf_extract C (edhoc_hash s) [] g_xy)"

record msg3_result =
  m3_rt :: runtime_context
  m3_ead :: io_buf
  m3_prk_4x3m :: bytes
  m3_th4 :: bytes

definition fresh_split :: "io_buf \<Rightarrow> split_bufs" where
  "fresh_split ead = \<lparr>sb_id_cred = full_buf ID_CRED_DEFAULT_SIZE,
     sb_sgn_or_mac = full_buf SGN_OR_MAC_DEFAULT_SIZE, sb_ead = ead\<rparr>"

text \<open>From message 2 to the authenticated responder: TH_2, PRK_3e2m, G_Y, CIPHERTEXT_2, EAD_2.\<close>

definition msg2_process ::
    "crypto \<Rightarrow> 'z zcbor \<Rightarrow> 'd zcbor_dec \<Rightarrow> edhoc_locals \<Rightarrow> edhoc_initiator_context \<Rightarrow> suite \<Rightarrow> bool \<Rightarrow>
     runtime_context \<Rightarrow> other_party_cred list \<Rightarrow> u16 \<Rightarrow> io_buf \<Rightarrow>
     (bytes \<times> bytes \<times> bytes \<times> bytes \<times> io_buf) res" where
  "msg2_process C Z D L c s static_dh_r rt cred_r_array num_cred_r ead_2 =
     TRY (msg2_parse D (rt_msg2 rt) (get_ecdh_pk_len (edhoc_ecdh s)) (fresh_c_x C_R_DEFAULT_SIZE)
            (full_buf CIPHERTEXT2_DEFAULT_SIZE)) (\<lambda>(g_y, c_r, ct2).
     TRY (crypto_shared_secret_derive C (edhoc_ecdh s) (ic_x c) g_y) (\<lambda>g_xy.
     TRY (th2_calculate C Z (edhoc_hash s) (io_bytes (rt_msg1 rt)) g_y c_r) (\<lambda>th2.
     TRY (crypto_hkdf_extract C (edhoc_hash s) [] g_xy) (\<lambda>PRK_2e.
     TRY (ciphertext_decrypt_split C Z D CIPHERTEXT2 s (fresh_split ead_2) PRK_2e th2 (io_bytes ct2))
       (\<lambda>b.
     TRY (retrieve_cred C Z D static_dh_r cred_r_array num_cred_r (io_bytes (sb_id_cred b)) fresh_keys)
       (\<lambda>k.
     TRY (prk_derive C static_dh_r s PRK_2e (io_bytes (pk_g k)) (ic_x c)) (\<lambda>PRK_3e2m.
     TRY (signature_or_mac C Z (el_mac_buf L) VERIFY static_dh_r s [] (io_bytes (pk_pk k)) PRK_3e2m th2
            (io_bytes (sb_id_cred b)) (io_bytes (pk_cred k)) (io_bytes (sb_ead b)) (cstr ''MAC_2'')
            (sb_sgn_or_mac b)) (\<lambda>_.
     Ok (th2, PRK_3e2m, g_y, io_bytes ct2, sb_ead b)))))))))"

definition msg3_gen ::
    "crypto \<Rightarrow> 'z zcbor \<Rightarrow> 'd zcbor_dec \<Rightarrow> edhoc_locals \<Rightarrow> edhoc_initiator_context \<Rightarrow> runtime_context \<Rightarrow>
     other_party_cred list \<Rightarrow> u16 \<Rightarrow> io_buf \<Rightarrow> msg3_result res" where
  "msg3_gen C Z D L c rt cred_r_array num_cred_r ead_2 =
     TRY (arr_get (ic_suites_i c) (length (ic_suites_i c) - 1)) (\<lambda>label.
     TRY (get_suite (int (unat label))) (\<lambda>s.
     TRY (authentication_type_get (ic_method c) (False, False)) (\<lambda>(static_dh_i, static_dh_r).
     TRY (msg2_process C Z D L c s static_dh_r rt cred_r_array num_cred_r ead_2)
       (\<lambda>(th2, PRK_3e2m, g_y, ct2, ead_2').
     TRY (th3_calculate C Z (edhoc_hash s) th2 ct2) (\<lambda>th3.
     TRY (prk_derive C static_dh_i s PRK_3e2m g_y (ic_i c)) (\<lambda>prk_4x3m.
     TRY (signature_or_mac C Z (el_mac_buf L) GENERATE static_dh_i s (ic_sk_i c) (ic_pk_i c) prk_4x3m
            th3 (ic_id_cred_i c) (ic_cred_i c) (ic_ead_3 c) (cstr ''MAC_3'')
            (replicate SIGNATURE_DEFAULT_SIZE 0, get_signature_len (edhoc_sign s))) (\<lambda>sm3.
     TRY (ciphertext_gen C Z D CIPHERTEXT3 s (ic_id_cred_i c) (io_bytes sm3) (ic_ead_3 c) PRK_3e2m th3
            (replicate CIPHERTEXT3_DEFAULT_SIZE 0)) (\<lambda>ct3.
     TRY (check_buffer_size (of_nat CIPHERTEXT3_DEFAULT_SIZE)
            (of_nat (length ct3) + of_nat ENCODING_OVERHEAD)) (\<lambda>_.
     TRY (encode_byte_string Z ct3 (snd (rt_msg3 rt))) (\<lambda>enc.
     TRY (put_msg (rt_msg3 rt) enc) (\<lambda>msg3.
     TRY (th4_calculate C Z (edhoc_hash s) th3 ct3) (\<lambda>th4.
     Ok \<lparr>m3_rt = rt\<lparr>rt_suite := s, rt_msg3 := msg3\<rparr>, m3_ead = ead_2', m3_prk_4x3m = prk_4x3m,
         m3_th4 = th4\<rparr>))))))))))))"

section \<open>Initiator: message 4 and the run\<close>

definition msg4_process ::
    "crypto \<Rightarrow> 'z zcbor \<Rightarrow> 'd zcbor_dec \<Rightarrow> runtime_context \<Rightarrow> io_buf \<Rightarrow> bytes \<Rightarrow> bytes \<Rightarrow> io_buf res" where
  "msg4_process C Z D rt ead_4 prk_4x3m th4 =
     TRY (decode_byte_string D (Some (fst (rt_msg4 rt))) (snd (rt_msg4 rt))
            (full_buf CIPHERTEXT4_DEFAULT_SIZE)) (\<lambda>ct4.
     TRY (ciphertext_decrypt_split C Z D CIPHERTEXT4 (rt_suite rt)
            \<lparr>sb_id_cred = ([], 0), sb_sgn_or_mac = ([], 0), sb_ead = ead_4\<rparr> prk_4x3m th4 (io_bytes ct4))
       (\<lambda>b. Ok (sb_ead b)))"

text \<open>The functions of the application: \<open>rx\<close> gets the buffer and its size.\<close>

type_synonym 'w tx_fun = "bytes \<Rightarrow> ('w, unit) act"
type_synonym 'w rx_fun = "io_buf \<Rightarrow> ('w, io_buf) act"

text \<open>What a run hands to the caller: the received EADs and the results for the exporter.\<close>

record run_result =
  rr_ead_a :: io_buf
  rr_ead_b :: io_buf
  rr_prk_4x3m :: bytes
  rr_th4 :: bytes

definition edhoc_initiator_run ::
    "crypto \<Rightarrow> 'z zcbor \<Rightarrow> 'd zcbor_dec \<Rightarrow> edhoc_locals \<Rightarrow> edhoc_initiator_context \<Rightarrow>
     other_party_cred list \<Rightarrow> u16 \<Rightarrow> io_buf \<Rightarrow> io_buf \<Rightarrow> 'w tx_fun \<Rightarrow> 'w rx_fun \<Rightarrow>
     ('w, run_result) act" where
  "edhoc_initiator_run C Z D L c cred_r_array num_cred_r ead_2 ead_4 tx rx =
     TRYS (liftS (msg1_gen Z c runtime_context_init)) (\<lambda>rt.
     TRYS (tx (io_bytes (rt_msg1 rt))) (\<lambda>_.
     TRYS (rx (rt_msg2 rt)) (\<lambda>msg2.
     TRYS (liftS (msg3_gen C Z D L c (rt\<lparr>rt_msg2 := msg2\<rparr>) cred_r_array num_cred_r ead_2)) (\<lambda>m3.
     TRYS (tx (io_bytes (rt_msg3 (m3_rt m3)))) (\<lambda>_.
     if ic_msg4 c then
       TRYS (rx (rt_msg4 (m3_rt m3))) (\<lambda>msg4.
       TRYS (liftS (msg4_process C Z D ((m3_rt m3)\<lparr>rt_msg4 := msg4\<rparr>) ead_4 (m3_prk_4x3m m3) (m3_th4 m3)))
         (\<lambda>ead_4'.
       liftS (Ok \<lparr>rr_ead_a = m3_ead m3, rr_ead_b = ead_4', rr_prk_4x3m = m3_prk_4x3m m3,
                  rr_th4 = m3_th4 m3\<rparr>)))
     else liftS (Ok \<lparr>rr_ead_a = m3_ead m3, rr_ead_b = ead_4, rr_prk_4x3m = m3_prk_4x3m m3,
                     rr_th4 = m3_th4 m3\<rparr>))))))"

section \<open>Responder: message 1\<close>

record msg1_fields =
  mf_method :: int
  mf_suites_i :: "bytes \<times> nat"
  mf_g_x :: io_buf
  mf_c_i :: c_x
  mf_ead_1 :: io_buf

text \<open>The suites: at most as many as the array \<open>suites\<close> holds.\<close>

definition parse_suites :: "suites_choice \<Rightarrow> bytes \<Rightarrow> (bytes \<times> nat) res" where
  "parse_suites sc suites = (case sc of
      SUITES_I_int i \<Rightarrow> TRY (arr_set suites 0 (ucast i)) (\<lambda>a. Ok (a, 1))
    | SUITES_I_suite xs n \<Rightarrow>
        if length suites < n then Fail suites_i_list_to_long
        else TRY (write_mem suites 0 (map ucast (take n xs))) (\<lambda>a. Ok (a, n)))"

definition msg1_parse ::
    "'d zcbor_dec \<Rightarrow> io_buf \<Rightarrow> bytes \<Rightarrow> io_buf \<Rightarrow> c_x \<Rightarrow> io_buf \<Rightarrow> msg1_fields res" where
  "msg1_parse D msg1 suites_i = (\<lambda>(g_x, g_x_len) c_i (ad1, ad1_len).
     TRY_EXPECT (cbor_decode_message_1 D (Some (fst msg1)) (unat (snd msg1))) (\<lambda>m.
     TRY (parse_suites (message_1_SUITES_I m) suites_i) (\<lambda>suites.
     TRY (memcpy_s g_x 0 g_x_len (zs_value (message_1_G_X m)) (zs_len (message_1_G_X m))) (\<lambda>g_x'.
     TRY (case message_1_C_I m of
            choice_int i \<Rightarrow> c_x_set C_INT None 0 i c_i
          | choice_bstr b \<Rightarrow> c_x_set C_BSTR (zs_value b) 0 0 c_i) (\<lambda>c_i'.
     TRY (case message_1_ead_1 m of
            Some e \<Rightarrow> TRY (memcpy_s ad1 0 ad1_len (zs_value e) (zs_len e)) (\<lambda>a. Ok (a, zs_len e))
          | None \<Rightarrow> Ok (ad1, ad1_len)) (\<lambda>ead_1.
     Ok \<lparr>mf_method = sint (message_1_METHOD m), mf_suites_i = suites,
         mf_g_x = (g_x', zs_len (message_1_G_X m)), mf_c_i = c_i', mf_ead_1 = ead_1\<rparr>))))))"

text \<open>The loop has an 8-bit counter and a 32-bit bound.  \<open>None\<close> is a run that never ends,
  which the C standard leaves undefined for a loop without side effects.\<close>

partial_function (option) selected_suite_loop :: "u8 \<Rightarrow> bytes \<Rightarrow> u8 \<Rightarrow> bool option" where
  "selected_suite_loop selected suites_r i =
     (if unat i < length suites_r then
        if suites_r ! unat i = selected then Some True
        else selected_suite_loop selected suites_r (i + 1)
      else Some False)"

declare selected_suite_loop.simps [code]

definition selected_suite_is_supported :: "u8 \<Rightarrow> bytes \<Rightarrow> bool option" where
  "selected_suite_is_supported selected suites_r = selected_suite_loop selected suites_r 0"

section \<open>Responder: message 2\<close>

definition msg2_encode :: "'z zcbor \<Rightarrow> bytes \<Rightarrow> c_x \<Rightarrow> bytes \<Rightarrow> u32 \<Rightarrow> bytes res" where
  "msg2_encode Z g_y c_r ct2 msg2_len =
     (let size = G_Y_DEFAULT_SIZE + CIPHERTEXT2_DEFAULT_SIZE;
          n = of_nat (length g_y) + of_nat (length ct2) :: u32 in
      TRY (check_buffer_size (of_nat size) n) (\<lambda>_.
      TRY (write_mem (replicate size 0) 0 g_y) (\<lambda>b1.
      TRY (write_mem b1 (int (length g_y)) ct2) (\<lambda>b2.
      TRY (c_x_choice c_r) (\<lambda>c.
      TRY_EXPECT (cbor_encode_m2 Z (unat msg2_len)
        \<lparr>m2_G_Y_CIPHERTEXT_2 = take (unat n) b2, m2_C_R = c\<rparr>) Ok)))))"

definition msg2_gen ::
    "crypto \<Rightarrow> 'z zcbor \<Rightarrow> 'd zcbor_dec \<Rightarrow> edhoc_locals \<Rightarrow> edhoc_responder_context \<Rightarrow>
     runtime_context \<Rightarrow> io_buf \<Rightarrow> (runtime_context \<times> io_buf) res" where
  "msg2_gen C Z D L c rt ead_1 =
     TRY (msg1_parse D (rt_msg1 rt) (replicate 5 0) (full_buf G_X_DEFAULT_SIZE)
            (fresh_c_x C_I_DEFAULT_SIZE) ead_1) (\<lambda>f.
     let (suites, n) = mf_suites_i f; g_x = io_bytes (mf_g_x f) in
     TRY (if n = 0 then Undef else arr_get suites (n - 1)) (\<lambda>selected.
     TRY (case selected_suite_is_supported selected (rp_suites_r c) of
            None \<Rightarrow> Undef | Some b \<Rightarrow> Ok b) (\<lambda>supported.
     if \<not> supported then Fail error_message_sent
     else
     TRY (get_suite (int (unat selected))) (\<lambda>s.
     TRY (authentication_type_get (mf_method f) (rt_static_dh_i rt, el_static_dh_r L))
       (\<lambda>(static_dh_i, static_dh_r).
     TRY (th2_calculate C Z (edhoc_hash s) (io_bytes (rt_msg1 rt)) (rp_g_y c) (rp_c_r c)) (\<lambda>th2.
     TRY (prk_2e_derive C s (rp_y c) g_x) (\<lambda>PRK_2e.
     TRY (prk_derive C static_dh_r s PRK_2e g_x (rp_r c)) (\<lambda>PRK_3e2m.
     TRY (check_buffer_size (of_nat SIGNATURE_DEFAULT_SIZE) (get_signature_len (edhoc_sign s))) (\<lambda>_.
     TRY (signature_or_mac C Z (el_mac_buf L) GENERATE static_dh_r s (rp_sk_r c) (rp_pk_r c) PRK_3e2m
            th2 (rp_id_cred_r c) (rp_cred_r c) (rp_ead_2 c) (cstr ''MAC_2'')
            (replicate SIGNATURE_DEFAULT_SIZE 0, get_signature_len (edhoc_sign s))) (\<lambda>sm2.
     TRY (ciphertext_gen C Z D CIPHERTEXT2 s (rp_id_cred_r c) (io_bytes sm2) (rp_ead_2 c) PRK_2e th2
            (replicate CIPHERTEXT2_DEFAULT_SIZE 0)) (\<lambda>ct2.
     TRY (msg2_encode Z (rp_g_y c) (rp_c_r c) ct2 (snd (rt_msg2 rt))) (\<lambda>enc.
     TRY (put_msg (rt_msg2 rt) enc) (\<lambda>msg2.
     TRY (th3_calculate C Z (edhoc_hash s) th2 ct2) (\<lambda>th3.
     Ok (rt\<lparr>rt_suite := s, rt_static_dh_i := static_dh_i, rt_PRK_3e2m := PRK_3e2m,
            rt_msg2 := msg2, rt_th3 := th3\<rparr>, mf_ead_1 f)))))))))))))))"

section \<open>Responder: message 3, message 4 and the run\<close>

definition msg3_process ::
    "crypto \<Rightarrow> 'z zcbor \<Rightarrow> 'd zcbor_dec \<Rightarrow> edhoc_locals \<Rightarrow> edhoc_responder_context \<Rightarrow>
     runtime_context \<Rightarrow> other_party_cred list \<Rightarrow> u16 \<Rightarrow> io_buf \<Rightarrow> msg3_result res" where
  "msg3_process C Z D L c rt cred_i_array num_cred_i ead_3 =
     (let s = rt_suite rt; static_dh_i = rt_static_dh_i rt; th3 = rt_th3 rt in
      TRY (decode_byte_string D (Some (fst (rt_msg3 rt))) (snd (rt_msg3 rt))
             (full_buf CIPHERTEXT3_DEFAULT_SIZE)) (\<lambda>ct3.
      TRY (ciphertext_decrypt_split C Z D CIPHERTEXT3 s (fresh_split ead_3) (rt_PRK_3e2m rt) th3
             (io_bytes ct3)) (\<lambda>b.
      TRY (retrieve_cred C Z D static_dh_i cred_i_array num_cred_i (io_bytes (sb_id_cred b)) fresh_keys)
        (\<lambda>k.
      TRY (prk_derive C static_dh_i s (rt_PRK_3e2m rt) (io_bytes (pk_g k)) (rp_y c)) (\<lambda>prk_4x3m.
      TRY (signature_or_mac C Z (el_mac_buf L) VERIFY static_dh_i s [] (io_bytes (pk_pk k)) prk_4x3m th3
             (io_bytes (sb_id_cred b)) (io_bytes (pk_cred k)) (io_bytes (sb_ead b)) (cstr ''MAC_3'')
             (sb_sgn_or_mac b)) (\<lambda>_.
      TRY (th4_calculate C Z (edhoc_hash s) th3 (io_bytes ct3)) (\<lambda>th4.
      Ok \<lparr>m3_rt = rt, m3_ead = sb_ead b, m3_prk_4x3m = prk_4x3m, m3_th4 = th4\<rparr>)))))))"

definition msg4_gen ::
    "crypto \<Rightarrow> 'z zcbor \<Rightarrow> 'd zcbor_dec \<Rightarrow> edhoc_responder_context \<Rightarrow> runtime_context \<Rightarrow> bytes \<Rightarrow>
     bytes \<Rightarrow> runtime_context res" where
  "msg4_gen C Z D c rt prk_4x3m th4 =
     TRY (ciphertext_gen C Z D CIPHERTEXT4 (rt_suite rt) [] [] (rp_ead_4 c) prk_4x3m th4
            (replicate CIPHERTEXT4_DEFAULT_SIZE 0)) (\<lambda>ct4.
     TRY (encode_byte_string Z ct4 (snd (rt_msg4 rt))) (\<lambda>enc.
     TRY (put_msg (rt_msg4 rt) enc) (\<lambda>msg4. Ok (rt\<lparr>rt_msg4 := msg4\<rparr>))))"

definition edhoc_responder_run ::
    "crypto \<Rightarrow> 'z zcbor \<Rightarrow> 'd zcbor_dec \<Rightarrow> edhoc_locals \<Rightarrow> edhoc_responder_context \<Rightarrow>
     other_party_cred list \<Rightarrow> u16 \<Rightarrow> io_buf \<Rightarrow> io_buf \<Rightarrow> 'w tx_fun \<Rightarrow> 'w rx_fun \<Rightarrow>
     ('w, run_result) act" where
  "edhoc_responder_run C Z D L c cred_i_array num_cred_i ead_1 ead_3 tx rx =
     TRYS (rx (rt_msg1 runtime_context_init)) (\<lambda>msg1.
     TRYS (liftS (msg2_gen C Z D L c (runtime_context_init\<lparr>rt_msg1 := msg1\<rparr>) ead_1)) (\<lambda>(rt, ead_1').
     TRYS (tx (io_bytes (rt_msg2 rt))) (\<lambda>_.
     TRYS (rx (rt_msg3 rt)) (\<lambda>msg3.
     TRYS (liftS (msg3_process C Z D L c (rt\<lparr>rt_msg3 := msg3\<rparr>) cred_i_array num_cred_i ead_3)) (\<lambda>m3.
     let done = \<lparr>rr_ead_a = ead_1', rr_ead_b = m3_ead m3, rr_prk_4x3m = m3_prk_4x3m m3,
                 rr_th4 = m3_th4 m3\<rparr> in
     if rp_msg4 c then
       TRYS (liftS (msg4_gen C Z D c (m3_rt m3) (m3_prk_4x3m m3) (m3_th4 m3))) (\<lambda>rt'.
       TRYS (tx (io_bytes (rt_msg4 rt'))) (\<lambda>_. liftS (Ok done)))
     else liftS (Ok done))))))"

end
