(* ===== verification/Cbor_Reference.thy ===== *)
theory Cbor_Reference
  imports Edhoc_Cbor_Decode
begin

text \<open>
  A decoding half of zcbor for the examples: a state with which the decoders of
  \<open>Edhoc_Cbor_Decode\<close> can be run on concrete messages.  It decodes what \<open>rfc8949_zcbor\<close> of
  \<open>Cbor_Encode\<close> encodes: items with heads of up to four argument bytes.
\<close>

section \<open>Heads\<close>

text \<open>Major type, argument and the number of bytes of the head.\<close>

fun decode_head :: "bytes \<Rightarrow> (nat \<times> nat \<times> nat) option" where
  "decode_head [] = None"
| "decode_head (b # bs) =
     (let major = unat b div 32; n = unat b mod 32 in
      if n < 24 then Some (major, n, 1)
      else if n = 24 \<and> 1 \<le> length bs then Some (major, unat (bs ! 0), 2)
      else if n = 25 \<and> 2 \<le> length bs then Some (major, unat (bs ! 0) * 256 + unat (bs ! 1), 3)
      else if n = 26 \<and> 4 \<le> length bs then
        Some (major, ((unat (bs ! 0) * 256 + unat (bs ! 1)) * 256 + unat (bs ! 2)) * 256 + unat (bs ! 3), 5)
      else None)"

section \<open>States\<close>

text \<open>The bytes from the read position to the end of the object, how many of them belong to the
  payload, the items left in the list or payload, how many backups can still be made, and the
  backups.\<close>

type_synonym zdstate = "bytes \<times> nat \<times> nat \<times> nat \<times> (bytes \<times> nat \<times> nat) list"

text \<open>One item: its head is checked by \<open>ok\<close> and decoded by \<open>val\<close> from the argument and the bytes
  behind the head; \<open>n\<close> says how many of these belong to it.\<close>

definition ref_item ::
    "(nat \<Rightarrow> nat \<Rightarrow> bool) \<Rightarrow> (nat \<Rightarrow> nat) \<Rightarrow> (nat \<Rightarrow> nat \<Rightarrow> bytes \<Rightarrow> 'a) \<Rightarrow> (zdstate, 'a) zdec" where
  "ref_item ok n val = (\<lambda>(mem, left, elems, bks).
     case decode_head (take left mem) of
       None \<Rightarrow> (None, (mem, left, elems, bks))
     | Some (major, arg, hs) \<Rightarrow>
         if 0 < elems \<and> ok major arg \<and> hs + n arg \<le> left
         then (Some (val major arg (drop hs mem)),
               (drop (hs + n arg) mem, left - (hs + n arg), elems - 1, bks))
         else (None, (mem, left, elems, bks)))"

definition ref_call :: "(zdstate, unit) zdec \<Rightarrow> zdstate zcall" where
  "ref_call p = (\<lambda>s. case p s of (Some _, s') \<Rightarrow> (True, s') | (None, s') \<Rightarrow> (False, s'))"

definition ref_int32 :: "(zdstate, i32) zdec" where
  "ref_int32 = ref_item (\<lambda>major arg. major \<le> 1 \<and> int arg < 2147483648) (\<lambda>_. 0)
     (\<lambda>major arg _. if major = 0 then of_nat arg else - 1 - of_nat arg)"

definition ref_string :: "nat \<Rightarrow> (zdstate, zcbor_string) zdec" where
  "ref_string m = ref_item (\<lambda>major _. major = m) (\<lambda>arg. arg)
     (\<lambda>_ arg rest. \<lparr>zs_value = Some rest, zs_len = of_nat arg\<rparr>)"

definition ref_uint_expect :: "u32 \<Rightarrow> zdstate zcall" where
  "ref_uint_expect u = ref_call (ref_item (\<lambda>major arg. major = 0 \<and> arg = unat u) (\<lambda>_. 0) (\<lambda>_ _ _. ()))"

text \<open>Lists and maps count their own items; the count outside is a backup.\<close>

definition ref_start :: "nat \<Rightarrow> (nat \<Rightarrow> nat) \<Rightarrow> zdstate zcall" where
  "ref_start m count = (\<lambda>s. case ref_item (\<lambda>major _. major = m) (\<lambda>_. 0) (\<lambda>_ arg _. count arg) s of
     (Some n, (mem, left, elems, free, bks)) \<Rightarrow>
       if 0 < free then (True, (mem, left, n, free - 1, (mem, left, elems) # bks)) else (False, s)
   | (None, s') \<Rightarrow> (False, s'))"

fun ref_end :: "zdstate zcall" where
  "ref_end (mem, left, elems, free, (_, _, outer) # bks) =
     (elems = 0, (mem, left, outer, free + 1, bks))"
| "ref_end s = (False, s)"

fun ref_union_start :: "zdstate zcall" where
  "ref_union_start (mem, left, elems, free, bks) =
     (if 0 < free then (True, (mem, left, elems, free - 1, (mem, left, elems) # bks))
      else (False, (mem, left, elems, free, bks)))"

fun ref_union_elem :: "zdstate zcall" where
  "ref_union_elem (_, _, _, free, (mem, left, elems) # bks) =
     (True, (mem, left, elems, free, (mem, left, elems) # bks))"
| "ref_union_elem s = (False, s)"

fun ref_union_end :: "zdstate zcall" where
  "ref_union_end (mem, left, elems, free, _ # bks) = (True, (mem, left, elems, free + 1, bks))"
| "ref_union_end s = (False, s)"

text \<open>Repetition: an attempt that fails is undone and ends it.\<close>

fun ref_many :: "nat \<Rightarrow> (zdstate, 'a) zdec \<Rightarrow> (zdstate, 'a list) zdec" where
  "ref_many 0 p s = (Some [], s)"
| "ref_many (Suc k) p s = (case p s of
      (Some a, s') \<Rightarrow> (case ref_many k p s' of
          (Some xs, s'') \<Rightarrow> (Some (a # xs), s'') | (None, s'') \<Rightarrow> (None, s''))
    | (None, _) \<Rightarrow> (Some [], s))"

definition ref_multi :: "nat \<Rightarrow> nat \<Rightarrow> (zdstate, 'a) zdec \<Rightarrow> (zdstate, 'a list) zdec" where
  "ref_multi lo hi p = (\<lambda>s. case ref_many hi p s of
     (Some xs, s') \<Rightarrow> (if lo \<le> length xs then Some xs else None, s') | (None, s') \<Rightarrow> (None, s'))"

definition ref_present :: "(zdstate, 'a) zdec \<Rightarrow> (zdstate, 'a option) zdec" where
  "ref_present p = (\<lambda>s. case p s of (Some a, s') \<Rightarrow> (Some (Some a), s') | (None, _) \<Rightarrow> (Some None, s))"

definition rfc8949_dec :: "zdstate zcbor_dec" where
  "rfc8949_dec = \<lparr>
     zd_new_state = (\<lambda>n_states payload n elem_count.
        (case payload of Some bs \<Rightarrow> bs | None \<Rightarrow> [], n, elem_count, n_states - 2, [])),
     zcbor_int32_decode = ref_int32,
     zcbor_bstr_decode = ref_string 2,
     zcbor_tstr_decode = ref_string 3,
     zcbor_uint32_expect = ref_uint_expect,
     zcbor_list_start_decode = ref_start 4 (\<lambda>n. n),
     zcbor_list_end_decode = ref_end,
     zcbor_map_start_decode = ref_start 5 (\<lambda>n. 2 * n),
     zcbor_map_end_decode = ref_end,
     zcbor_union_start_code = ref_union_start,
     zcbor_union_elem_code = ref_union_elem,
     zcbor_union_end_code = ref_union_end,
     zcbor_multi_decode = ref_multi,
     zcbor_present_decode = ref_present\<rparr>"

end
