(* ===== verification/Cbor_Reader.thy ===== *)
theory Cbor_Reader
  imports Cbor_Reference
begin

text \<open>
  What the decoders of EDHOC return: a zcbor library that behaves as the reference decoder, up to
  the representation of its states, gives what the reference decoder gives, and the reference
  decoder reads back what the canonical encoders write.
\<close>

section \<open>Libraries that follow the reference decoder\<close>

text \<open>\<open>follows R p q\<close>: from related states \<open>p\<close> returns what \<open>q\<close> returns, in related states.\<close>

definition follows :: "('z \<Rightarrow> 'v \<Rightarrow> bool) \<Rightarrow> ('z \<Rightarrow> 'a \<times> 'z) \<Rightarrow> ('v \<Rightarrow> 'a \<times> 'v) \<Rightarrow> bool" where
  "follows R p q \<longleftrightarrow> (\<forall>s v. R s v \<longrightarrow> fst (p s) = fst (q v) \<and> R (snd (p s)) (snd (q v)))"

named_theorems follows

lemma followsD: "follows R p q \<Longrightarrow> R s v \<Longrightarrow> fst (p s) = fst (q v)" "follows R p q \<Longrightarrow> R s v \<Longrightarrow> R (snd (p s)) (snd (q v))"
  by (auto simp: follows_def)

lemma follows_bind [follows]:
  "follows R p q \<Longrightarrow> (\<And>a. follows R (f a) (g a)) \<Longrightarrow> follows R (zd_bind p f) (zd_bind q g)"
  unfolding follows_def zd_bind_def by (auto simp: case_prod_unfold split: option.splits)

lemma follows_or [follows]: "follows R p q \<Longrightarrow> follows R p' q' \<Longrightarrow> follows R (zd_or p p') (zd_or q q')"
  unfolding follows_def zd_or_def by (auto simp: case_prod_unfold split: option.splits)

lemma follows_ret [follows]: "follows R (zd_ret a) (zd_ret a)"
  by (simp add: follows_def zd_ret_def)

lemma follows_map [follows]: "follows R p q \<Longrightarrow> follows R (zd_map f p) (zd_map f q)"
  unfolding zd_map_def by (intro follows)

lemma follows_test [follows]: "follows R p q \<Longrightarrow> follows R p' q' \<Longrightarrow> follows R (zd_test p p') (zd_test q q')"
  unfolding follows_def zd_test_def by (auto simp: case_prod_unfold split: bool.splits)

lemma followsI:
  "(\<And>s v. R s v \<Longrightarrow> fst (p s) = fst (q v) \<and> R (snd (p s)) (snd (q v))) \<Longrightarrow> follows R p q"
  by (simp add: follows_def)

lemma follows_enclosed [follows]:
  assumes "follows R start start'" "follows R end_call end_call'" "follows R body body'"
  shows "follows R (zd_enclosed start end_call body) (zd_enclosed start' end_call' body')"
  unfolding zd_enclosed_def
proof (rule follows_test [OF assms(1)], rule followsI)
  fix s v assume "R s v"
  note b = followsD [OF assms(3) this]
  from b followsD [OF assms(2) b(2)]
  show "fst (let (r, s1) = body s; (end_res, s2) = end_call s1 in (if end_res then r else None, s2)) =
      fst (let (r, s1) = body' v; (end_res, s2) = end_call' s1 in (if end_res then r else None, s2)) \<and>
    R (snd (let (r, s1) = body s; (end_res, s2) = end_call s1 in (if end_res then r else None, s2)))
      (snd (let (r, s1) = body' v; (end_res, s2) = end_call' s1 in (if end_res then r else None, s2)))"
    by (simp add: case_prod_unfold Let_def)
qed

lemma follows_then:
  assumes "follows R body body'" "follows R end_call end_call'"
  shows "follows R (\<lambda>s. let (r, s1) = body s in (r, snd (end_call s1)))
    (\<lambda>s. let (r, s1) = body' s in (r, snd (end_call' s1)))"
proof (rule followsI)
  fix s v assume "R s v"
  note b = followsD [OF assms(1) this]
  from b followsD [OF assms(2) b(2)]
  show "fst (let (r, s1) = body s in (r, snd (end_call s1))) =
      fst (let (r, s1) = body' v in (r, snd (end_call' s1))) \<and>
    R (snd (let (r, s1) = body s in (r, snd (end_call s1))))
      (snd (let (r, s1) = body' v in (r, snd (end_call' s1))))"
    by (simp add: case_prod_unfold Let_def)
qed

locale zcbor_reader =
  fixes D :: "'z zcbor_dec" and R :: "'z \<Rightarrow> zdstate \<Rightarrow> bool"
  assumes new_state: "n \<le> length bs \<Longrightarrow>
      R (zd_new_state D n_states (Some bs) n k) (zd_new_state rfc8949_dec n_states (Some bs) n k)"
    and int32 [follows]: "follows R (zcbor_int32_decode D) (zcbor_int32_decode rfc8949_dec)"
    and bstr [follows]: "follows R (zcbor_bstr_decode D) (zcbor_bstr_decode rfc8949_dec)"
    and tstr [follows]: "follows R (zcbor_tstr_decode D) (zcbor_tstr_decode rfc8949_dec)"
    and expect [follows]: "follows R (zcbor_uint32_expect D u) (zcbor_uint32_expect rfc8949_dec u)"
    and list_start [follows]: "follows R (zcbor_list_start_decode D) (zcbor_list_start_decode rfc8949_dec)"
    and list_end [follows]: "follows R (zcbor_list_end_decode D) (zcbor_list_end_decode rfc8949_dec)"
    and map_start [follows]: "follows R (zcbor_map_start_decode D) (zcbor_map_start_decode rfc8949_dec)"
    and map_end [follows]: "follows R (zcbor_map_end_decode D) (zcbor_map_end_decode rfc8949_dec)"
    and union_start [follows]: "follows R (zcbor_union_start_code D) (zcbor_union_start_code rfc8949_dec)"
    and union_elem [follows]: "follows R (zcbor_union_elem_code D) (zcbor_union_elem_code rfc8949_dec)"
    and union_end [follows]: "follows R (zcbor_union_end_code D) (zcbor_union_end_code rfc8949_dec)"
    and multi [follows]: "follows R p q \<Longrightarrow>
      follows R (zcbor_multi_decode D lo hi p) (zcbor_multi_decode rfc8949_dec lo hi q)"
    and present [follows]: "follows R p' q' \<Longrightarrow>
      follows R (zcbor_present_decode D p') (zcbor_present_decode rfc8949_dec q')"
begin

lemma follows_list [follows]: "follows R p q \<Longrightarrow> follows R (zd_list D p) (zd_list rfc8949_dec q)"
  unfolding zd_list_def by (intro follows)

lemma follows_union [follows]: "follows R p q \<Longrightarrow> follows R (zd_union D p) (zd_union rfc8949_dec q)"
  unfolding zd_union_def
  by (intro follows follows_then)

lemma follows_present [follows]:
  "follows R pi qi \<Longrightarrow> follows R (present_int D pi) (present_int rfc8949_dec qi)"
  "follows R ps qs \<Longrightarrow> follows R (present_str D ps) (present_str rfc8949_dec qs)"
  "follows R px qx \<Longrightarrow> follows R (present_x5t D px) (present_x5t rfc8949_dec qx)"
  unfolding present_int_def present_str_def present_x5t_def by (intro follows; assumption)+

lemma entry:
  "follows R dec dec' \<Longrightarrow> n \<le> length bs \<Longrightarrow>
   cbor_decode_entry D m k dec (Some bs) n = cbor_decode_entry rfc8949_dec m k dec' (Some bs) n"
  unfolding cbor_decode_entry_def by (erule followsD(1)) (erule new_state)

lemma follows_messages [follows]:
  "follows R (decode_message_1 D) (decode_message_1 rfc8949_dec)"
  "follows R (decode_m2 D) (decode_m2 rfc8949_dec)"
  "follows R (decode_cert D) (decode_cert rfc8949_dec)"
  unfolding decode_message_1_def decode_suites_def decode_int_or_bstr_def decode_m2_def decode_cert_def
  by (intro follows)+

lemma follows_id_cred [follows]: "follows R (decode_id_cred_x_map D) (decode_id_cred_x_map rfc8949_dec)"
  unfolding decode_id_cred_x_map_def decode_repeated_kid_def decode_repeated_x5bag_def
    decode_repeated_x5chain_def decode_hash_entry_def decode_repeated_x5t_def decode_repeated_x5u_def
    decode_repeated_c5b_def decode_repeated_c5c_def decode_repeated_c5t_def decode_repeated_c5u_def
  by (intro follows)

lemma follows_plaintext [follows]: "follows R (decode_plaintext D) (decode_plaintext rfc8949_dec)"
  unfolding decode_plaintext_def decode_map_def by (intro follows)

text \<open>All entry points return what the reference decoder returns.\<close>

lemma entry_points:
  assumes "n \<le> length bs"
  shows "cbor_decode_message_1 D (Some bs) n = cbor_decode_message_1 rfc8949_dec (Some bs) n"
    and "cbor_decode_m2 D (Some bs) n = cbor_decode_m2 rfc8949_dec (Some bs) n"
    and "cbor_decode_cert D (Some bs) n = cbor_decode_cert rfc8949_dec (Some bs) n"
    and "cbor_decode_id_cred_x_map D (Some bs) n = cbor_decode_id_cred_x_map rfc8949_dec (Some bs) n"
    and "cbor_decode_plaintext D (Some bs) n = cbor_decode_plaintext rfc8949_dec (Some bs) n"
    and "cbor_decode_bstr_type_b_str D (Some bs) n = cbor_decode_bstr_type_b_str rfc8949_dec (Some bs) n"
    and "cbor_decode_m3_CIPHERTEXT_3 D (Some bs) n = cbor_decode_m3_CIPHERTEXT_3 rfc8949_dec (Some bs) n"
  unfolding cbor_decode_message_1_def cbor_decode_m2_def cbor_decode_cert_def
    cbor_decode_id_cred_x_map_def cbor_decode_plaintext_def cbor_decode_bstr_type_b_str_def
    cbor_decode_m3_CIPHERTEXT_3_def
  by (intro entry follows assms)+

end

text \<open>The reference decoder follows itself.\<close>

lemma follows_eq: "follows (=) p q \<longleftrightarrow> p = q"
  by (auto simp: follows_def fun_eq_iff prod_eq_iff)

interpretation rfc: zcbor_reader rfc8949_dec "(=)"
  by unfold_locales (simp_all add: follows_eq)

section \<open>Heads\<close>

lemma nat_bytes4:
  "((n div 2 ^ 24 * 256 + n div 2 ^ 16 mod 256) * 256 + n div 2 ^ 8 mod 256) * 256 + n mod 256 = (n :: nat)"
proof -
  have "n div 2 ^ 16 = n div 2 ^ 24 * 256 + n div 2 ^ 16 mod 256"
    using div_mult2_eq [of n "2 ^ 16" "2 ^ 8"] by simp
  moreover have "n div 2 ^ 8 = n div 2 ^ 16 * 256 + n div 2 ^ 8 mod 256"
    using div_mult2_eq [of n "2 ^ 8" "2 ^ 8"] by simp
  ultimately show ?thesis by simp
qed

lemma unat_of_nat_byte: "unat (of_nat n :: u8) = n mod 256"
  by (simp add: unat_of_nat)

lemma cbor_head_length: "0 < length (cbor_head m n)" "length (cbor_head m n) \<le> 5"
  by (auto simp: cbor_head_def)

lemma decode_head_append:
  assumes "m < 8" and "n < 2 ^ 32"
  shows "decode_head (cbor_head m n @ rest) = Some (m, n, length (cbor_head m n))"
proof -
  have b: "unat (of_nat (m * 32 + k) :: u8) = m * 32 + k" if "k < 32" for k
    using assms(1) that unfolding unat_of_nat_byte by simp
  consider "n < 24" | "24 \<le> n" "n < 2 ^ 8" | "2 ^ 8 \<le> n" "n < 2 ^ 16" | "2 ^ 16 \<le> n" by linarith
  then show ?thesis
  proof cases
    case 4
    have "n div 2 ^ 24 mod 256 = n div 2 ^ 24"
      using assms(2) by (intro mod_less) (simp add: less_mult_imp_div_less)
    then show ?thesis
      using 4 b [of 26] nat_bytes4 [of n] by (simp add: cbor_head_def unat_of_nat_byte Let_def)
  next
    case 3
    have "n div 256 mod 256 = n div 256" using 3 by (intro mod_less) (simp add: less_mult_imp_div_less)
    then show ?thesis using 3 b [of 25] by (simp add: cbor_head_def unat_of_nat_byte Let_def)
  qed (use b [of n] b [of 24] in \<open>simp_all add: cbor_head_def unat_of_nat_byte Let_def\<close>)
qed

lemma decode_head_take:
  assumes "m < 8" and "n < 2 ^ 32" and "length (cbor_head m n) \<le> left"
  shows "decode_head (take left (cbor_head m n @ rest)) = Some (m, n, length (cbor_head m n))"
  using decode_head_append [OF assms(1,2), of "take (left - length (cbor_head m n)) rest"] assms(3) by simp

section \<open>Reading back\<close>

text \<open>\<open>reads k d p e rest a\<close>: with \<open>k\<close> items and \<open>d\<close> backups left, \<open>p\<close> reads \<open>e\<close> in front of \<open>rest\<close> and
  returns \<open>a\<close>.  \<open>refuses\<close>: it fails on \<open>e\<close> and stays where it was.  \<open>reads_all\<close>: the payload
  ends with \<open>e\<close>.\<close>

definition reads :: "nat \<Rightarrow> nat \<Rightarrow> (zdstate, 'a) zdec \<Rightarrow> bytes \<Rightarrow> bytes \<Rightarrow> 'a \<Rightarrow> bool" where
  "reads k d p e rest a \<longleftrightarrow> (\<forall>left elems free bks. length e \<le> left \<longrightarrow> k \<le> elems \<longrightarrow> d \<le> free \<longrightarrow>
     p (e @ rest, left, elems, free, bks) = (Some a, (rest, left - length e, elems - k, free, bks)))"

definition refuses :: "(zdstate \<Rightarrow> 'a option \<times> zdstate) \<Rightarrow> bytes \<Rightarrow> bytes \<Rightarrow> bool" where
  "refuses p e rest \<longleftrightarrow> (\<forall>left elems free bks. length e \<le> left \<longrightarrow>
     p (e @ rest, left, elems, free, bks) = (None, (e @ rest, left, elems, free, bks)))"

definition reads_all :: "nat \<Rightarrow> nat \<Rightarrow> (zdstate, 'a) zdec \<Rightarrow> bytes \<Rightarrow> bytes \<Rightarrow> 'a \<Rightarrow> bool" where
  "reads_all k d p e rest a \<longleftrightarrow> (\<forall>elems free bks. k \<le> elems \<longrightarrow> d \<le> free \<longrightarrow>
     fst (p (e @ rest, length e, elems, free, bks)) = Some a)"

lemma reads_mono: "reads k d p e rest a \<Longrightarrow> d \<le> d' \<Longrightarrow> reads k d' p e rest a"
  unfolding reads_def by auto

lemma reads_bind:
  "reads k d p e (e' @ rest) a \<Longrightarrow> reads k' d (f a) e' rest b \<Longrightarrow>
   reads (k + k') d (zd_bind p f) (e @ e') rest b"
  unfolding reads_def zd_bind_def by (auto simp: diff_diff_left)

lemma reads_map: "reads k d p e rest a \<Longrightarrow> reads k d (zd_map f p) e rest (f a)"
  unfolding reads_def zd_map_def zd_bind_def zd_ret_def by auto

lemma reads_or1: "reads k d p e rest a \<Longrightarrow> reads k d (zd_or p q) e rest a"
  unfolding reads_def zd_or_def by auto

lemma reads_or2: "refuses p e rest \<Longrightarrow> reads k d q e rest a \<Longrightarrow> reads k d (zd_or p q) e rest a"
  unfolding reads_def refuses_def zd_or_def by auto

lemma refuses_map: "refuses p e rest \<Longrightarrow> refuses (zd_map f p) e rest"
  unfolding refuses_def zd_map_def zd_bind_def by auto

lemma refuses_bind: "refuses p e rest \<Longrightarrow> refuses (zd_bind p f) e rest"
  unfolding refuses_def zd_bind_def by auto

lemma reads_all_bind:
  "reads k d p e (e' @ rest) a \<Longrightarrow> reads_all k' d (f a) e' rest b \<Longrightarrow>
   reads_all (k + k') d (zd_bind p f) (e @ e') rest b"
  unfolding reads_def reads_all_def zd_bind_def by auto

lemma reads_all_map: "reads_all k d p e rest a \<Longrightarrow> reads_all k d (zd_map f p) e rest (f a)"
  unfolding reads_all_def zd_map_def zd_bind_def zd_ret_def by (auto simp: case_prod_unfold)

lemma reads_imp_all: "reads k d p e rest a \<Longrightarrow> reads_all k d p e rest a"
  unfolding reads_def reads_all_def by auto

lemma entry_reads_all:
  "reads_all k d p e rest a \<Longrightarrow> d \<le> m - 2 \<Longrightarrow> n = length e \<Longrightarrow>
   cbor_decode_entry rfc8949_dec m k p (Some (e @ rest)) n = Some a"
  unfolding reads_all_def cbor_decode_entry_def by (simp add: rfc8949_dec_def)

text \<open>Unions.  A branch may start with \<open>zcbor_union_elem_code\<close>, which goes back to where the union
  began.\<close>

lemma reads_union: "reads k d p e rest a \<Longrightarrow> reads k (Suc d) (zd_union rfc8949_dec p) e rest a"
  unfolding reads_def zd_union_def zd_test_def by (auto simp: rfc8949_dec_def)

lemma reads_union_elem:
  "refuses p e rest \<Longrightarrow> reads k d q e rest a \<Longrightarrow>
   reads k (Suc d) (zd_union rfc8949_dec (zd_or p (zd_test (zcbor_union_elem_code rfc8949_dec) q))) e rest a"
  unfolding reads_def refuses_def zd_union_def zd_test_def zd_or_def
  by (auto simp: rfc8949_dec_def)

lemma reads_union_elem2:
  "refuses p e rest \<Longrightarrow> refuses q e rest \<Longrightarrow> reads k d r e rest a \<Longrightarrow>
   reads k (Suc d) (zd_union rfc8949_dec (zd_or p (zd_or (zd_test (zcbor_union_elem_code rfc8949_dec) q) r))) e rest a"
  unfolding reads_def refuses_def zd_union_def zd_test_def zd_or_def
  by (auto simp: rfc8949_dec_def)

lemma reads_union_elem1:
  "refuses p e rest \<Longrightarrow> reads k d q e rest a \<Longrightarrow>
   reads k (Suc d) (zd_union rfc8949_dec (zd_or p (zd_or (zd_test (zcbor_union_elem_code rfc8949_dec) q) r))) e rest a"
  unfolding reads_def refuses_def zd_union_def zd_test_def zd_or_def
  by (auto simp: rfc8949_dec_def)

section \<open>Items\<close>

lemma reads_item:
  assumes "m < 8" and "n < 2 ^ 32" and "ok m n" and "length b = cnt n"
  shows "reads 1 0 (ref_item ok cnt val) (cbor_head m n @ b) rest (val m n (b @ rest))"
  using decode_head_append [OF assms(1,2)] assms(3,4) by (auto simp: reads_def ref_item_def)

lemma refuses_item:
  assumes "m < 8" and "n < 2 ^ 32" and "\<not> ok m n"
  shows "refuses (ref_item ok cnt val) (cbor_head m n @ b) rest"
  using decode_head_append [OF assms(1,2)] assms(3) by (auto simp: refuses_def ref_item_def)

definition string_of :: "bytes \<Rightarrow> bytes \<Rightarrow> zcbor_string" where
  "string_of b rest = \<lparr>zs_value = Some (b @ rest), zs_len = of_nat (length b)\<rparr>"

lemma cbor_int_head:
  obtains m n where "cbor_int (sint (i :: i32)) = cbor_head m n" "m \<le> 1" "n < 2147483648"
    "(if m = 0 then of_nat n else - 1 - of_nat n) = i"
proof -
  have r: "- 2147483648 \<le> sint i" "sint i < 2147483648"
    using sint_ge [of i] sint_lt [of i] by simp_all
  show thesis
  proof (cases "0 \<le> sint i")
    case True
    with r have "nat (sint i) < 2147483648" by simp
    moreover have "(of_nat (nat (sint i)) :: i32) = of_int (sint i)" using True by simp
    ultimately show thesis using that [of 0 "nat (sint i)"] True by (simp add: cbor_int_def)
  next
    case False
    with r have "nat (- 1 - sint i) < 2147483648" by simp
    moreover have "- 1 - of_nat (nat (- 1 - sint i)) = i"
    proof -
      have "(of_nat (nat (- 1 - sint i)) :: i32) = of_int (- 1 - sint i)" using False by simp
      also have "\<dots> = - 1 - i" by simp
      finally show ?thesis by simp
    qed
    ultimately show thesis using that [of 1 "nat (- 1 - sint i)"] False by (simp add: cbor_int_def)
  qed
qed

lemma reads_int32: "reads 1 d (zcbor_int32_decode rfc8949_dec) (cbor_int (sint i)) rest i"
proof (rule cbor_int_head [of i])
  fix m n assume h: "cbor_int (sint i) = cbor_head m n" "m \<le> 1" "n < 2147483648"
    "(if m = 0 then of_nat n else - 1 - of_nat n) = i"
  from h(2,3) have "m < 8" "n < 2 ^ 32" "m \<le> 1 \<and> int n < 2147483648" by simp_all
  from reads_item [of m n "\<lambda>major arg. major \<le> 1 \<and> int arg < 2147483648" "[]" "\<lambda>_. 0"
      "\<lambda>major arg _. if major = 0 then of_nat arg else (- 1 - of_nat arg :: i32)" rest, OF this] h(1,4)
  have "reads 1 0 ref_int32 (cbor_int (sint i)) rest i" by (simp add: ref_int32_def)
  then have "reads 1 d ref_int32 (cbor_int (sint i)) rest i" by (rule reads_mono) simp
  then show ?thesis by (simp add: rfc8949_dec_def)
qed

lemma reads_strings:
  assumes "length b < 2 ^ 32"
  shows "reads 1 d (zcbor_bstr_decode rfc8949_dec) (cbor_bstr b) rest (string_of b rest)"
    and "reads 1 d (zcbor_tstr_decode rfc8949_dec) (cbor_tstr b) rest (string_of b rest)"
proof -
  have at: "reads 1 0 (ref_string m) (cbor_head m (length b) @ b) rest (string_of b rest)" if "m < 8" for m
    using reads_item [OF that assms, of "\<lambda>major _. major = m" b "\<lambda>arg. arg"
        "\<lambda>_ arg rest. \<lparr>zs_value = Some rest, zs_len = of_nat arg\<rparr>" rest]
    by (simp add: ref_string_def string_of_def)
  have "reads 1 d (ref_string m) (cbor_head m (length b) @ b) rest (string_of b rest)" if "m < 8" for m
    by (rule reads_mono [OF at [OF that]]) simp
  from this [of 2] this [of 3]
  show "reads 1 d (zcbor_bstr_decode rfc8949_dec) (cbor_bstr b) rest (string_of b rest)"
    and "reads 1 d (zcbor_tstr_decode rfc8949_dec) (cbor_tstr b) rest (string_of b rest)"
    by (simp_all add: rfc8949_dec_def cbor_bstr_def cbor_tstr_def)
qed

lemma int32_refuses_bstr:
  "length b < 2 ^ 32 \<Longrightarrow> refuses (zcbor_int32_decode rfc8949_dec) (cbor_bstr b) rest"
  by (simp add: rfc8949_dec_def ref_int32_def cbor_bstr_def refuses_item)

lemma bstr_refuses_int32: "refuses (zcbor_bstr_decode rfc8949_dec) (cbor_int (sint (i :: i32))) rest"
proof (rule cbor_int_head [of i])
  fix m n assume "cbor_int (sint i) = cbor_head m n" "m \<le> 1" "n < 2147483648"
  then show ?thesis
    using refuses_item [of m n "\<lambda>major _. major = 2" "\<lambda>arg. arg" _ "[]" rest]
    by (simp add: rfc8949_dec_def ref_string_def)
qed

text \<open>Opening a list or map refuses other items, and so does what is enclosed in it.\<close>

lemma start_refuses:
  assumes "m < 8" and "n < 2 ^ 32" and "m \<noteq> 4" "m \<noteq> 5"
  shows "refuses (zd_list rfc8949_dec p) (cbor_head m n @ b) rest"
    and "refuses (zd_enclosed (zcbor_map_start_decode rfc8949_dec) e p) (cbor_head m n @ b) rest"
  using refuses_item [OF assms(1,2), of "\<lambda>major _. major = 4" "\<lambda>_. 0" "\<lambda>_ arg _. arg" b rest]
    refuses_item [OF assms(1,2), of "\<lambda>major _. major = 5" "\<lambda>_. 0" "\<lambda>_ arg _. 2 * arg" b rest] assms(3,4)
  by (auto simp: refuses_def zd_list_def zd_enclosed_def zd_test_def rfc8949_dec_def ref_start_def)

lemma enclosed_refuses_int:
  "refuses (zd_list rfc8949_dec p) (cbor_int (sint (i :: i32))) rest"
  "refuses (zd_enclosed (zcbor_map_start_decode rfc8949_dec) e q) (cbor_int (sint i)) rest"
proof -
  obtain m n where "cbor_int (sint i) = cbor_head m n" "m \<le> 1" "n < 2147483648"
    by (rule cbor_int_head [of i])
  with start_refuses(1) [of m n p "[]" rest] start_refuses(2) [of m n e q "[]" rest]
  show "refuses (zd_list rfc8949_dec p) (cbor_int (sint i)) rest"
    "refuses (zd_enclosed (zcbor_map_start_decode rfc8949_dec) e q) (cbor_int (sint i)) rest" by simp_all
qed

lemma enclosed_refuses_bstr:
  "length b < 2 ^ 32 \<Longrightarrow> refuses (zd_list rfc8949_dec p) (cbor_bstr b) rest"
  "length b < 2 ^ 32 \<Longrightarrow> refuses (zd_enclosed (zcbor_map_start_decode rfc8949_dec) e p) (cbor_bstr b) rest"
  by (simp_all add: cbor_bstr_def start_refuses)

text \<open>Optional items at the end of the payload.\<close>

lemma present_str_some:
  "reads k d p e rest a \<Longrightarrow> reads k d (present_str rfc8949_dec p) e rest (Some a)"
  unfolding reads_def present_str_def zd_map_def zd_bind_def zd_ret_def
  by (auto simp: rfc8949_dec_def ref_present_def the_str_def)

lemma present_str_none:
  "reads_all 0 d (present_str rfc8949_dec (zcbor_bstr_decode rfc8949_dec)) [] rest None"
  unfolding reads_all_def present_str_def zd_map_def zd_bind_def zd_ret_def
  by (simp add: rfc8949_dec_def ref_present_def ref_string_def ref_item_def)

end
