(* ===== verification/Edhoc_Messages.thy ===== *)
theory Edhoc_Messages
  imports Edhoc_Protocol Cbor_Reader
begin

text \<open>
  The messages of EDHOC as bytes: what is written for message 1, message 2 and the byte string of
  messages 3 and 4, and that the other side reads it back.
\<close>

section \<open>Buffers and strings\<close>

definition io_ok :: "io_buf \<Rightarrow> bool" where
  "io_ok io \<longleftrightarrow> unat (snd io) \<le> length (fst io)"

lemma io_split:
  assumes "io_ok io"
  obtains rest where "fst io = io_bytes io @ rest" "unat (snd io) = length (io_bytes io)"
proof (rule that)
  show "fst io = io_bytes io @ drop (unat (snd io)) (fst io)" by (simp add: io_bytes_def)
  show "unat (snd io) = length (io_bytes io)" using assms by (simp add: io_ok_def io_bytes_def)
qed

lemma memcpy_string:
  assumes "length b < 2 ^ 32" and "unat cap \<le> length buf"
  shows "memcpy_s buf 0 cap (zs_value (string_of b rest)) (zs_len (string_of b rest)) =
    (if length b \<le> unat cap then Ok (b @ drop (length b) buf) else Fail buffer_to_small)"
proof -
  have n: "unat (of_nat (length b) :: u32) = length b" using assms(1) by simp
  then show ?thesis
    using assms(2)
    by (simp add: string_of_def memcpy_s_def check_buffer_size_def write_mem_def word_less_nat_alt)
qed

lemma io_bytes_prefix: "length b < 2 ^ 32 \<Longrightarrow> io_bytes (b @ c, of_nat (length b)) = b"
  by (simp add: io_bytes_def)

lemma reads_all_map': "reads_all k d p e rest a \<Longrightarrow> f a = b \<Longrightarrow> reads_all k d (zd_map f p) e rest b"
  using reads_all_map [of k d p e rest a f] by simp

section \<open>Integers or byte strings\<close>

definition int_or_bstr_cbor :: "bytes int_or_bstr \<Rightarrow> bytes" where
  "int_or_bstr_cbor c = (case c of choice_int i \<Rightarrow> cbor_int (sint i) | choice_bstr b \<Rightarrow> cbor_bstr b)"

definition int_or_bstr_small :: "bytes int_or_bstr \<Rightarrow> bool" where
  "int_or_bstr_small c = (case c of choice_int i \<Rightarrow> True | choice_bstr b \<Rightarrow> length b < 2 ^ 32)"

definition int_or_bstr_read :: "bytes int_or_bstr \<Rightarrow> bytes \<Rightarrow> zcbor_string int_or_bstr" where
  "int_or_bstr_read c rest = (case c of
     choice_int i \<Rightarrow> choice_int i | choice_bstr b \<Rightarrow> choice_bstr (string_of b rest))"

lemma encodes_int_or_bstr:
  "zcbor_canonical Z \<Longrightarrow> int_or_bstr_small c \<Longrightarrow>
   encodes Z d (Suc 0) (encode_int_or_bstr Z c) (int_or_bstr_cbor c)"
  by (cases c)
    (auto simp: encode_int_or_bstr_def int_or_bstr_cbor_def int_or_bstr_small_def zcbor_canonical_items)

lemma reads_int_or_bstr:
  assumes "int_or_bstr_small c"
  shows "reads 1 (Suc d) (decode_int_or_bstr rfc8949_dec) (int_or_bstr_cbor c) rest (int_or_bstr_read c rest)"
proof (cases c)
  case (choice_int i)
  show ?thesis
    unfolding decode_int_or_bstr_def choice_int int_or_bstr_cbor_def int_or_bstr_read_def int_or_bstr.case
    by (intro reads_union reads_or1 reads_map reads_int32)
next
  case (choice_bstr b)
  have b: "length b < 2 ^ 32" using assms by (simp add: choice_bstr int_or_bstr_small_def)
  show ?thesis
    unfolding decode_int_or_bstr_def choice_bstr int_or_bstr_cbor_def int_or_bstr_read_def int_or_bstr.case
    by (intro reads_union reads_or2 reads_map refuses_map int32_refuses_bstr reads_strings b)
qed

section \<open>Message 1\<close>

text \<open>What zcbor does with optional members.\<close>

definition zcbor_present_laws :: "'z zcbor \<Rightarrow> bool" where
  "zcbor_present_laws Z \<longleftrightarrow>
     (\<forall>d k p e. encodes Z d k p e \<longrightarrow> encodes Z d k (zcbor_present_encode Z True p) e) \<and>
     (\<forall>d p. encodes Z d 0 (zcbor_present_encode Z False p) [])"

definition option_cbor :: "bytes option \<Rightarrow> bytes" where
  "option_cbor m = (case m of Some b \<Rightarrow> cbor_bstr b | None \<Rightarrow> [])"

definition option_small :: "bytes option \<Rightarrow> bool" where
  "option_small m = (case m of Some b \<Rightarrow> length b < 2 ^ 32 | None \<Rightarrow> True)"

lemma encodes_present_bstr:
  assumes "zcbor_canonical Z" "zcbor_present_laws Z" "option_small m"
  shows "encodes Z d (case m of Some _ \<Rightarrow> Suc 0 | None \<Rightarrow> 0)
    (encode_present Z (zcbor_bstr_encode Z) m) (option_cbor m)"
  using assms
  by (cases m) (auto simp: encode_present_def zcbor_present_laws_def option_cbor_def option_small_def
      zcbor_canonical_items)

lemma reads_present_bstr:
  assumes "option_small m"
  shows "reads_all (case m of Some _ \<Rightarrow> 1 | None \<Rightarrow> 0) d
    (present_str rfc8949_dec (zcbor_bstr_decode rfc8949_dec)) (option_cbor m) rest
    (map_option (\<lambda>b. string_of b rest) m)"
proof (cases m)
  case None
  then show ?thesis using present_str_none by (simp add: option_cbor_def)
next
  case (Some b)
  then have "length b < 2 ^ 32" using assms by (simp add: option_small_def)
  from reads_imp_all [OF present_str_some [OF reads_strings(1) [OF this]]] Some show ?thesis
    by (simp add: option_cbor_def)
qed

text \<open>The message for one suite \<open>s\<close>.\<close>

definition message_1_cbor :: "i32 \<Rightarrow> i32 \<Rightarrow> bytes \<Rightarrow> bytes int_or_bstr \<Rightarrow> bytes option \<Rightarrow> bytes" where
  "message_1_cbor method s g_x c_i ead_1 = cbor_int (sint method) @ cbor_int (sint s) @ cbor_bstr g_x @
     int_or_bstr_cbor c_i @ option_cbor ead_1"

lemma cbor_encode_message_1_eq:
  assumes Z: "zcbor_canonical Z" "zcbor_present_laws Z" and "length g_x < 2 ^ 32"
    and "int_or_bstr_small c_i" "option_small ead_1"
  shows "cbor_encode_message_1 Z cap \<lparr>message_1_METHOD = method, message_1_SUITES_I = SUITES_I_int s,
      message_1_G_X = g_x, message_1_C_I = c_i, message_1_ead_1 = ead_1\<rparr> =
    (if length (message_1_cbor method s g_x c_i ead_1) \<le> cap
     then Some (message_1_cbor method s g_x c_i ead_1) else None)"
proof -
  let ?m = "\<lparr>message_1_METHOD = method, message_1_SUITES_I = SUITES_I_int s, message_1_G_X = g_x,
    message_1_C_I = c_i, message_1_ead_1 = ead_1\<rparr>"
  have "encodes Z 0 (Suc 0 + (Suc 0 + (Suc 0 + (Suc 0 + (case ead_1 of Some _ \<Rightarrow> Suc 0 | None \<Rightarrow> 0)))))
      (encode_message_1 Z ?m) (message_1_cbor method s g_x c_i ead_1)"
    unfolding encode_message_1_def message_1_cbor_def
    by (intro encodes_and)
      (use assms in \<open>simp_all add: encode_suites_def zcbor_canonical_items encodes_int_or_bstr encodes_present_bstr\<close>)
  then show ?thesis
    unfolding cbor_encode_message_1_def by (rule cbor_entry_encodes [OF Z(1)]) simp
qed

definition message_1_read ::
    "i32 \<Rightarrow> i32 \<Rightarrow> bytes \<Rightarrow> bytes int_or_bstr \<Rightarrow> bytes option \<Rightarrow> bytes \<Rightarrow> zcbor_string message_1" where
  "message_1_read method s g_x c_i ead_1 rest =
    \<lparr>message_1_METHOD = method, message_1_SUITES_I = SUITES_I_int s,
     message_1_G_X = string_of g_x (int_or_bstr_cbor c_i @ option_cbor ead_1 @ rest),
     message_1_C_I = int_or_bstr_read c_i (option_cbor ead_1 @ rest),
     message_1_ead_1 = map_option (\<lambda>b. string_of b rest) ead_1\<rparr>"

lemma reads_suites:
  "reads 1 2 (decode_suites rfc8949_dec) (cbor_int (sint s)) rest (SUITES_I_int s)"
proof -
  have "reads 1 (Suc 1) (decode_suites rfc8949_dec) (cbor_int (sint s)) rest (SUITES_I_int s)"
    unfolding decode_suites_def
    by (intro reads_union_elem refuses_map enclosed_refuses_int reads_map reads_int32)
  then show ?thesis by (simp add: numeral_2_eq_2)
qed

lemma cbor_decode_message_1_eq:
  assumes "zcbor_reader D R" and "length g_x < 2 ^ 32" "int_or_bstr_small c_i" "option_small ead_1"
    and "n = length (message_1_cbor method s g_x c_i ead_1)"
  shows "cbor_decode_message_1 D (Some (message_1_cbor method s g_x c_i ead_1 @ rest)) n =
    Some (message_1_read method s g_x c_i ead_1 rest)"
proof -
  let ?k = "case ead_1 of None \<Rightarrow> (0 :: nat) | Some _ \<Rightarrow> 1"
  have "reads_all (1 + (1 + (1 + (1 + ?k)))) 2 (decode_message_1 rfc8949_dec)
      (message_1_cbor method s g_x c_i ead_1) rest (message_1_read method s g_x c_i ead_1 rest)"
    unfolding decode_message_1_def message_1_cbor_def message_1_read_def
    apply (rule reads_all_bind, rule reads_int32)
    apply (rule reads_all_bind, rule reads_suites)
    apply (rule reads_all_bind, rule reads_strings(1), rule assms(2))
    apply (rule reads_all_bind, rule reads_int_or_bstr [of _ 1, unfolded Suc_1], rule assms(3))
    apply (rule reads_all_map', rule reads_present_bstr, rule assms(4))
    apply simp
    done
  then have "reads_all 5 2 (decode_message_1 rfc8949_dec)
      (message_1_cbor method s g_x c_i ead_1) rest (message_1_read method s g_x c_i ead_1 rest)"
    by (auto simp: reads_all_def split: option.splits)
  from entry_reads_all [OF this, of 4] assms(5) show ?thesis
    using zcbor_reader.entry_points(1) [OF assms(1)]
    by (simp add: cbor_decode_message_1_def)
qed

section \<open>Byte strings, the messages 3 and 4\<close>

lemma encode_byte_string_eq:
  assumes "zcbor_canonical Z" and "length b < 2 ^ 32"
  shows "encode_byte_string Z b n =
    (if length (cbor_bstr b) \<le> unat n then Ok (cbor_bstr b) else Fail unexpected_result_from_ext_lib)"
  using cbor_entry_encodes [OF assms(1) zcbor_canonical_items(4) [OF assms(1), of b 0]] assms(2)
  by (simp add: encode_byte_string_def cbor_encode_bstr_type_b_str_def)

lemma decode_byte_string_eq:
  assumes "zcbor_reader D R" and "length b < 2 ^ 32" and "unat n = length (cbor_bstr b)"
    and "unat cap \<le> length buf"
  shows "decode_byte_string D (Some (cbor_bstr b @ rest)) n (buf, cap) =
    (if length b \<le> unat cap then Ok (b @ drop (length b) buf, of_nat (length b)) else Fail buffer_to_small)"
proof -
  have "reads_all 1 0 (zcbor_bstr_decode rfc8949_dec) (cbor_bstr b) rest (string_of b rest)"
    by (rule reads_imp_all) (rule reads_strings(1) [OF assms(2)])
  from entry_reads_all [OF this, of 2 "unat n"] assms(3)
  have "cbor_decode_bstr_type_b_str D (Some (cbor_bstr b @ rest)) (unat n) = Some (string_of b rest)"
    using zcbor_reader.entry_points(6) [OF assms(1)] by (simp add: cbor_decode_bstr_type_b_str_def)
  with memcpy_string [OF assms(2,4)] show ?thesis
    by (simp add: decode_byte_string_def) (simp add: string_of_def)
qed

section \<open>Message 2\<close>

definition m2_cbor :: "bytes \<Rightarrow> bytes int_or_bstr \<Rightarrow> bytes" where
  "m2_cbor g_y_ct2 c_r = cbor_bstr g_y_ct2 @ int_or_bstr_cbor c_r"

lemma cbor_encode_m2_eq:
  assumes Z: "zcbor_canonical Z" and "length b < 2 ^ 32" and "int_or_bstr_small c_r"
  shows "cbor_encode_m2 Z cap \<lparr>m2_G_Y_CIPHERTEXT_2 = b, m2_C_R = c_r\<rparr> =
    (if length (m2_cbor b c_r) \<le> cap then Some (m2_cbor b c_r) else None)"
proof -
  have "encodes Z 0 (Suc 0 + Suc 0) (encode_m2 Z \<lparr>m2_G_Y_CIPHERTEXT_2 = b, m2_C_R = c_r\<rparr>) (m2_cbor b c_r)"
    unfolding encode_m2_def m2_cbor_def
    by (intro encodes_and) (use assms in \<open>simp_all add: zcbor_canonical_items encodes_int_or_bstr\<close>)
  then show ?thesis
    unfolding cbor_encode_m2_def by (rule cbor_entry_encodes [OF Z]) simp
qed

lemma cbor_decode_m2_eq:
  assumes "zcbor_reader D R" and "length b < 2 ^ 32" "int_or_bstr_small c_r" and "n = length (m2_cbor b c_r)"
  shows "cbor_decode_m2 D (Some (m2_cbor b c_r @ rest)) n =
    Some \<lparr>m2_G_Y_CIPHERTEXT_2 = string_of b (int_or_bstr_cbor c_r @ rest), m2_C_R = int_or_bstr_read c_r rest\<rparr>"
proof -
  have "reads_all (1 + 1) 1 (decode_m2 rfc8949_dec) (m2_cbor b c_r) rest
      \<lparr>m2_G_Y_CIPHERTEXT_2 = string_of b (int_or_bstr_cbor c_r @ rest), m2_C_R = int_or_bstr_read c_r rest\<rparr>"
    unfolding decode_m2_def m2_cbor_def
    apply (rule reads_all_bind, rule reads_strings(1), rule assms(2))
    apply (rule reads_all_map, rule reads_imp_all)
    apply (rule reads_int_or_bstr [of _ 0, folded One_nat_def], rule assms(3))
    done
  then have "reads_all 2 1 (decode_m2 rfc8949_dec) (m2_cbor b c_r) rest
      \<lparr>m2_G_Y_CIPHERTEXT_2 = string_of b (int_or_bstr_cbor c_r @ rest), m2_C_R = int_or_bstr_read c_r rest\<rparr>"
    by (simp add: numeral_2_eq_2)
  from entry_reads_all [OF this, of 3] assms(4) show ?thesis
    using zcbor_reader.entry_points(2) [OF assms(1)] by (simp add: cbor_decode_m2_def)
qed

text \<open>A connection identifier that was received.\<close>

definition c_x_received :: "bytes int_or_bstr \<Rightarrow> nat \<Rightarrow> c_x res" where
  "c_x_received c n = (case c of
     choice_int i \<Rightarrow> Ok \<lparr>cx_type = C_INT, cx_mem = c_x_int i\<rparr>
   | choice_bstr b \<Rightarrow>
       if length b \<le> n
       then Ok \<lparr>cx_type = C_BSTR, cx_mem = c_x_bstr (b @ replicate (n - length b) 0) (of_nat (length b))\<rparr>
       else Undef)"

lemma c_x_received_choice:
  "int_or_bstr_small c \<Longrightarrow> c_x_received c n = Ok c_r \<Longrightarrow> c_x_choice c_r = Ok c"
  by (cases c) (auto simp: c_x_received_def c_x_choice_def int_or_bstr_small_def split: if_splits)

lemma c_x_set_received:
  assumes "int_or_bstr_small c"
  shows "(case int_or_bstr_read c rest of
      choice_int i \<Rightarrow> c_x_set C_INT None 0 i (fresh_c_x n)
    | choice_bstr b \<Rightarrow> c_x_set C_BSTR (zs_value b) (zs_len b) 0 (fresh_c_x n)) = c_x_received c n"
proof (cases c)
  case (choice_bstr b)
  then have "unat (of_nat (length b) :: u32) = length b" using assms by (simp add: int_or_bstr_small_def)
  then show ?thesis
    by (simp add: choice_bstr int_or_bstr_read_def c_x_received_def c_x_set_def fresh_c_x_def c_x_init_def
        string_of_def memcpy_s_def write_mem_def)
qed (simp add: int_or_bstr_read_def c_x_received_def c_x_set_def)

lemma full_buf_simps: "fst (full_buf n) = replicate n 0" "snd (full_buf n) = of_nat n"
  by (simp_all add: full_buf_def)

lemma msg2_parse_eq:
  assumes D: "zcbor_reader D R" and io: "io_ok msg2" "io_bytes msg2 = m2_cbor (g_y @ ct2) c"
    and c: "int_or_bstr_small c" and g: "length g_y = unat g_y_len" "unat g_y_len \<le> G_Y_DEFAULT_SIZE"
    and ct: "length ct2 < 2 ^ 31"
  shows "msg2_parse D msg2 g_y_len (fresh_c_x n) (full_buf CIPHERTEXT2_DEFAULT_SIZE) =
    (if CIPHERTEXT2_DEFAULT_SIZE < length ct2 then Fail buffer_to_small
     else TRY (c_x_received c n) (\<lambda>c_r.
       Ok (g_y, c_r, (ct2 @ replicate (CIPHERTEXT2_DEFAULT_SIZE - length ct2) 0, of_nat (length ct2)))))"
proof -
  obtain rest where rest: "fst msg2 = m2_cbor (g_y @ ct2) c @ rest" "unat (snd msg2) = length (m2_cbor (g_y @ ct2) c)"
    using io_split [OF io(1)] io(2) by metis
  have small: "length (g_y @ ct2) < 2 ^ 32" using g ct by simp
  note dec = cbor_decode_m2_eq [OF D small c refl, of rest]
  let ?s = "string_of (g_y @ ct2) (int_or_bstr_cbor c @ rest)"
  have n2: "zs_len ?s - g_y_len = of_nat (length ct2)"
    using g(1) by (simp add: string_of_def)
  have n3: "unat (of_nat (length ct2) :: u32) = length ct2" using ct by simp
  have "memcpy_s (replicate G_Y_DEFAULT_SIZE 0) 0 g_y_len (zs_value ?s) g_y_len =
      Ok (g_y @ replicate (G_Y_DEFAULT_SIZE - length g_y) 0)"
    using g by (simp add: string_of_def memcpy_s_def write_mem_def)
  moreover have "memcpy_s (replicate CIPHERTEXT2_DEFAULT_SIZE 0) 0 (of_nat CIPHERTEXT2_DEFAULT_SIZE)
      (advance (zs_value ?s) (unat g_y_len)) (of_nat (length ct2)) =
      (if CIPHERTEXT2_DEFAULT_SIZE < length ct2 then Fail buffer_to_small
       else Ok (ct2 @ replicate (CIPHERTEXT2_DEFAULT_SIZE - length ct2) 0))"
    using g n3 by (simp add: string_of_def memcpy_s_def check_buffer_size_def write_mem_def word_less_nat_alt)
  ultimately show ?thesis
    using g c_x_set_received [OF c, of n rest]
    by (simp add: msg2_parse_def rest dec n2 full_buf_def split del: if_split) (simp split: if_splits)
qed

section \<open>Parsing message 1\<close>

text \<open>A byte string as C_I is stored with the length 0.\<close>

definition c_i_received :: "bytes int_or_bstr \<Rightarrow> c_x" where
  "c_i_received c = (case c of
     choice_int i \<Rightarrow> \<lparr>cx_type = C_INT, cx_mem = c_x_int i\<rparr>
   | choice_bstr b \<Rightarrow> \<lparr>cx_type = C_BSTR, cx_mem = c_x_bstr (replicate C_I_DEFAULT_SIZE 0) 0\<rparr>)"

definition ead_received :: "bytes option \<Rightarrow> io_buf \<Rightarrow> io_buf res" where
  "ead_received m ad = (case m of
     None \<Rightarrow> Ok ad
   | Some e \<Rightarrow> if length e \<le> unat (snd ad) then Ok (e @ drop (length e) (fst ad), of_nat (length e))
               else Fail buffer_to_small)"

lemma msg1_parse_eq:
  assumes D: "zcbor_reader D R" and io: "io_ok msg1" "io_bytes msg1 = message_1_cbor method s g_x c_i ead_1"
    and c: "int_or_bstr_small c_i" and e: "option_small ead_1" and g: "length g_x < 2 ^ 32" and ad: "io_ok ad"
  shows "msg1_parse D msg1 (replicate 5 0) (full_buf G_X_DEFAULT_SIZE) (fresh_c_x C_I_DEFAULT_SIZE) ad =
    (if G_X_DEFAULT_SIZE < length g_x then Fail buffer_to_small
     else TRY (ead_received ead_1 ad) (\<lambda>ead.
       Ok \<lparr>mf_method = sint method, mf_suites_i = ([ucast s, 0, 0, 0, 0], 1),
           mf_g_x = (g_x @ replicate (G_X_DEFAULT_SIZE - length g_x) 0, of_nat (length g_x)),
           mf_c_i = c_i_received c_i, mf_ead_1 = ead\<rparr>))"
proof -
  obtain rest where rest: "fst msg1 = message_1_cbor method s g_x c_i ead_1 @ rest"
      "unat (snd msg1) = length (message_1_cbor method s g_x c_i ead_1)"
    using io_split [OF io(1)] io(2) by metis
  note dec = cbor_decode_message_1_eq [OF D g c e refl, of _ _ rest]
  obtain buf n where adp: "ad = (buf, n)" by (cases ad)
  have g_x: "memcpy_s (replicate G_X_DEFAULT_SIZE 0) 0 (of_nat G_X_DEFAULT_SIZE) (zs_value (string_of g_x r))
      (zs_len (string_of g_x r)) =
    (if G_X_DEFAULT_SIZE < length g_x then Fail buffer_to_small
     else Ok (g_x @ replicate (G_X_DEFAULT_SIZE - length g_x) 0))" for r
    using memcpy_string [OF g, of "of_nat G_X_DEFAULT_SIZE" "replicate G_X_DEFAULT_SIZE 0" r] by simp
  have c_i: "(case int_or_bstr_read c_i r of
      choice_int i \<Rightarrow> c_x_set C_INT None 0 i (fresh_c_x 8)
    | choice_bstr b \<Rightarrow> c_x_set C_BSTR (zs_value b) 0 0 (fresh_c_x 8)) = Ok (c_i_received c_i)" for r
    by (cases c_i) (simp_all add: int_or_bstr_read_def c_i_received_def c_x_set_def fresh_c_x_def
        c_x_init_def memcpy_s_def write_mem_def)
  have ead: "(case map_option (\<lambda>b. string_of b rest) ead_1 of
      Some e \<Rightarrow> TRY (memcpy_s buf 0 n (zs_value e) (zs_len e)) (\<lambda>a. Ok (a, zs_len e))
    | None \<Rightarrow> Ok (buf, n)) = ead_received ead_1 ad"
    using ad e memcpy_string [of _ n buf rest]
    by (cases ead_1) (simp_all add: adp ead_received_def io_ok_def option_small_def, simp add: string_of_def)
  have len: "zs_len (string_of b r) = of_nat (length b)" for b r by (simp add: string_of_def)
  have suites: "(replicate 5 0)[0 := x] = [x, 0, 0, 0, 0 :: u8]" for x by (simp add: numeral_eq_Suc)
  show ?thesis
    unfolding adp
    by (simp add: msg1_parse_def full_buf_def rest dec message_1_read_def parse_suites_def suites
        g_x [simplified, unfolded len] c_i ead [unfolded adp] len
        del: case_map_option split del: if_split)
      (simp add: c_i)
qed

end
