(* ===== verification/Edhoc_Suites.thy ===== *)
theory Edhoc_Suites
  imports Edhoc_Protocol
begin

text \<open>The cipher suites: the search for a supported suite with its 8-bit counter.\<close>

lemma selected_suite_finds:
  assumes "length suites < 256 \<or> selected \<in> set (drop (unat i) (take 256 suites))" and "unat i < 256"
  shows "selected_suite_loop selected suites i =
    Some (selected \<in> set (drop (unat i) suites))"
  using assms
proof (induction "256 - unat i" arbitrary: i rule: less_induct)
  case less
  show ?case
  proof (cases "unat i < length suites")
    case False
    then show ?thesis by (simp add: selected_suite_loop.simps)
  next
    case True
    then have d: "drop (unat i) suites = suites ! unat i # drop (Suc (unat i)) suites"
      by (simp add: Cons_nth_drop_Suc)
    show ?thesis
    proof (cases "suites ! unat i = selected")
      case False
      have lt: "unat i < 255"
      proof (rule ccontr)
        assume "\<not> unat i < 255"
        with u8_nat_less [of i] have i: "unat i = 255" by simp
        with True have "\<not> length suites < 256" by simp
        with less.prems(1) i have "selected \<in> set (drop 255 (take 256 suites))" by simp
        moreover have "drop 255 (take 256 suites) = [suites ! 255]"
          using True i by (intro nth_equalityI) auto
        ultimately show False using False i by simp
      qed
      then have suc: "unat (i + 1) = Suc (unat i)" by (simp add: unat_u8_Suc)
      have "length suites < 256 \<or> selected \<in> set (drop (unat (i + 1)) (take 256 suites))"
      proof (cases "length suites < 256")
        case False
        then have "selected \<in> set (drop (unat i) (take 256 suites))" using less.prems by blast
        moreover have "drop (unat i) (take 256 suites) = suites ! unat i # drop (Suc (unat i)) (take 256 suites)"
          using True lt by (subst Cons_nth_drop_Suc [symmetric]) auto
        ultimately show ?thesis using \<open>suites ! unat i \<noteq> selected\<close> suc by simp
      qed simp
      with less.hyps [of "i + 1"] lt suc
      have "selected_suite_loop selected suites (i + 1) = Some (selected \<in> set (drop (Suc (unat i)) suites))"
        by simp
      with True False d show ?thesis by (simp add: selected_suite_loop.simps [of selected suites i])
    qed (use True d in \<open>simp add: selected_suite_loop.simps\<close>)
  qed
qed

lemma selected_suite_returned:
  assumes "selected_suite_loop selected suites i = Some b"
  shows "length suites < 256 \<or> selected \<in> set (take 256 suites)"
  using assms
proof (rule selected_suite_loop.raw_induct
    [where P = "\<lambda>sel s j b. length s < 256 \<or> sel \<in> set (take 256 s)", rotated])
  fix f sel s and j :: u8 and b
  assume ih: "\<And>sel s j b. f sel s j = Some b \<Longrightarrow> length s < 256 \<or> sel \<in> set (take 256 s)"
    and step: "(if unat j < length s then if s ! unat j = sel then Some True else f sel s (j + 1)
      else Some False) = Some b"
  show "length s < 256 \<or> sel \<in> set (take 256 s)"
  proof (cases "s ! unat j = sel \<and> unat j < length s")
    case True
    then show ?thesis using u8_nat_less [of j] by (auto simp: in_set_conv_nth)
  next
    case False
    with step ih [of sel s "j + 1" b] u8_nat_less [of j] show ?thesis by (auto split: if_splits)
  qed
qed

lemma selected_suite_is_supported_eq:
  "selected_suite_is_supported selected suites_r =
    (if selected \<in> set (take 256 suites_r) then Some True
     else if length suites_r < 256 then Some False else None)"
proof (cases "length suites_r < 256 \<or> selected \<in> set (take 256 suites_r)")
  case True
  then show ?thesis
    using selected_suite_finds [of suites_r selected 0] set_take_subset [of 256 suites_r]
    by (auto simp: selected_suite_is_supported_def)
next
  case False
  then show ?thesis
    using selected_suite_returned [of selected suites_r 0]
    by (cases "selected_suite_loop selected suites_r 0") (auto simp: selected_suite_is_supported_def)
qed

text \<open>C34: The search for the selected suite in the list of supported ones returns, with the right
  answer, if the suite is among the first 256 or the list is shorter; for a longer list without it
  the 8-bit counter wraps around and the loop never ends.\<close>

theorem selected_suite_terminates:
  "selected_suite_is_supported selected suites_r =
    (if selected \<in> set (take 256 suites_r) then Some True
     else if length suites_r < 256 then Some False else None)"
  by (rule selected_suite_is_supported_eq)

end
