(* ===== verification/Edhoc_Auth_Correct.thy ===== *)
theory Edhoc_Auth_Correct
  imports Edhoc_Suites Cbor_Reference Oscore_Invariant
begin

text \<open>
  Authentication in EDHOC: what the MAC is computed from, what verification accepts, and that it
  accepts what generation makes.
\<close>

section \<open>The MAC\<close>

lemma u32_sum3:
  assumes "length a + length b + length c < 2 ^ 32"
  shows "unat (of_nat (length a) + of_nat (length b) + of_nat (length c) :: u32) = length a + length b + length c"
proof -
  have "(of_nat (length a) + of_nat (length b) + of_nat (length c) :: u32) = of_nat (length a + length b + length c)"
    by simp
  with assms show ?thesis by (metis unat_of_nat_u32)
qed

lemma context_mac_eq:
  assumes small: "length id_cred + length cred + length ead < 2 ^ 32"
  shows "context_mac id_cred cred ead =
    (if length id_cred + length cred + length ead \<le> CONTEXT_MAC_DEFAULT_SIZE then Ok (id_cred @ cred @ ead)
     else Fail buffer_to_small)"
proof -
  let ?i = "of_nat (length id_cred) :: u32" and ?c = "of_nat (length cred) :: u32"
  let ?e = "of_nat (length ead) :: u32"
  note n = u32_sum3 [OF small]
  have parts: "unat ?i = length id_cred" "unat ?c = length cred" "unat ?e = length ead"
    using small by simp_all
  then have uparts: "uint ?i = int (length id_cred)" "uint ?c = int (length cred)"
    by (metis uint_nat)+
  show ?thesis
  proof (cases "length id_cred + length cred + length ead \<le> CONTEXT_MAC_DEFAULT_SIZE")
    case True
    let ?Z = "replicate CONTEXT_MAC_DEFAULT_SIZE (0 :: u8)"
    have m1: "memcpy_s ?Z 0 (?i + ?c + ?e) (Some id_cred) ?i = Ok (id_cred @ drop (length id_cred) ?Z)"
      using True parts n by (subst memcpy_s_in) (simp_all add: word_le_nat_alt)
    have m2: "memcpy_s (id_cred @ drop (length id_cred) ?Z) (int (unat ?i)) (?i + ?c + ?e - ?i) (Some cred) ?c =
        Ok ((id_cred @ cred) @ drop (length (id_cred @ cred)) ?Z)"
      using True n memcpy_s_rest [of "Some cred" ?c id_cred "?i + ?c + ?e" "drop (length id_cred) ?Z" "length id_cred"]
      by (simp add: parts add.commute)
    have "?i + ?c = of_nat (length (id_cred @ cred))" by simp
    then have w: "?i + ?c + ?e - ?i - ?c = ?i + ?c + ?e - of_nat (length (id_cred @ cred))" by simp
    have m3: "memcpy_s ((id_cred @ cred) @ drop (length (id_cred @ cred)) ?Z) (int (unat ?i + unat ?c))
        (?i + ?c + ?e - ?i - ?c) (Some ead) ?e =
        Ok ((id_cred @ cred) @ ead @ drop (length ead) (drop (length (id_cred @ cred)) ?Z))"
      unfolding w using True n memcpy_s_rest [of "Some ead" ?e "id_cred @ cred" "?i + ?c + ?e"
        "drop (length (id_cred @ cred)) ?Z" "length (id_cred @ cred)"]
      by (simp add: parts)
    from True n m1 m2 m3 show ?thesis
      by (simp add: context_mac_def Let_def check_buffer_size_def word_less_nat_alt uparts)
  next
    case False
    with n show ?thesis
      by (simp add: context_mac_def Let_def check_buffer_size_def word_less_nat_alt)
  qed
qed

definition edhoc_info_cbor :: "bytes \<Rightarrow> bytes \<Rightarrow> bytes \<Rightarrow> nat \<Rightarrow> bytes" where
  "edhoc_info_cbor th label context n = cbor_bstr th @ cbor_tstr label @ cbor_bstr context @ cbor_uint n"

lemma create_hkdf_info_eq:
  assumes Z: "zcbor_canonical Z" and "length th < 2 ^ 32" "length label < 2 ^ 32" "length context < 2 ^ 32"
  shows "create_hkdf_info Z th label context n cap =
    (if length (edhoc_info_cbor th label context (unat n)) \<le> cap
     then Ok (edhoc_info_cbor th label context (unat n)) else Fail unexpected_result_from_ext_lib)"
proof -
  let ?i = "\<lparr>info_transcript_hash = th, info_label = label, info_context = context, info_length = n\<rparr>"
  have "encodes Z 0 4 (encode_info Z ?i) (edhoc_info_cbor th label context (unat n))"
    unfolding encode_info_def edhoc_info_cbor_def
    by (intro encodes_cons) (use assms in \<open>simp_all add: zcbor_canonical_items\<close>)
  from cbor_entry_encodes [OF Z this, of 2 cap 4] show ?thesis
    by (simp add: create_hkdf_info_def cbor_encode_info_def)
qed

lemma mac_eq:
  assumes Z: "zcbor_canonical Z" and "length th < 2 ^ 32" "length label < 2 ^ 32"
    and "length id_cred + length cred + length ead < 2 ^ 32"
  shows "mac C Z prk th id_cred cred ead label static_dh s =
    (if CONTEXT_MAC_DEFAULT_SIZE < length id_cred + length cred + length ead then Fail buffer_to_small
     else let info = edhoc_info_cbor th label (id_cred @ cred @ ead) (unat (mac_len static_dh s)) in
       if INFO_DEFAULT_SIZE < length info then Fail unexpected_result_from_ext_lib
       else crypto_hkdf_expand C (edhoc_hash s) prk info (unat (mac_len static_dh s)))"
proof -
  from assms(4) have "length (id_cred @ cred @ ead) < 2 ^ 32" by simp
  from create_hkdf_info_eq [OF Z assms(2,3) this] assms(4) show ?thesis
    by (simp add: mac_def context_mac_eq okm_calc_def Let_def)
qed

section \<open>Signature or MAC\<close>

text \<open>HKDF-Expand, which an application may replace, fills its output.\<close>

definition expand_fills :: "crypto \<Rightarrow> bool" where
  "expand_fills C \<longleftrightarrow> (\<forall>alg prk info n b. crypto_hkdf_expand C alg prk info n = Ok b \<longrightarrow> length b = n)"

lemma mac_length:
  "expand_fills C \<Longrightarrow> mac C Z prk th id_cred cred ead label static_dh s = Ok m \<Longrightarrow>
   length m = unat (mac_len static_dh s)"
  by (auto simp: mac_def okm_calc_def res_simps expand_fills_def)

lemma suite_fields:
  assumes "get_suite label = Ok s"
  shows "get_hash_len (edhoc_hash s) = 32" and "mac_len False s = 32" and "unat (mac_len True s) \<le> 16"
    and "0 < mac_len True s" and "get_signature_len (edhoc_sign s) = 64"
  using assms
  by (auto simp: get_suite_def get_hash_len_def mac_len_def get_signature_len_def split: if_splits)

lemma verify_static_dh_eq:
  assumes mac: "mac C Z prk th id_cred cred ead label True s = Ok m" and "length m \<le> SHA_DEFAULT_SIZE"
    and buf: "length mac_buf = SHA_DEFAULT_SIZE" and "get_hash_len (edhoc_hash s) = 32"
    and len: "unat len \<le> length sm"
  shows "signature_or_mac_verify C Z mac_buf True s pk prk th id_cred cred ead label (sm, len) =
    (if SHA_DEFAULT_SIZE < unat len then Undef
     else if take (unat len) sm = take (unat len) (m @ drop (length m) mac_buf) then Ok ()
     else Fail mac_authentication_failed)"
proof -
  have "write_mem mac_buf 0 m = Ok (m @ drop (length m) mac_buf)"
    using assms(2) buf by (simp add: write_mem_def)
  moreover have "memcmp_equal (Some (m @ drop (length m) mac_buf)) (Some sm) (unat len) =
      (if SHA_DEFAULT_SIZE < unat len then Undef
       else Ok (take (unat len) sm = take (unat len) (m @ drop (length m) mac_buf)))"
    using assms(2) buf len by (auto simp: memcmp_equal_def read_mem_def)
  ultimately show ?thesis
    using mac assms(4) by (simp add: signature_or_mac_verify_def)
qed

text \<open>What generation leaves in the buffer.\<close>

lemma generate_eq:
  assumes "signature_or_mac_generate C Z static_dh s sk pk prk th id_cred cred ead label buf = Ok io"
  obtains m where "mac C Z prk th id_cred cred ead label static_dh s = Ok m" "length m \<le> length buf"
    "static_dh \<Longrightarrow> io = (m @ drop (length m) buf, mac_len static_dh s)"
    "\<not> static_dh \<Longrightarrow> \<exists>signed sig. signature_struct_gen Z th id_cred cred ead m SIGNATURE_STRUCT_DEFAULT_SIZE = Ok signed \<and>
      crypto_sign C (edhoc_sign s) sk pk signed = Ok sig \<and> length sig \<le> length buf \<and>
      take (length sig) (fst io) = sig \<and> snd io = get_signature_len (edhoc_sign s)"
proof -
  from assms obtain m where m: "mac C Z prk th id_cred cred ead label static_dh s = Ok m" "length m \<le> length buf"
    and rest: "(if static_dh then Ok (m @ drop (length m) buf, mac_len static_dh s)
     else
       TRY (signature_struct_gen Z th id_cred cred ead m SIGNATURE_STRUCT_DEFAULT_SIZE) (\<lambda>signed.
       TRY (crypto_sign C (edhoc_sign s) sk pk signed) (\<lambda>sig.
       TRY (write_mem (m @ drop (length m) buf) 0 sig) (\<lambda>buf2.
       Ok (buf2, get_signature_len (edhoc_sign s)))))) = Ok io"
    by (auto simp: signature_or_mac_generate_def TRY_eq_Ok write_mem_def split: if_splits)
  show thesis
    by (rule that [OF m]) (use rest m(2) in \<open>auto simp: TRY_eq_Ok write_mem_def split: if_splits\<close>)
qed

text \<open>Signatures made with a key pair verify.\<close>

definition key_pair :: "crypto \<Rightarrow> int \<Rightarrow> bytes \<Rightarrow> bytes \<Rightarrow> bool" where
  "key_pair C alg sk pk \<longleftrightarrow> (\<forall>msg sig. crypto_sign C alg sk pk msg = Ok sig \<longrightarrow>
     length sig = unat (get_signature_len alg) \<and> crypto_verify C alg pk msg sig = Ok True)"

section \<open>An example\<close>

definition example_suite :: suite where
  "example_suite = (case get_suite 0 of Ok s \<Rightarrow> s | _ \<Rightarrow> zero_suite)"

definition example_mac :: bytes where
  "example_mac = (case mac example_crypto rfc8949_zcbor [1] [2] [0xA1, 4, 5] [3] [] (cstr ''MAC_2'') True example_suite of
     Ok m \<Rightarrow> m | _ \<Rightarrow> [])"

lemma example_suite: "get_suite 0 = Ok example_suite"
  by (simp add: example_suite_def get_suite_def)

lemma example_crypto_laws: "expand_fills example_crypto" "key_pair example_crypto (edhoc_sign example_suite) sk pk"
  by (auto simp: expand_fills_def key_pair_def example_crypto_def example_suite_def get_suite_def
      get_signature_len_def)

lemma example_mac:
  "mac example_crypto rfc8949_zcbor [1] [2] [0xA1, 4, 5] [3] [] (cstr ''MAC_2'') True example_suite = Ok example_mac"
  "length example_mac = 8"
proof -
  let ?info = "edhoc_info_cbor [2] [77, 65, 67, 95, 50] [161, 4, 5, 3] 8"
  have info: "length ?info = 14" by code_simp
  have n: "mac_len True example_suite = 8" by code_simp
  have "mac example_crypto rfc8949_zcbor [1] [2] [0xA1, 4, 5] [3] [] (cstr ''MAC_2'') True example_suite
      = crypto_hkdf_expand example_crypto (edhoc_hash example_suite) [1] ?info 8"
    by (subst mac_eq [OF rfc8949_canonical]) (simp_all add: Let_def info n cstr_def)
  then have "mac example_crypto rfc8949_zcbor [1] [2] [0xA1, 4, 5] [3] [] (cstr ''MAC_2'') True example_suite
      = Ok (replicate 8 (fold (+) ([1] @ ?info) 0))" by (simp add: example_crypto_def)
  then show "mac example_crypto rfc8949_zcbor [1] [2] [0xA1, 4, 5] [3] [] (cstr ''MAC_2'') True example_suite = Ok example_mac"
    "length example_mac = 8" by (simp_all add: example_mac_def)
qed

section \<open>Verification\<close>

text \<open>C22: With a static DH key, verification accepts exactly the received values that are a prefix of
  the MAC followed by what the local buffer held before: a value as long as the MAC must be the MAC,
  but a shorter prefix of it is accepted as well, and one longer than the buffer is compared
  beyond its end.\<close>

theorem verify_static_dh_accepts_prefixes:
  assumes "get_suite label = Ok s" and "expand_fills C"
    and "mac C Z prk th id_cred cred ead mac_label True s = Ok m"
    and "length mac_buf = SHA_DEFAULT_SIZE" and "unat len \<le> length sm"
  shows "signature_or_mac C Z mac_buf VERIFY True s sk pk prk th id_cred cred ead mac_label (sm, len) =
    (if SHA_DEFAULT_SIZE < unat len then Undef
     else if take (unat len) sm = take (unat len) (m @ drop (length m) mac_buf) then Ok (sm, len)
     else Fail mac_authentication_failed)"
proof -
  have "length m \<le> SHA_DEFAULT_SIZE"
    using mac_length [OF assms(2,3)] suite_fields(3) [OF assms(1)] by simp
  with verify_static_dh_eq [OF assms(3) this assms(4) suite_fields(1) [OF assms(1)] assms(5), of pk]
  show ?thesis by (simp add: signature_or_mac_def)
qed

theorem verify_static_dh_accepts_prefixes_witness:
  "signature_or_mac example_crypto rfc8949_zcbor (replicate 32 0) VERIFY True example_suite [] [] [1] [2] [0xA1, 4, 5]
     [3] [] (cstr ''MAC_2'') (example_mac, 8) = Ok (example_mac, 8)"
  using verify_static_dh_accepts_prefixes [OF example_suite example_crypto_laws(1) example_mac(1),
      of "replicate 32 0" 8 example_mac "[]" "[]"] example_mac(2)
  by simp

text \<open>With a static DH key, an empty received value passes verification, whoever sent it and
  whatever it should authenticate.\<close>

lemma empty_mac_is_accepted:
  assumes "get_suite label = Ok s" and "expand_fills C"
    and "mac C Z prk th id_cred cred ead mac_label True s = Ok m"
    and "length mac_buf = SHA_DEFAULT_SIZE"
  shows "signature_or_mac C Z mac_buf VERIFY True s sk pk prk th id_cred cred ead mac_label (sm, 0) = Ok (sm, 0)"
proof -
  have "length m \<le> SHA_DEFAULT_SIZE"
    using mac_length [OF assms(2,3)] suite_fields(3) [OF assms(1)] by simp
  with verify_static_dh_eq [OF assms(3) this assms(4) suite_fields(1) [OF assms(1)], of 0 sm pk]
  show ?thesis by (simp add: signature_or_mac_def)
qed

lemma empty_mac_is_accepted_example:
  "signature_or_mac example_crypto rfc8949_zcbor (replicate 32 0) VERIFY True example_suite [] [] [1] [2] [0xA1, 4, 5]
     [3] [] (cstr ''MAC_2'') (replicate 128 0, 0) = Ok (replicate 128 0, 0)"
  by (rule empty_mac_is_accepted [OF example_suite example_crypto_laws(1) example_mac(1)]) simp

text \<open>C4: What \<open>signature_or_mac\<close> generates, it verifies on the other side: with the same keys,
  transcript hash, credential and data, for signatures and for MACs, in every suite.\<close>

theorem generated_signature_or_mac_verifies:
  assumes "get_suite label = Ok s" and fills: "expand_fills C" and keys: "key_pair C (edhoc_sign s) sk pk"
    and "length mac_buf = SHA_DEFAULT_SIZE"
    and gen: "signature_or_mac C Z buf0 GENERATE static_dh s sk pk prk th id_cred cred ead mac_label sm0 = Ok sm"
  shows "signature_or_mac C Z mac_buf VERIFY static_dh s [] pk prk th id_cred cred ead mac_label sm = Ok sm"
proof -
  note sizes = suite_fields [OF assms(1)]
  from gen have "signature_or_mac_generate C Z static_dh s sk pk prk th id_cred cred ead mac_label (fst sm0) = Ok sm"
    by (simp add: signature_or_mac_def)
  then obtain m where m: "mac C Z prk th id_cred cred ead mac_label static_dh s = Ok m" "length m \<le> length (fst sm0)"
    and dh: "static_dh \<Longrightarrow> sm = (m @ drop (length m) (fst sm0), mac_len static_dh s)"
    and sg: "\<not> static_dh \<Longrightarrow> \<exists>signed sig. signature_struct_gen Z th id_cred cred ead m SIGNATURE_STRUCT_DEFAULT_SIZE = Ok signed \<and>
      crypto_sign C (edhoc_sign s) sk pk signed = Ok sig \<and> length sig \<le> length (fst sm0) \<and>
      take (length sig) (fst sm) = sig \<and> snd sm = get_signature_len (edhoc_sign s)"
    by (rule generate_eq) (rule that; blast)
  have ml: "length m = unat (mac_len static_dh s)" by (rule mac_length [OF fills m(1)])
  show ?thesis
  proof (cases static_dh)
    case True
    then have n: "unat (mac_len static_dh s) = length m" "length m \<le> SHA_DEFAULT_SIZE"
      using ml sizes(3) by simp_all
    have "mac C Z prk th id_cred cred ead mac_label True s = Ok m" using m(1) True by simp
    from verify_static_dh_eq [OF this n(2) assms(4) sizes(1), of "snd sm" "fst sm" pk] n dh [OF True] True
    show ?thesis by (simp add: signature_or_mac_def)
  next
    case False
    from sg [OF False] obtain signed sig where signed:
      "signature_struct_gen Z th id_cred cred ead m SIGNATURE_STRUCT_DEFAULT_SIZE = Ok signed"
      "crypto_sign C (edhoc_sign s) sk pk signed = Ok sig"
      "take (length sig) (fst sm) = sig" "snd sm = get_signature_len (edhoc_sign s)" by blast
    with keys have "length sig = unat (snd sm)" "crypto_verify C (edhoc_sign s) pk signed sig = Ok True"
      by (auto simp: key_pair_def)
    moreover from this signed(3) have "read_mem (Some (fst sm)) (unat (snd sm)) = Ok sig"
      by (metis read_mem_in length_take min.cobounded1 min_def nat_le_linear take_all_iff)
    moreover have "write_mem mac_buf 0 m = Ok (m @ drop (length m) mac_buf)"
      using ml sizes(2) assms(4) False by (simp add: write_mem_def)
    ultimately show ?thesis
      using m(1) signed(1) sizes(1) False
      by (simp add: signature_or_mac_def signature_or_mac_verify_def case_prod_unfold)
  qed
qed

theorem generated_signature_or_mac_verifies_witness:
  "signature_or_mac example_crypto rfc8949_zcbor (replicate 32 0) VERIFY True example_suite [] [] [1] [2] [0xA1, 4, 5]
     [3] [] (cstr ''MAC_2'') (example_mac @ replicate 56 0, 8) = Ok (example_mac @ replicate 56 0, 8)"
proof -
  have n: "mac_len True example_suite = 8" by code_simp
  have "signature_or_mac example_crypto rfc8949_zcbor (replicate 32 0) GENERATE True example_suite [] [] [1] [2]
     [0xA1, 4, 5] [3] [] (cstr ''MAC_2'') (replicate 64 0, 64) = Ok (example_mac @ replicate 56 0, 8)"
    using example_mac(2) by (simp add: signature_or_mac_def signature_or_mac_generate_def example_mac(1) write_mem_def n
      flip: replicate_add)
  then show ?thesis
    by (rule generated_signature_or_mac_verifies [OF example_suite example_crypto_laws, rotated]) simp
qed

end
