(* ===== verification/Edhoc_Channel.thy ===== *)
theory Edhoc_Channel
  imports Edhoc_Protocol
begin

text \<open>
  The functions an application hands to a run, seen from outside: what they log, and an application
  that sends into a log and receives from a queue.
\<close>

text \<open>\<open>sent\<close> are the messages the application has sent; receiving does not add to them.\<close>

definition logs_messages :: "('w \<Rightarrow> bytes list) \<Rightarrow> 'w tx_fun \<Rightarrow> 'w rx_fun \<Rightarrow> bool" where
  "logs_messages sent tx rx \<longleftrightarrow>
     (\<forall>b w. sent (snd (tx b w)) = sent w @ [b]) \<and> (\<forall>io w. sent (snd (rx io w)) = sent w)"

lemma logs_messagesD:
  assumes "logs_messages sent tx rx"
  shows "tx b w = (r, w') \<Longrightarrow> sent w' = sent w @ [b]" "rx io w = (q, w') \<Longrightarrow> sent w' = sent w"
  using assms unfolding logs_messages_def by (metis snd_conv)+

text \<open>The world of an endpoint: the messages it has sent and those it will receive, each copied to
  the front of the buffer it is received into.\<close>

type_synonym channel = "bytes list \<times> bytes list"

definition channel_tx :: "channel tx_fun" where
  "channel_tx b = (\<lambda>(log, ins). (Ok (), (log @ [b], ins)))"

definition channel_rx :: "channel rx_fun" where
  "channel_rx io = (\<lambda>(log, ins). case ins of
     [] \<Rightarrow> (Fail unexpected_result_from_ext_lib, (log, ins))
   | m # ms \<Rightarrow>
       if length m \<le> unat (snd io) \<and> length m \<le> length (fst io)
       then (Ok (m @ drop (length m) (fst io), of_nat (length m)), (log, ms))
       else (Fail buffer_to_small, (log, ms)))"

lemma channel_logs: "logs_messages fst channel_tx channel_rx"
  by (auto simp: logs_messages_def channel_tx_def channel_rx_def split: list.splits)

lemma channel_tx_eq: "channel_tx b (log, ins) = (r, w) \<longleftrightarrow> r = Ok () \<and> w = (log @ [b], ins)"
  by (auto simp: channel_tx_def)

end
