(* ===== verification/Edhoc_Example.thy ===== *)
theory Edhoc_Example
  imports Edhoc_Channel Cbor_Reference
begin

text \<open>
  A run of EDHOC that the model executes: method 3 (two static DH keys), suite 0, credentials
  found by their kid, with message 4.  The cryptography is a placeholder that satisfies the laws the
  properties ask for: the shared secret of two keys is their sum, keys and hashes have constant
  bytes, a tag is a constant, and no signature verifies, for none is made.
\<close>

definition toy_crypto :: crypto where
  "toy_crypto = \<lparr>
     crypto_aead = (\<lambda>op inb key nonce aad n t.
        if op = ENCRYPT then Ok (inb @ replicate (unat t) 1, replicate (unat t) 1)
        else Ok (take (unat n) inb, [])),
     crypto_sign = (\<lambda>alg sk pk msg. Ok (replicate 64 2)),
     crypto_verify = (\<lambda>alg pk msg sgn. Ok False),
     crypto_hkdf_extract = (\<lambda>alg salt ikm. Ok ikm),
     crypto_hkdf_expand = (\<lambda>alg prk info n. Ok (replicate n 3)),
     crypto_hkdf_sha_256 = (\<lambda>secret salt info n. Ok (replicate n 4)),
     crypto_shared_secret_derive = (\<lambda>alg sk pk. Ok (map2 (+) sk pk)),
     crypto_hash = (\<lambda>alg inb. Ok (replicate 32 5))\<rparr>"

definition toy_public :: "bytes \<Rightarrow> bytes" where
  "toy_public sk = map (\<lambda>b. b + 9) sk"

definition toy_initiator :: edhoc_initiator_context where
  "toy_initiator = \<lparr>ic_msg4 = True, ic_c_i = \<lparr>cx_type = C_INT, cx_mem = c_x_int 12\<rparr>, ic_method = 3,
     ic_suites_i = [0], ic_ead_1 = [], ic_ead_3 = [], ic_id_cred_i = [0xA1, 4, 5],
     ic_cred_i = [0x43, 1, 2, 3], ic_g_x = toy_public (replicate 32 1), ic_x = replicate 32 1,
     ic_g_i = toy_public (replicate 32 3), ic_i = replicate 32 3, ic_sk_i = [], ic_pk_i = []\<rparr>"

definition toy_responder :: edhoc_responder_context where
  "toy_responder = \<lparr>rp_msg4 = True, rp_c_r = \<lparr>cx_type = C_INT, cx_mem = c_x_int 13\<rparr>,
     rp_suites_r = [0, 2], rp_g_y = toy_public (replicate 32 2), rp_y = replicate 32 2,
     rp_g_r = toy_public (replicate 32 4), rp_r = replicate 32 4, rp_ead_2 = [], rp_ead_4 = [],
     rp_id_cred_r = [0xA1, 4, 7], rp_cred_r = [0x43, 4, 5, 6], rp_sk_r = [], rp_pk_r = []\<rparr>"

definition toy_cred :: "bytes \<Rightarrow> bytes \<Rightarrow> bytes \<Rightarrow> other_party_cred" where
  "toy_cred id_cred cred g = \<lparr>oc_id_cred = array_of id_cred, oc_cred = array_of cred,
     oc_pk = NULL_ARRAY, oc_g = array_of g, oc_ca = NULL_ARRAY, oc_ca_pk = NULL_ARRAY\<rparr>"

definition toy_creds_r :: "other_party_cred list" where
  "toy_creds_r = [toy_cred [0xA1, 4, 7] [0x43, 4, 5, 6] (toy_public (replicate 32 4))]"

definition toy_creds_i :: "other_party_cred list" where
  "toy_creds_i = [toy_cred [0xA1, 4, 5] [0x43, 1, 2, 3] (toy_public (replicate 32 3))]"

definition toy_locals :: edhoc_locals where
  "toy_locals = \<lparr>el_mac_buf = replicate 32 0, el_static_dh_r = False\<rparr>"

definition toy_message_1 :: bytes where "toy_message_1 = [3, 0, 88, 32] @ replicate 32 10 @ [12]"

definition toy_message_2 :: bytes where
  "toy_message_2 = [88, 42] @ replicate 32 11 @ [4, 75, 0, 0, 0, 0, 0, 0, 0, 0, 13]"

definition toy_message_3 :: bytes where
  "toy_message_3 = [82, 5, 72] @ replicate 8 3 @ replicate 8 1"

definition toy_message_4 :: bytes where "toy_message_4 = 72 # replicate 8 1"

definition toy_initiator_run :: "bytes list \<Rightarrow> run_result res \<times> channel" where
  "toy_initiator_run ins = edhoc_initiator_run toy_crypto rfc8949_zcbor rfc8949_dec toy_locals
     toy_initiator toy_creds_r 1 (full_buf 4) (full_buf 4) channel_tx channel_rx ([], ins)"

definition toy_responder_run :: "bytes list \<Rightarrow> run_result res \<times> channel" where
  "toy_responder_run ins = edhoc_responder_run toy_crypto rfc8949_zcbor rfc8949_dec toy_locals
     toy_responder toy_creds_i 1 (full_buf 4) (full_buf 4) channel_tx channel_rx ([], ins)"

text \<open>Both runs succeed on each other's messages, with the same keys.\<close>

lemma toy_initiator_runs:
  "toy_initiator_run [toy_message_2, toy_message_4] =
    (Ok \<lparr>rr_ead_a = (replicate 4 0, 0), rr_ead_b = (replicate 4 0, 0), rr_prk_4x3m = replicate 32 14,
         rr_th4 = replicate 32 5\<rparr>, [toy_message_1, toy_message_3], [])"
  by code_simp

lemma toy_responder_runs:
  "toy_responder_run [toy_message_1, toy_message_3] =
    (Ok \<lparr>rr_ead_a = (replicate 4 0, 4), rr_ead_b = (replicate 4 0, 0), rr_prk_4x3m = replicate 32 14,
         rr_th4 = replicate 32 5\<rparr>, [toy_message_2, toy_message_4], [])"
  by code_simp

end
