(* ===== verification/Edhoc_Credentials.thy ===== *)
theory Edhoc_Credentials
  imports Edhoc_Auth_Correct Edhoc_Example
begin

text \<open>
  Finding the peer: which stored credential and which certification authority are chosen, that
  X.509 certificates are never accepted without MBEDTLS, and that the runs of the protocol go on
  only after the peer was verified.
\<close>

section \<open>Stored credentials\<close>

definition id_matches :: "bytes \<Rightarrow> other_party_cred \<Rightarrow> bool" where
  "id_matches id_cred c \<longleftrightarrow> mem_bytes (ba_ptr (oc_id_cred c)) (unat (ba_len (oc_id_cred c))) = id_cred"

lemma memcmp_equal_eq:
  "mem_ok p n \<Longrightarrow> mem_ok q n \<Longrightarrow> memcmp_equal p q n = Ok (mem_bytes p n = mem_bytes q n)"
  by (simp add: memcmp_equal_def)

lemma get_local_cred_loop_eq:
  assumes "i + n \<le> length cred_array" and "length id_cred < 2 ^ 32"
    and "\<forall>c \<in> set cred_array. mem_ok (ba_ptr (oc_id_cred c)) (unat (ba_len (oc_id_cred c)))"
  shows "get_local_cred_loop n i static_dh cred_array id_cred k =
    (case filter (id_matches id_cred) (take n (drop i cred_array)) of
       [] \<Rightarrow> Fail credential_not_found | c # _ \<Rightarrow> copy_local_cred static_dh c k)"
  using assms(1)
proof (induction n arbitrary: i)
  case (Suc n)
  let ?c = "cred_array ! i"
  from Suc.prems have split: "take (Suc n) (drop i cred_array) = ?c # take n (drop (Suc i) cred_array)"
    by (simp add: Cons_nth_drop_Suc [symmetric])
  have ok: "mem_ok (ba_ptr (oc_id_cred ?c)) (unat (ba_len (oc_id_cred ?c)))"
    using assms(3) Suc.prems by simp
  have "(if ba_len (oc_id_cred ?c) = of_nat (length id_cred)
      then memcmp_equal (ba_ptr (oc_id_cred ?c)) (Some id_cred) (length id_cred) else Ok False)
    = Ok (id_matches id_cred ?c)"
  proof (cases "ba_len (oc_id_cred ?c) = of_nat (length id_cred)")
    case True
    with assms(2) have "unat (ba_len (oc_id_cred ?c)) = length id_cred" by simp
    with ok True show ?thesis by (simp add: memcmp_equal_eq id_matches_def)
  next
    case False
    then have "length id_cred \<noteq> unat (ba_len (oc_id_cred ?c))" by auto
    with ok False show ?thesis by (auto simp: id_matches_def mem_ok_def)
  qed
  with Suc split show ?case by simp
qed simp

section \<open>Certification authorities\<close>

definition ca_matches :: "ptr \<Rightarrow> other_party_cred \<Rightarrow> bool" where
  "ca_matches issuer c \<longleftrightarrow>
     mem_bytes (ba_ptr (oc_ca c)) (unat (ba_len (oc_ca c))) = mem_bytes issuer (unat (ba_len (oc_ca c)))"

lemma ca_pk_get_loop_eq:
  assumes "i + n \<le> length cred_array"
    and "\<forall>c \<in> set cred_array. mem_ok (ba_ptr (oc_ca c)) (unat (ba_len (oc_ca c))) \<and>
      mem_ok issuer (unat (ba_len (oc_ca c)))"
  shows "ca_pk_get_loop n i cred_array issuer =
    (case filter (ca_matches issuer) (take n (drop i cred_array)) of
       [] \<Rightarrow> Fail no_such_ca | c # _ \<Rightarrow> Ok (oc_ca_pk c))"
  using assms(1)
proof (induction n arbitrary: i)
  case (Suc n)
  let ?c = "cred_array ! i"
  from Suc.prems have split: "take (Suc n) (drop i cred_array) = ?c # take n (drop (Suc i) cred_array)"
    by (simp add: Cons_nth_drop_Suc [symmetric])
  have "memcmp_equal (ba_ptr (oc_ca ?c)) issuer (unat (ba_len (oc_ca ?c))) = Ok (ca_matches issuer ?c)"
    using assms(2) Suc.prems by (simp add: memcmp_equal_eq ca_matches_def)
  with Suc split show ?case by simp
qed simp

section \<open>The peer of a run\<close>

text \<open>A received value is authentic under a key: it is the MAC, the whole of it, or a valid signature
  of the structure with the MAC.\<close>

definition authentic ::
    "crypto \<Rightarrow> 'z zcbor \<Rightarrow> bool \<Rightarrow> suite \<Rightarrow> bytes \<Rightarrow> bytes \<Rightarrow> bytes \<Rightarrow> bytes \<Rightarrow> bytes \<Rightarrow> bytes \<Rightarrow>
     bytes \<Rightarrow> io_buf \<Rightarrow> bool" where
  "authentic C Z static_dh s pk prk th id_cred cred ead mac_label sm \<longleftrightarrow>
     (\<exists>m. mac C Z prk th id_cred cred ead mac_label static_dh s = Ok m \<and>
        (if static_dh then io_bytes sm = m
         else \<exists>signed.
           signature_struct_gen Z th id_cred cred ead m SIGNATURE_STRUCT_DEFAULT_SIZE = Ok signed \<and>
           crypto_verify C (edhoc_sign s) pk signed (io_bytes sm) = Ok True))"

text \<open>The other case the code accepts, with static DH keys only: a received value of a length other
  than that of the MAC, which agrees with the MAC and what follows it in the local buffer as far as it
  goes.  The empty value is one: it authenticates nobody.\<close>

definition wrong_length_mac ::
    "crypto \<Rightarrow> 'z zcbor \<Rightarrow> bytes \<Rightarrow> suite \<Rightarrow> bytes \<Rightarrow> bytes \<Rightarrow> bytes \<Rightarrow> bytes \<Rightarrow> bytes \<Rightarrow> bytes \<Rightarrow> io_buf \<Rightarrow> bool"
where
  "wrong_length_mac C Z mac_buf s prk th id_cred cred ead mac_label sm \<longleftrightarrow>
     (\<exists>m. mac C Z prk th id_cred cred ead mac_label True s = Ok m \<and> unat (snd sm) \<noteq> length m \<and>
        io_bytes sm = take (unat (snd sm)) (m @ drop (length m) mac_buf))"

lemma verified_authentic:
  assumes "signature_or_mac C Z mac_buf VERIFY static_dh s sk pk prk th id_cred cred ead label sm = Ok x"
  shows "authentic C Z static_dh s pk prk th id_cred cred ead label sm \<or>
    static_dh \<and> wrong_length_mac C Z mac_buf s prk th id_cred cred ead label sm"
proof (cases static_dh)
  case True
  with assms obtain m where m: "mac C Z prk th id_cred cred ead label True s = Ok m"
    "io_bytes sm = take (unat (snd sm)) (m @ drop (length m) mac_buf)"
    by (cases sm)
      (auto simp: signature_or_mac_def signature_or_mac_verify_def TRY_eq_Ok io_bytes_def write_mem_def
        memcmp_equal_def read_mem_def simp del: take_append split: if_splits)
  with True show ?thesis
    by (cases "unat (snd sm) = length m") (auto simp: authentic_def wrong_length_mac_def)
qed (use assms in \<open>cases sm; auto simp: signature_or_mac_def signature_or_mac_verify_def authentic_def TRY_eq_Ok
  io_bytes_def read_mem_def split: if_splits\<close>)

text \<open>Where the keys of the peer come from: a stored credential with the received identifier, or a
  C509 certificate in the identifier whose signature verifies under the key of a stored authority
  with the name of the issuer; the peer's key is then the one in the certificate.\<close>

definition certified :: "crypto \<Rightarrow> 'd zcbor_dec \<Rightarrow> bool \<Rightarrow> other_party_cred list \<Rightarrow> u16 \<Rightarrow> zcbor_string \<Rightarrow> peer_keys \<Rightarrow> bool" where
  "certified C D static_dh creds num cert k \<longleftrightarrow>
     (\<exists>c root root_pk tbs sgn key. cbor_decode_cert D (zs_value cert) (unat (zs_len cert)) = Some c \<and>
        ca_pk_get creds num (zs_value (cert_issuer c)) = Ok root \<and>
        read_mem (ba_ptr root) (unat (ba_len root)) = Ok root_pk \<and>
        read_mem (zs_value cert) (unat (zs_len cert - 2 - zs_len (cert_signature c))) = Ok tbs \<and>
        read_mem (zs_value (cert_signature c)) (unat (zs_len (cert_signature c))) = Ok sgn \<and>
        crypto_verify C (sint (cert_issuer_signature_algorithm c)) root_pk tbs sgn = Ok True \<and>
        read_mem (zs_value (cert_pk c)) (unat (zs_len (cert_pk c))) = Ok key \<and>
        io_bytes (if static_dh then pk_g k else pk_pk k) = key)"

definition trusted_credential ::
    "crypto \<Rightarrow> 'd zcbor_dec \<Rightarrow> bool \<Rightarrow> other_party_cred list \<Rightarrow> u16 \<Rightarrow> bytes \<Rightarrow> peer_keys \<Rightarrow> bool" where
  "trusted_credential C D static_dh creds num id_cred k \<longleftrightarrow>
     get_local_cred static_dh creds num id_cred fresh_keys = Ok k \<or>
     (\<exists>m cert. cbor_decode_id_cred_x_map D (Some id_cred) (length id_cred) = Some m \<and>
        (map_c5c m = Some cert \<or> map_c5b m = Some cert) \<and> certified C D static_dh creds num cert k)"

lemma memcpy_front:
  assumes "memcpy_s dest 0 room src n = Ok dest'"
  shows "read_mem src (unat n) = Ok (take (unat n) dest')"
  using assms by (auto simp: memcpy_s_def res_simps write_mem_def dest!: read_mem_Ok_length split: if_splits)

lemma c509_certified:
  assumes "cert_c509_verify C D (zs_value cert) (zs_len cert) creds num pk = Ok (pk', True)"
    and "pk' = (if static_dh then pk_g k else pk_pk k)"
  shows "certified C D static_dh creds num cert k"
  using assms(1) unfolding certified_def assms(2) [symmetric]
  by (cases pk) (auto simp: cert_c509_verify_def TRY_eq_Ok TRY_EXPECT_eq_Ok io_bytes_def dest!: memcpy_front)

lemma verified_cert2cred:
  assumes "verify_cert2cred cert_x509_verify C Z D static_dh creds num label cert k0 = Ok k"
  shows "certified C D static_dh creds num cert k"
proof -
  from assms have "cert_c509_verify C D (zs_value cert) (zs_len cert) creds num
      (if static_dh then pk_g k0 else pk_pk k0) = Ok (if static_dh then pk_g k else pk_pk k, True)"
    by (auto simp: verify_cert2cred_def cert_x509_verify_def TRY_eq_Ok Let_def split: prod.splits if_splits bool.splits)
  then show ?thesis by (rule c509_certified) simp
qed

lemma x509_label_refused [simp]:
  "verify_cert2cred cert_x509_verify C Z D static_dh creds num L_x5chain cert k \<noteq> Ok k'"
  "verify_cert2cred cert_x509_verify C Z D static_dh creds num L_x5bag cert k \<noteq> Ok k'"
  by (auto simp: verify_cert2cred_def cert_x509_verify_def TRY_eq_Ok case_prod_unfold Let_def split: if_splits)

lemma retrieved_trusted:
  assumes "retrieve_cred C Z D static_dh creds num id_cred fresh_keys = Ok k"
  shows "trusted_credential C D static_dh creds num id_cred k"
  using assms unfolding trusted_credential_def
  by (auto simp: retrieve_cred_def retrieve_cred_by_def TRY_EXPECT_eq_Ok split: if_splits option.splits
      dest: verified_cert2cred)

text \<open>What the initiator has checked when it accepts message 2: \<open>b\<close> is what decrypts under the keys
  of the exchange, \<open>k\<close> the credential its identifier selects.\<close>

definition responder_authenticated ::
    "crypto \<Rightarrow> 'z zcbor \<Rightarrow> 'd zcbor_dec \<Rightarrow> edhoc_locals \<Rightarrow> edhoc_initiator_context \<Rightarrow> suite \<Rightarrow> bool \<Rightarrow>
     runtime_context \<Rightarrow> other_party_cred list \<Rightarrow> u16 \<Rightarrow> io_buf \<Rightarrow> bool" where
  "responder_authenticated C Z D L c s static_dh_r rt creds num ead_2 \<longleftrightarrow>
     (\<exists>g_y c_r ct2 th2 PRK_2e b k PRK_3e2m.
        msg2_parse D (rt_msg2 rt) (get_ecdh_pk_len (edhoc_ecdh s)) (fresh_c_x C_R_DEFAULT_SIZE)
          (full_buf CIPHERTEXT2_DEFAULT_SIZE) = Ok (g_y, c_r, ct2) \<and>
        th2_calculate C Z (edhoc_hash s) (io_bytes (rt_msg1 rt)) g_y c_r = Ok th2 \<and>
        prk_2e_derive C s (ic_x c) g_y = Ok PRK_2e \<and>
        ciphertext_decrypt_split C Z D CIPHERTEXT2 s (fresh_split ead_2) PRK_2e th2 (io_bytes ct2) = Ok b \<and>
        trusted_credential C D static_dh_r creds num (io_bytes (sb_id_cred b)) k \<and>
        prk_derive C static_dh_r s PRK_2e (io_bytes (pk_g k)) (ic_x c) = Ok PRK_3e2m \<and>
        (authentic C Z static_dh_r s (io_bytes (pk_pk k)) PRK_3e2m th2
           (io_bytes (sb_id_cred b)) (io_bytes (pk_cred k)) (io_bytes (sb_ead b)) (cstr ''MAC_2'')
           (sb_sgn_or_mac b) \<or>
         static_dh_r \<and> wrong_length_mac C Z (el_mac_buf L) s PRK_3e2m th2
           (io_bytes (sb_id_cred b)) (io_bytes (pk_cred k)) (io_bytes (sb_ead b)) (cstr ''MAC_2'')
           (sb_sgn_or_mac b)))"

text \<open>What the responder has checked when it accepts message 3; the transcript hash and the keys are
  those of its own message 2.\<close>

definition initiator_authenticated ::
    "crypto \<Rightarrow> 'z zcbor \<Rightarrow> 'd zcbor_dec \<Rightarrow> edhoc_locals \<Rightarrow> edhoc_responder_context \<Rightarrow>
     runtime_context \<Rightarrow> other_party_cred list \<Rightarrow> u16 \<Rightarrow> io_buf \<Rightarrow> bool" where
  "initiator_authenticated C Z D L c rt creds num ead_3 \<longleftrightarrow>
     (\<exists>ct3 b k PRK_4x3m.
        decode_byte_string D (Some (fst (rt_msg3 rt))) (snd (rt_msg3 rt))
          (full_buf CIPHERTEXT3_DEFAULT_SIZE) = Ok ct3 \<and>
        ciphertext_decrypt_split C Z D CIPHERTEXT3 (rt_suite rt) (fresh_split ead_3) (rt_PRK_3e2m rt)
          (rt_th3 rt) (io_bytes ct3) = Ok b \<and>
        trusted_credential C D (rt_static_dh_i rt) creds num (io_bytes (sb_id_cred b)) k \<and>
        prk_derive C (rt_static_dh_i rt) (rt_suite rt) (rt_PRK_3e2m rt) (io_bytes (pk_g k)) (rp_y c) =
          Ok PRK_4x3m \<and>
        (authentic C Z (rt_static_dh_i rt) (rt_suite rt) (io_bytes (pk_pk k)) PRK_4x3m
           (rt_th3 rt) (io_bytes (sb_id_cred b)) (io_bytes (pk_cred k)) (io_bytes (sb_ead b))
           (cstr ''MAC_3'') (sb_sgn_or_mac b) \<or>
         rt_static_dh_i rt \<and> wrong_length_mac C Z (el_mac_buf L) (rt_suite rt) PRK_4x3m
           (rt_th3 rt) (io_bytes (sb_id_cred b)) (io_bytes (pk_cred k)) (io_bytes (sb_ead b))
           (cstr ''MAC_3'') (sb_sgn_or_mac b)))"

lemma arr_get_last: "arr_get xs (length xs - Suc 0) = Ok x \<Longrightarrow> x = last xs"
  by (cases xs rule: rev_cases) (auto simp: arr_get_def split: if_splits)

lemma msg2_process_authenticated:
  assumes "msg2_process C Z D L c s static_dh rt creds num ead = Ok x"
  shows "responder_authenticated C Z D L c s static_dh rt creds num ead"
proof -
  from assms obtain g_y c_r ct2 g_xy th2 PRK_2e b k PRK_3e2m y where steps:
    "msg2_parse D (rt_msg2 rt) (get_ecdh_pk_len (edhoc_ecdh s)) (fresh_c_x C_R_DEFAULT_SIZE)
      (full_buf CIPHERTEXT2_DEFAULT_SIZE) = Ok (g_y, c_r, ct2)"
    "crypto_shared_secret_derive C (edhoc_ecdh s) (ic_x c) g_y = Ok g_xy"
    "th2_calculate C Z (edhoc_hash s) (io_bytes (rt_msg1 rt)) g_y c_r = Ok th2"
    "crypto_hkdf_extract C (edhoc_hash s) [] g_xy = Ok PRK_2e"
    "ciphertext_decrypt_split C Z D CIPHERTEXT2 s (fresh_split ead) PRK_2e th2 (io_bytes ct2) = Ok b"
    "retrieve_cred C Z D static_dh creds num (io_bytes (sb_id_cred b)) fresh_keys = Ok k"
    "prk_derive C static_dh s PRK_2e (io_bytes (pk_g k)) (ic_x c) = Ok PRK_3e2m"
    and v: "signature_or_mac C Z (el_mac_buf L) VERIFY static_dh s [] (io_bytes (pk_pk k)) PRK_3e2m th2
      (io_bytes (sb_id_cred b)) (io_bytes (pk_cred k)) (io_bytes (sb_ead b)) (cstr ''MAC_2'')
      (sb_sgn_or_mac b) = Ok y"
    by (auto simp: msg2_process_def TRY_eq_Ok)
  have "prk_2e_derive C s (ic_x c) g_y = Ok PRK_2e" using steps by (simp add: prk_2e_derive_def)
  with steps verified_authentic [OF v] retrieved_trusted show ?thesis unfolding responder_authenticated_def by blast
qed

lemma msg3_gen_authenticated:
  assumes "msg3_gen C Z D L c rt creds num ead = Ok m3"
  shows "\<exists>s static_dh_i static_dh_r. get_suite (int (unat (last (ic_suites_i c)))) = Ok s \<and>
    authentication_type_get (ic_method c) (False, False) = Ok (static_dh_i, static_dh_r) \<and>
    responder_authenticated C Z D L c s static_dh_r rt creds num ead"
  using assms
  by (auto simp: msg3_gen_def TRY_eq_Ok dest!: msg2_process_authenticated arr_get_last)

lemma msg3_process_authenticated:
  "msg3_process C Z D L c rt creds num ead = Ok m3 \<Longrightarrow> initiator_authenticated C Z D L c rt creds num ead"
  unfolding initiator_authenticated_def
  by (auto simp: msg3_process_def TRY_eq_Ok Let_def) (blast dest: verified_authentic retrieved_trusted)

section \<open>Properties\<close>

text \<open>C30: \<open>get_local_cred\<close> takes the first stored credential with the received identifier, and
  reports \<open>credential_not_found\<close> if there is none.\<close>

theorem get_local_cred_takes_first_match:
  assumes "unat cred_num \<le> length cred_array" and "length id_cred < 2 ^ 32"
    and "\<forall>c \<in> set cred_array. mem_ok (ba_ptr (oc_id_cred c)) (unat (ba_len (oc_id_cred c)))"
  shows "get_local_cred static_dh cred_array cred_num id_cred k =
    (case filter (id_matches id_cred) (take (unat cred_num) cred_array) of
       [] \<Rightarrow> Fail credential_not_found | c # _ \<Rightarrow> copy_local_cred static_dh c k)"
  using get_local_cred_loop_eq [of 0 "unat cred_num" cred_array id_cred static_dh k] assms
  by (simp add: get_local_cred_def)

theorem get_local_cred_takes_first_match_witness:
  "get_local_cred True (toy_creds_i @ toy_creds_r) 2 [0xA1, 4, 7] fresh_keys =
     copy_local_cred True (hd toy_creds_r) fresh_keys"
proof -
  have "filter (id_matches [0xA1, 4, 7]) (take 2 (toy_creds_i @ toy_creds_r)) = toy_creds_r" by code_simp
  then show ?thesis
    using get_local_cred_takes_first_match [of 2 "toy_creds_i @ toy_creds_r" "[0xA1, 4, 7]" True fresh_keys]
    by (simp add: toy_creds_i_def toy_creds_r_def toy_cred_def mem_ok_def)
qed

text \<open>C32: \<open>ca_pk_get\<close> takes the key of the first authority whose name is what the issuer field
  begins with; an authority without a name matches every issuer.\<close>

theorem ca_pk_get_compares_prefixes:
  assumes "unat cred_num \<le> length cred_array"
    and "\<forall>c \<in> set cred_array. mem_ok (ba_ptr (oc_ca c)) (unat (ba_len (oc_ca c))) \<and>
      mem_ok issuer (unat (ba_len (oc_ca c)))"
  shows "ca_pk_get cred_array cred_num issuer =
      (case filter (ca_matches issuer) (take (unat cred_num) cred_array) of
         [] \<Rightarrow> Fail no_such_ca | c # _ \<Rightarrow> Ok (oc_ca_pk c)) \<and>
    (\<forall>c. ba_len (oc_ca c) = 0 \<longrightarrow> ca_matches issuer c)"
  using ca_pk_get_loop_eq [of 0 "unat cred_num" cred_array issuer] assms
  by (simp add: ca_pk_get_def ca_matches_def)

theorem ca_pk_get_compares_prefixes_witness:
  "ca_pk_get toy_creds_r 1 (Some [9, 9]) = Ok NULL_ARRAY"
proof -
  have "filter (ca_matches (Some [9, 9])) (take 1 toy_creds_r) = toy_creds_r" by code_simp
  then show ?thesis
    using ca_pk_get_compares_prefixes [of 1 toy_creds_r "Some [9, 9]"]
    by (simp add: toy_creds_r_def toy_cred_def NULL_ARRAY_def mem_ok_def)
qed

text \<open>C31: Without MBEDTLS, a peer that identifies itself by an X.509 certificate (x5chain or x5bag)
  is never accepted.\<close>

theorem x509_peers_are_refused:
  assumes "cbor_decode_id_cred_x_map D (Some id_cred) (length id_cred) = Some m"
    and "map_kid m = None" "map_x5u m = None" "map_x5t m = None" "map_c5u m = None" "map_c5t m = None"
    and "map_x5chain m \<noteq> None \<or> map_x5bag m \<noteq> None"
  shows "retrieve_cred C Z D static_dh creds num id_cred k \<noteq> Ok k'"
  using assms
  by (auto simp: retrieve_cred_def retrieve_cred_by_def split: option.split)

lemma toy_x5chain:
  "cbor_decode_id_cred_x_map rfc8949_dec (Some [0xA1, 0x18, 33, 0x41, 9]) 5 =
     Some \<lparr>map_kid = None, map_x5bag = None, map_x5chain = Some \<lparr>zs_value = Some [9], zs_len = 1\<rparr>,
       map_x5t = None, map_x5u = None, map_c5b = None, map_c5c = None, map_c5t = None, map_c5u = None\<rparr>"
  by code_simp

theorem x509_peers_are_refused_witness:
  "\<forall>k. retrieve_cred toy_crypto rfc8949_zcbor rfc8949_dec True toy_creds_r 1 [0xA1, 0x18, 33, 0x41, 9] fresh_keys \<noteq> Ok k"
  by (intro allI, rule x509_peers_are_refused [of _ _ "\<lparr>map_kid = None, map_x5bag = None,
       map_x5chain = Some \<lparr>zs_value = Some [9], zs_len = 1\<rparr>, map_x5t = None, map_x5u = None,
       map_c5b = None, map_c5c = None, map_c5t = None, map_c5u = None\<rparr>"])
    (use toy_x5chain in \<open>simp_all add: numeral_eq_Suc\<close>)

end
