(* ===== verification/Edhoc_Runs.thy ===== *)
theory Edhoc_Runs
  imports Edhoc_Credentials Edhoc_Example
begin

text \<open>
  Runs of the two roles: what has been sent when the peer is not verified, and which messages end
  a run.
\<close>

lemma initiator_stops:
  assumes log: "logs_messages sent tx rx"
    and run: "edhoc_initiator_run C Z D L c creds num ead_2 ead_4 tx rx w = (r, w')"
    and more: "length (sent w) + 1 < length (sent w') \<or> r = Ok x"
  obtains rt w1 msg2 w2 m3 where "msg1_gen Z c runtime_context_init = Ok rt"
    "tx (io_bytes (rt_msg1 rt)) w = (Ok (), w1)" "rx (rt_msg2 rt) w1 = (Ok msg2, w2)"
    "msg3_gen C Z D L c (rt\<lparr>rt_msg2 := msg2\<rparr>) creds num ead_2 = Ok m3"
  using run more
  by (auto simp: edhoc_initiator_run_def TRYS_def liftS_def split: prod.splits res.splits
      dest!: logs_messagesD [OF log])

lemma responder_stops:
  assumes log: "logs_messages sent tx rx"
    and run: "edhoc_responder_run C Z D L c creds num ead_1 ead_3 tx rx w = (r, w')"
    and more: "length (sent w) + 1 < length (sent w') \<or> r = Ok x"
  obtains msg1 w1 rt ead w2 msg3 w3 m3 where "rx (rt_msg1 runtime_context_init) w = (Ok msg1, w1)"
    "msg2_gen C Z D L c (runtime_context_init\<lparr>rt_msg1 := msg1\<rparr>) ead_1 = Ok (rt, ead)"
    "tx (io_bytes (rt_msg2 rt)) w1 = (Ok (), w2)" "rx (rt_msg3 rt) w2 = (Ok msg3, w3)"
    "msg3_process C Z D L c (rt\<lparr>rt_msg3 := msg3\<rparr>) creds num ead_3 = Ok m3"
  using run more
  by (auto simp: edhoc_responder_run_def TRYS_def liftS_def split: prod.splits res.splits
      dest!: logs_messagesD [OF log])

text \<open>C2: The initiator sends message 3, or reports success, only after these checks.  The bytes
  received as message 2 decrypt under the keys of the exchange to an identifier and a signature or
  MAC; the identifier selects a stored credential or brings a C509 certificate signed by a stored
  authority; and the signature, or the whole of MAC_2, is the right one under that credential for
  the transcript of the message 1 that was sent, in the suite and the method the initiator proposed.
  The one exception is a static DH key of the responder with a received MAC of another length than
  MAC_2: it is compared only as far as it goes, and then nobody has been authenticated.\<close>

theorem initiator_verifies_responder:
  assumes "logs_messages sent tx rx"
    and "edhoc_initiator_run C Z D L c creds num ead_2 ead_4 tx rx w = (r, w')"
    and "length (sent w) + 1 < length (sent w') \<or> r = Ok x"
  shows "\<exists>rt w1 msg2 w2 s static_dh_i static_dh_r. msg1_gen Z c runtime_context_init = Ok rt \<and>
    tx (io_bytes (rt_msg1 rt)) w = (Ok (), w1) \<and> rx (rt_msg2 rt) w1 = (Ok msg2, w2) \<and>
    get_suite (int (unat (last (ic_suites_i c)))) = Ok s \<and>
    authentication_type_get (ic_method c) (False, False) = Ok (static_dh_i, static_dh_r) \<and>
    responder_authenticated C Z D L c s static_dh_r (rt\<lparr>rt_msg2 := msg2\<rparr>) creds num ead_2"
  by (rule initiator_stops [OF assms]) (blast dest: msg3_gen_authenticated)

theorem initiator_verifies_responder_witness:
  "\<exists>rt w1 msg2 w2 s static_dh_i static_dh_r. msg1_gen rfc8949_zcbor toy_initiator runtime_context_init = Ok rt \<and>
    channel_tx (io_bytes (rt_msg1 rt)) ([], [toy_message_2, toy_message_4]) = (Ok (), w1) \<and>
    channel_rx (rt_msg2 rt) w1 = (Ok msg2, w2) \<and>
    get_suite (int (unat (last (ic_suites_i toy_initiator)))) = Ok s \<and>
    authentication_type_get (ic_method toy_initiator) (False, False) = Ok (static_dh_i, static_dh_r) \<and>
    responder_authenticated toy_crypto rfc8949_zcbor rfc8949_dec toy_locals toy_initiator s static_dh_r
      (rt\<lparr>rt_msg2 := msg2\<rparr>) toy_creds_r 1 (full_buf 4)"
  by (rule initiator_verifies_responder [OF channel_logs toy_initiator_runs [unfolded toy_initiator_run_def]]) simp

text \<open>C3: The responder sends message 4, or reports success, only after the same checks for the
  initiator, under the keys and the transcript hash of the message 2 that it sent: a valid signature
  or the whole of MAC_3, under a stored credential or one certified by a stored authority.  Again a
  received MAC of another length than MAC_3 passes with a static DH key if it agrees as far as it
  goes.\<close>

theorem responder_verifies_initiator:
  assumes "logs_messages sent tx rx"
    and "edhoc_responder_run C Z D L c creds num ead_1 ead_3 tx rx w = (r, w')"
    and "length (sent w) + 1 < length (sent w') \<or> r = Ok x"
  shows "\<exists>msg1 w1 rt ead w2 msg3 w3. rx (rt_msg1 runtime_context_init) w = (Ok msg1, w1) \<and>
    msg2_gen C Z D L c (runtime_context_init\<lparr>rt_msg1 := msg1\<rparr>) ead_1 = Ok (rt, ead) \<and>
    tx (io_bytes (rt_msg2 rt)) w1 = (Ok (), w2) \<and> rx (rt_msg3 rt) w2 = (Ok msg3, w3) \<and>
    initiator_authenticated C Z D L c (rt\<lparr>rt_msg3 := msg3\<rparr>) creds num ead_3"
  by (rule responder_stops [OF assms]) (blast dest: msg3_process_authenticated)

theorem responder_verifies_initiator_witness:
  "\<exists>msg1 w1 rt ead w2 msg3 w3.
    channel_rx (rt_msg1 runtime_context_init) ([], [toy_message_1, toy_message_3]) = (Ok msg1, w1) \<and>
    msg2_gen toy_crypto rfc8949_zcbor rfc8949_dec toy_locals toy_responder
      (runtime_context_init\<lparr>rt_msg1 := msg1\<rparr>) (full_buf 4) = Ok (rt, ead) \<and>
    channel_tx (io_bytes (rt_msg2 rt)) w1 = (Ok (), w2) \<and> channel_rx (rt_msg3 rt) w2 = (Ok msg3, w3) \<and>
    initiator_authenticated toy_crypto rfc8949_zcbor rfc8949_dec toy_locals toy_responder
      (rt\<lparr>rt_msg3 := msg3\<rparr>) toy_creds_i 1 (full_buf 4)"
  by (rule responder_verifies_initiator [OF channel_logs toy_responder_runs [unfolded toy_responder_run_def]]) simp

lemma msg2_gen_suite:
  "msg2_gen C Z D L c rt ead_1 = Ok (rt', ead) \<Longrightarrow> \<exists>label. get_suite label = Ok (rt_suite rt')"
  by (auto simp: msg2_gen_def TRY_eq_Ok Let_def case_prod_unfold split: if_splits option.splits) blast

text \<open>C35: With a static DH key of the initiator the exception for a MAC of another length is an
  attack on the responder: a message 3 whose MAC is empty is accepted, and the run reports
  success.  Of the initiator it takes the identifier of a stored credential only: what it must be
  encrypted under, PRK_3e2m and the transcript hash, is known to everyone who made message 1, and
  the private key of the initiator, which alone gives PRK_4x3m on the other side, is not needed.\<close>

theorem empty_mac_3_is_accepted:
  assumes "expand_fills C" and "length (el_mac_buf L) = SHA_DEFAULT_SIZE" and "\<not> rp_msg4 c"
    and "rx (rt_msg1 runtime_context_init) w = (Ok msg1, w1)"
    and "msg2_gen C Z D L c (runtime_context_init\<lparr>rt_msg1 := msg1\<rparr>) ead_1 = Ok (rt, ead)"
    and "tx (io_bytes (rt_msg2 rt)) w1 = (Ok (), w2)" and "rx (rt_msg3 rt) w2 = (Ok msg3, w3)"
    and "rt_static_dh_i rt"
    and "decode_byte_string D (Some (fst msg3)) (snd msg3) (full_buf CIPHERTEXT3_DEFAULT_SIZE) = Ok ct3"
    and "ciphertext_decrypt_split C Z D CIPHERTEXT3 (rt_suite rt) (fresh_split ead_3) (rt_PRK_3e2m rt)
      (rt_th3 rt) (io_bytes ct3) = Ok b"
    and "snd (sb_sgn_or_mac b) = 0"
    and "retrieve_cred C Z D True creds num (io_bytes (sb_id_cred b)) fresh_keys = Ok k"
    and "prk_derive C True (rt_suite rt) (rt_PRK_3e2m rt) (io_bytes (pk_g k)) (rp_y c) = Ok PRK_4x3m"
    and "mac C Z PRK_4x3m (rt_th3 rt) (io_bytes (sb_id_cred b)) (io_bytes (pk_cred k)) (io_bytes (sb_ead b))
      (cstr ''MAC_3'') True (rt_suite rt) = Ok m"
    and "th4_calculate C Z (edhoc_hash (rt_suite rt)) (rt_th3 rt) (io_bytes ct3) = Ok th4"
  shows "edhoc_responder_run C Z D L c creds num ead_1 ead_3 tx rx w =
    (Ok \<lparr>rr_ead_a = ead, rr_ead_b = sb_ead b, rr_prk_4x3m = PRK_4x3m, rr_th4 = th4\<rparr>, w3)"
proof -
  obtain label where "get_suite label = Ok (rt_suite rt)" using msg2_gen_suite [OF assms(5)] by blast
  note accepted = empty_mac_is_accepted [OF this assms(1)]
  have "signature_or_mac C Z (el_mac_buf L) VERIFY True (rt_suite rt) [] (io_bytes (pk_pk k)) PRK_4x3m (rt_th3 rt)
      (io_bytes (sb_id_cred b)) (io_bytes (pk_cred k)) (io_bytes (sb_ead b)) (cstr ''MAC_3'') (sb_sgn_or_mac b) =
    Ok (sb_sgn_or_mac b)"
    using accepted [OF assms(14,2), of "[]" "io_bytes (pk_pk k)" "fst (sb_sgn_or_mac b)"] assms(11)
    by (cases "sb_sgn_or_mac b") simp
  then show ?thesis
    using assms by (simp add: edhoc_responder_run_def msg3_process_def TRYS_def liftS_def)
qed

text \<open>The forged message: the identifier and an empty byte string, encrypted.  The run of the toy
  responder accepts it like the message 3 of the initiator.\<close>

definition toy_forged_3 :: bytes where "toy_forged_3 = [74, 5, 0x40] @ replicate 8 1"

definition toy_responder_3 :: edhoc_responder_context where
  "toy_responder_3 = toy_responder\<lparr>rp_msg4 := False\<rparr>"

text \<open>What the run computes from it.\<close>

definition toy_rt :: runtime_context where
  "toy_rt = runtime_context_init\<lparr>rt_msg1 := (toy_message_1 @ replicate 218 0, 37),
     rt_suite := \<lparr>suite_label = 0, edhoc_aead = 10, edhoc_hash = - 16, edhoc_mac_len_static_dh = 8,
       edhoc_ecdh = 4, edhoc_sign = - 8, app_aead = 10, app_hash = - 16\<rparr>,
     rt_static_dh_i := True, rt_PRK_3e2m := replicate 32 14, rt_msg2 := (toy_message_2 @ replicate 655 0, 45),
     rt_th3 := replicate 32 5\<rparr>"

definition toy_b :: split_bufs where
  "toy_b = (fresh_split (full_buf 4))\<lparr>sb_id_cred := ([0xA1, 4, 5] @ replicate 597 0, 3),
     sb_sgn_or_mac := (replicate SGN_OR_MAC_DEFAULT_SIZE 0, 0), sb_ead := (replicate 4 0, 0)\<rparr>"

definition toy_k :: peer_keys where
  "toy_k = \<lparr>pk_cred = ([0x43, 1, 2, 3] @ replicate 596 0, 4), pk_pk = (replicate PK_DEFAULT_SIZE 0, 0),
     pk_g = (replicate 32 12 @ replicate (G_R_DEFAULT_SIZE - 32) 0, 32)\<rparr>"

lemma toy_forgery:
  "msg2_gen toy_crypto rfc8949_zcbor rfc8949_dec toy_locals toy_responder_3
     (runtime_context_init\<lparr>rt_msg1 := (toy_message_1 @ replicate 218 0, 37)\<rparr>) (full_buf 4) = Ok (toy_rt, full_buf 4)"
  "rt_static_dh_i toy_rt" "io_bytes (rt_msg2 toy_rt) = toy_message_2"
  "rt_msg3 toy_rt = rt_msg3 runtime_context_init"
  "ciphertext_decrypt_split toy_crypto rfc8949_zcbor rfc8949_dec CIPHERTEXT3 (rt_suite toy_rt)
     (fresh_split (full_buf 4)) (rt_PRK_3e2m toy_rt) (rt_th3 toy_rt) (drop 1 toy_forged_3) = Ok toy_b"
  "snd (sb_sgn_or_mac toy_b) = 0"
  "retrieve_cred toy_crypto rfc8949_zcbor rfc8949_dec True toy_creds_i 1 (io_bytes (sb_id_cred toy_b)) fresh_keys =
     Ok toy_k"
  "prk_derive toy_crypto True (rt_suite toy_rt) (rt_PRK_3e2m toy_rt) (io_bytes (pk_g toy_k)) (rp_y toy_responder_3) =
     Ok (replicate 32 14)"
  "mac toy_crypto rfc8949_zcbor (replicate 32 14) (rt_th3 toy_rt) (io_bytes (sb_id_cred toy_b))
     (io_bytes (pk_cred toy_k)) (io_bytes (sb_ead toy_b)) (cstr ''MAC_3'') True (rt_suite toy_rt) = Ok (replicate 8 3)"
  "th4_calculate toy_crypto rfc8949_zcbor (edhoc_hash (rt_suite toy_rt)) (rt_th3 toy_rt) (drop 1 toy_forged_3) =
     Ok (replicate 32 5)"
  "decode_byte_string rfc8949_dec (Some (toy_forged_3 @ replicate 689 0)) 11 (full_buf CIPHERTEXT3_DEFAULT_SIZE) =
     Ok (drop 1 toy_forged_3 @ replicate (CIPHERTEXT3_DEFAULT_SIZE - 10) 0, 10)"
  by code_simp+

theorem empty_mac_3_is_accepted_witness:
  "edhoc_responder_run toy_crypto rfc8949_zcbor rfc8949_dec toy_locals toy_responder_3 toy_creds_i 1
     (full_buf 4) (full_buf 4) channel_tx channel_rx ([], [toy_message_1, toy_forged_3]) =
   (Ok \<lparr>rr_ead_a = full_buf 4, rr_ead_b = (replicate 4 0, 0), rr_prk_4x3m = replicate 32 14,
        rr_th4 = replicate 32 5\<rparr>, ([toy_message_2], []))"
proof -
  have rx1: "channel_rx (rt_msg1 runtime_context_init) ([], [toy_message_1, toy_forged_3]) =
      (Ok (toy_message_1 @ replicate 218 0, 37), ([], [toy_forged_3]))"
    by (simp add: channel_rx_def toy_message_1_def runtime_context_init_def full_buf_def)
  have tx: "channel_tx (io_bytes (rt_msg2 toy_rt)) ([], [toy_forged_3]) = (Ok (), ([toy_message_2], [toy_forged_3]))"
    by (simp add: channel_tx_def toy_forgery(3))
  have rx3: "channel_rx (rt_msg3 toy_rt) ([toy_message_2], [toy_forged_3]) =
      (Ok (toy_forged_3 @ replicate 689 0, 11), ([toy_message_2], []))"
    by (simp add: channel_rx_def toy_forged_3_def runtime_context_init_def full_buf_def toy_forgery(4))
  have laws: "expand_fills toy_crypto" "length (el_mac_buf toy_locals) = SHA_DEFAULT_SIZE"
    "\<not> rp_msg4 toy_responder_3"
    by (auto simp: expand_fills_def toy_crypto_def toy_locals_def toy_responder_3_def)
  have ct: "io_bytes (drop 1 toy_forged_3 @ replicate (CIPHERTEXT3_DEFAULT_SIZE - 10) 0, 10) = drop 1 toy_forged_3"
    by (simp add: io_bytes_def toy_forged_3_def)
  have "edhoc_responder_run toy_crypto rfc8949_zcbor rfc8949_dec toy_locals toy_responder_3 toy_creds_i 1
      (full_buf 4) (full_buf 4) channel_tx channel_rx ([], [toy_message_1, toy_forged_3]) =
    (Ok \<lparr>rr_ead_a = full_buf 4, rr_ead_b = sb_ead toy_b, rr_prk_4x3m = replicate 32 14,
        rr_th4 = replicate 32 5\<rparr>, ([toy_message_2], []))"
    by (rule empty_mac_3_is_accepted [where rx = channel_rx and tx = channel_tx,
          OF laws rx1 toy_forgery(1) tx rx3 toy_forgery(2)])
      (simp_all only: fst_conv snd_conv toy_forgery(11), simp_all only: ct, (rule toy_forgery)+)
  then show ?thesis by (simp add: toy_b_def)
qed

text \<open>C33: A responder that does not support the selected suite, with a list of fewer than 256 suites,
  sends nothing: the run ends with \<open>error_message_sent\<close>, although no error message was sent.\<close>

theorem unsupported_suite_sends_nothing:
  assumes "logs_messages sent tx rx"
    and "rx (rt_msg1 runtime_context_init) w = (Ok msg1, w1)"
    and "msg1_parse D msg1 (replicate 5 0) (full_buf G_X_DEFAULT_SIZE) (fresh_c_x C_I_DEFAULT_SIZE) ead_1 = Ok f"
    and "mf_suites_i f = (suites, n)" and "0 < n" and "n \<le> length suites"
    and "suites ! (n - 1) \<notin> set (rp_suites_r c)" and "length (rp_suites_r c) < 256"
  shows "edhoc_responder_run C Z D L c creds num ead_1 ead_3 tx rx w = (Fail error_message_sent, w1) \<and>
    sent w1 = sent w"
proof -
  have "set (take 256 (rp_suites_r c)) \<subseteq> set (rp_suites_r c)" by (rule set_take_subset)
  with assms(7,8) have "selected_suite_is_supported (suites ! (n - 1)) (rp_suites_r c) = Some False"
    using selected_suite_is_supported_eq [of "suites ! (n - 1)" "rp_suites_r c"] by auto
  with assms(3-6) have "msg2_gen C Z D L c (runtime_context_init\<lparr>rt_msg1 := msg1\<rparr>) ead_1 = Fail error_message_sent"
    by (simp add: msg2_gen_def)
  with assms(2) show ?thesis
    using logs_messagesD(2) [OF assms(1,2)] by (simp add: edhoc_responder_run_def TRYS_def liftS_def)
qed

definition toy_responder_2 :: edhoc_responder_context where
  "toy_responder_2 = toy_responder\<lparr>rp_suites_r := [2]\<rparr>"

lemma toy_message_1_parse:
  "msg1_parse rfc8949_dec (toy_message_1 @ replicate 218 0, 37) (replicate 5 0) (full_buf G_X_DEFAULT_SIZE)
     (fresh_c_x C_I_DEFAULT_SIZE) (full_buf 4) =
   Ok \<lparr>mf_method = 3, mf_suites_i = (replicate 5 0, 1), mf_g_x = (replicate 32 10 @ [0], 32),
       mf_c_i = fresh_c_x C_I_DEFAULT_SIZE\<lparr>cx_mem := c_x_int 12\<rparr>, mf_ead_1 = full_buf 4\<rparr>"
  by code_simp

theorem unsupported_suite_sends_nothing_witness:
  "edhoc_responder_run toy_crypto rfc8949_zcbor rfc8949_dec toy_locals toy_responder_2 toy_creds_i 1
     (full_buf 4) (full_buf 4) channel_tx channel_rx ([], [toy_message_1]) = (Fail error_message_sent, ([], []))"
proof -
  have rx: "channel_rx (rt_msg1 runtime_context_init) ([], [toy_message_1]) =
      (Ok (toy_message_1 @ replicate 218 0, 37), ([], []))"
    by (simp add: channel_rx_def toy_message_1_def runtime_context_init_def full_buf_def)
  show ?thesis
    using unsupported_suite_sends_nothing [OF channel_logs rx toy_message_1_parse, of "replicate 5 0" 1 toy_responder_2]
    by (simp add: toy_responder_2_def)
qed

end
