(* ===== verification/Edhoc_Agreement.thy ===== *)
theory Edhoc_Agreement
  imports Edhoc_Messages Edhoc_Runs
begin

text \<open>
  Two honest endpoints whose messages are delivered unchanged end with the same keys.
\<close>

section \<open>What the steps write\<close>

lemma put_msg_Ok:
  assumes "put_msg io b = Ok m" and "length (fst io) < 2 ^ 32"
  shows "io_ok m" "io_bytes m = b" "length b < 2 ^ 32"
proof -
  have fits: "length b \<le> length (fst io)" using assms(1) by (auto simp: put_msg_def write_mem_def split: if_splits)
  with assms(2) show n: "length b < 2 ^ 32" by simp
  from assms(1) fits have m: "m = (b @ drop (length b) (fst io), of_nat (length b))"
    by (simp add: put_msg_def write_mem_def)
  show "io_bytes m = b" using n by (simp add: m io_bytes_prefix)
  show "io_ok m" using n by (simp add: m io_ok_def)
qed

lemma unat_u32_less: "unat (n :: u32) < 2 ^ 32"
  using unsigned_less [of n] by simp

lemma c_x_choice_small: "c_x_choice c = Ok ch \<Longrightarrow> int_or_bstr_small ch"
  using unat_u32_less
  by (auto simp: c_x_choice_def int_or_bstr_small_def TRY_eq_Ok dest!: read_mem_Ok_length
      split: c_x_type.splits c_x_mem.splits)

definition ead_option :: "bytes \<Rightarrow> bytes option" where
  "ead_option e = (if length e \<noteq> 0 then Some e else None)"

lemma msg1_gen_Ok:
  assumes Z: "zcbor_canonical Z" "zcbor_present_laws Z" and gen: "msg1_gen Z c runtime_context_init = Ok rt"
    and one: "ic_suites_i c = [label]" and "length (ic_g_x c) < 2 ^ 32" "length (ic_ead_1 c) < 2 ^ 32"
  obtains c_i where "c_x_choice (ic_c_i c) = Ok c_i" "rt = runtime_context_init\<lparr>rt_msg1 := rt_msg1 rt\<rparr>"
    "io_ok (rt_msg1 rt)"
    "io_bytes (rt_msg1 rt) = message_1_cbor (of_int (ic_method c)) (ucast label) (ic_g_x c) c_i (ead_option (ic_ead_1 c))"
proof -
  from gen one obtain c_i b m where c_i: "c_x_choice (ic_c_i c) = Ok c_i"
    and b: "cbor_encode_message_1 Z (unat (snd (rt_msg1 runtime_context_init)))
       \<lparr>message_1_METHOD = of_int (ic_method c), message_1_SUITES_I = SUITES_I_int (ucast label),
        message_1_G_X = ic_g_x c, message_1_C_I = c_i, message_1_ead_1 = ead_option (ic_ead_1 c)\<rparr> = Some b"
    and m: "put_msg (rt_msg1 runtime_context_init) b = Ok m" and rt: "rt = runtime_context_init\<lparr>rt_msg1 := m\<rparr>"
    by (auto simp: msg1_gen_def msg1_suites_def TRY_eq_Ok TRY_EXPECT_eq_Ok ead_option_def)
  have "option_small (ead_option (ic_ead_1 c))" using assms(6) by (simp add: option_small_def ead_option_def)
  from cbor_encode_message_1_eq [OF Z assms(5) c_x_choice_small [OF c_i] this] b
  have "b = message_1_cbor (of_int (ic_method c)) (ucast label) (ic_g_x c) c_i (ead_option (ic_ead_1 c))"
    by (auto split: if_splits)
  moreover have "length (fst (rt_msg1 runtime_context_init)) < 2 ^ 32"
    by (simp add: runtime_context_init_def full_buf_def)
  ultimately show thesis using that [OF c_i] put_msg_Ok [OF m] by (simp add: rt)
qed

lemma msg2_encode_Ok:
  assumes Z: "zcbor_canonical Z" and "msg2_encode Z g_y c_r ct2 n = Ok enc"
  obtains c where "c_x_choice c_r = Ok c" "enc = m2_cbor (g_y @ ct2) c"
    "length g_y + length ct2 \<le> G_Y_DEFAULT_SIZE + CIPHERTEXT2_DEFAULT_SIZE"
proof -
  let ?n = "of_nat (length g_y) + of_nat (length ct2) :: u32"
  let ?buf = "replicate (G_Y_DEFAULT_SIZE + CIPHERTEXT2_DEFAULT_SIZE) 0 :: bytes"
  from assms(2) obtain b1 b2 c where b1: "write_mem ?buf 0 g_y = Ok b1"
    and b2: "write_mem b1 (int (length g_y)) ct2 = Ok b2" and c: "c_x_choice c_r = Ok c"
    and enc: "cbor_encode_m2 Z (unat n) \<lparr>m2_G_Y_CIPHERTEXT_2 = take (unat ?n) b2, m2_C_R = c\<rparr> = Some enc"
    by (auto simp: msg2_encode_def TRY_eq_Ok TRY_EXPECT_eq_Ok Let_def)
  from b1 have l1: "length g_y \<le> length ?buf" and b1': "b1 = g_y @ drop (length g_y) ?buf"
    by (auto simp: write_mem_def split: if_splits)
  from b2 have l2: "length g_y + length ct2 \<le> length ?buf"
    and b2': "b2 = g_y @ ct2 @ drop (length g_y + length ct2) ?buf"
    using l1 by (auto simp: write_mem_def b1' split: if_splits)
  have "?n = of_nat (length g_y + length ct2)" by simp
  then have n: "unat ?n = length g_y + length ct2" using l2 unat_of_nat_u32 [of "length g_y + length ct2"]
    by (simp del: of_nat_add)
  have "take (unat ?n) b2 = g_y @ ct2" unfolding b2' n by simp
  with enc have "cbor_encode_m2 Z (unat n) \<lparr>m2_G_Y_CIPHERTEXT_2 = g_y @ ct2, m2_C_R = c\<rparr> = Some enc" by simp
  moreover have "length (g_y @ ct2) < 2 ^ 32" using l2 by simp
  ultimately have "enc = m2_cbor (g_y @ ct2) c"
    using cbor_encode_m2_eq [OF Z _ c_x_choice_small [OF c]] by (auto split: if_splits)
  with c l2 show thesis by (intro that) simp_all
qed

lemma ucast_u8_i32 [simp]: "(ucast (ucast (b :: u8) :: i32) :: u8) = b"
  by (rule bit_word_eqI) (simp add: bit_simps)

lemma msg2_gen_Ok:
  assumes Z: "zcbor_canonical Z" and D: "zcbor_reader D R"
    and gen: "msg2_gen C Z D L c (runtime_context_init\<lparr>rt_msg1 := m1\<rparr>) ad = Ok (rt, ad')"
    and m1: "io_ok m1" "io_bytes m1 = message_1_cbor method (ucast (label :: u8)) g_x c_i ead_1"
    and small: "int_or_bstr_small c_i" "option_small ead_1" "length g_x < 2 ^ 32" and ad: "io_ok ad"
  obtains s dh_r th2 PRK_2e ct2 c_r where "get_suite (int (unat label)) = Ok s"
    "authentication_type_get (sint method) (False, el_static_dh_r L) = Ok (rt_static_dh_i rt, dh_r)"
    "th2_calculate C Z (edhoc_hash s) (io_bytes m1) (rp_g_y c) (rp_c_r c) = Ok th2"
    "prk_2e_derive C s (rp_y c) g_x = Ok PRK_2e"
    "prk_derive C dh_r s PRK_2e g_x (rp_r c) = Ok (rt_PRK_3e2m rt)" "c_x_choice (rp_c_r c) = Ok c_r"
    "io_ok (rt_msg2 rt)" "io_bytes (rt_msg2 rt) = m2_cbor (rp_g_y c @ ct2) c_r"
    "length (rp_g_y c) + length ct2 \<le> G_Y_DEFAULT_SIZE + CIPHERTEXT2_DEFAULT_SIZE"
    "th3_calculate C Z (edhoc_hash s) th2 ct2 = Ok (rt_th3 rt)" "rt_suite rt = s"
    "rt_msg3 rt = rt_msg3 runtime_context_init" "rt_msg4 rt = rt_msg4 runtime_context_init"
proof -
  note parse = msg1_parse_eq [OF D m1 small ad, simplified]
  from gen have fits: "length g_x \<le> G_X_DEFAULT_SIZE"
    by (auto simp: msg2_gen_def parse split: if_splits)
  have g_x: "io_bytes (g_x @ replicate (G_X_DEFAULT_SIZE - length g_x) 0, of_nat (length g_x)) = g_x"
    by (rule io_bytes_prefix [OF small(3)])
  from gen fits obtain s dh_i dh_r th2 PRK_2e prk3 sm2 ct2 enc msg2 th3 where
    steps: "get_suite (int (unat label)) = Ok s"
      "authentication_type_get (sint method) (False, el_static_dh_r L) = Ok (dh_i, dh_r)"
      "th2_calculate C Z (edhoc_hash s) (io_bytes m1) (rp_g_y c) (rp_c_r c) = Ok th2"
      "prk_2e_derive C s (rp_y c) g_x = Ok PRK_2e" "prk_derive C dh_r s PRK_2e g_x (rp_r c) = Ok prk3"
    and enc: "msg2_encode Z (rp_g_y c) (rp_c_r c) ct2 (snd (rt_msg2 runtime_context_init)) = Ok enc"
    and put: "put_msg (rt_msg2 runtime_context_init) enc = Ok msg2"
    and th3: "th3_calculate C Z (edhoc_hash s) th2 ct2 = Ok th3"
    and rt: "rt = runtime_context_init\<lparr>rt_msg1 := m1, rt_suite := s, rt_static_dh_i := dh_i,
      rt_PRK_3e2m := prk3, rt_msg2 := msg2, rt_th3 := th3\<rparr>"
    by (auto simp: msg2_gen_def parse TRY_eq_Ok Let_def g_x [simplified] runtime_context_init_def
        split: option.splits if_splits)
  from msg2_encode_Ok [OF Z enc] obtain c_r where c_r: "c_x_choice (rp_c_r c) = Ok c_r"
    "enc = m2_cbor (rp_g_y c @ ct2) c_r"
    "length (rp_g_y c) + length ct2 \<le> G_Y_DEFAULT_SIZE + CIPHERTEXT2_DEFAULT_SIZE" by blast
  have "length (fst (rt_msg2 runtime_context_init)) < 2 ^ 32"
    by (simp add: runtime_context_init_def full_buf_def)
  from put_msg_Ok [OF put this] c_r show thesis
    by (intro that [OF steps(1) _ steps(3,4) _ c_r(1)]) (use steps th3 in \<open>simp_all add: rt\<close>)
qed

section \<open>What the peer derives\<close>

lemma th2_calculate_cong:
  "c_x_choice a = c_x_choice b \<Longrightarrow> th2_calculate C Z alg m g_y a = th2_calculate C Z alg m g_y b"
  by (simp add: th2_calculate_def th2_input_encode_def)

lemma ecdh_pk_len_small: "unat (get_ecdh_pk_len alg) \<le> G_Y_DEFAULT_SIZE"
  by (simp add: get_ecdh_pk_len_def)

lemma msg2_process_Ok:
  assumes D: "zcbor_reader D R"
    and proc: "msg2_process C Z D L c s dh_r rt creds num ead = Ok (th2, PRK_3e2m, g_y', ct2', ead')"
    and m2: "io_ok (rt_msg2 rt)" "io_bytes (rt_msg2 rt) = m2_cbor (g_y @ ct2) (c_r :: bytes int_or_bstr)"
    and small: "int_or_bstr_small c_r" and g_y: "length g_y = unat (get_ecdh_pk_len (edhoc_ecdh s))"
    and ct: "length ct2 < 2 ^ 31" and c_R: "c_x_choice c_R = Ok c_r"
  obtains PRK_2e id k where "g_y' = g_y" "ct2' = ct2" "prk_2e_derive C s (ic_x c) g_y = Ok PRK_2e"
    "th2_calculate C Z (edhoc_hash s) (io_bytes (rt_msg1 rt)) g_y c_R = Ok th2"
    "retrieve_cred C Z D dh_r creds num id fresh_keys = Ok k"
    "prk_derive C dh_r s PRK_2e (io_bytes (pk_g k)) (ic_x c) = Ok PRK_3e2m"
proof -
  note parse = msg2_parse_eq [OF D m2 small g_y ecdh_pk_len_small ct, of C_R_DEFAULT_SIZE]
  note parse1 = parse [simplified]
  from proc obtain c_r' where fits: "length ct2 \<le> CIPHERTEXT2_DEFAULT_SIZE"
    and c_r': "c_x_received c_r C_R_DEFAULT_SIZE = Ok c_r'"
    by (auto simp: msg2_process_def parse1 TRY_eq_Ok split: if_splits)
  have io: "io_bytes (ct2 @ replicate (CIPHERTEXT2_DEFAULT_SIZE - length ct2) 0, of_nat (length ct2)) = ct2"
    using ct by (intro io_bytes_prefix) simp
  have th2_eq: "th2_calculate C Z alg m g_y c_r' = th2_calculate C Z alg m g_y c_R" for alg m
    by (rule th2_calculate_cong) (simp add: c_x_received_choice [OF small c_r'] c_R)
  from proc fits c_r' have "g_y' = g_y \<and> ct2' = ct2 \<and> (\<exists>PRK_2e id k. prk_2e_derive C s (ic_x c) g_y = Ok PRK_2e \<and>
    th2_calculate C Z (edhoc_hash s) (io_bytes (rt_msg1 rt)) g_y c_R = Ok th2 \<and>
    retrieve_cred C Z D dh_r creds num id fresh_keys = Ok k \<and>
    prk_derive C dh_r s PRK_2e (io_bytes (pk_g k)) (ic_x c) = Ok PRK_3e2m)"
    unfolding msg2_process_def parse
    by (auto simp: TRY_eq_Ok io [simplified] th2_eq prk_2e_derive_def)
  then show thesis using that by blast
qed

lemma xor_arrays_length: "xor_arrays a b n out = Ok out' \<Longrightarrow> length out' = length out"
proof -
  have "xor_arrays_loop k i a b out = Ok out' \<Longrightarrow> length out' = length out" for k i
    by (induction k i a b out rule: xor_arrays_loop.induct) (auto simp: TRY_eq_Ok arr_set_def split: if_splits)
  then show "xor_arrays a b n out = Ok out' \<Longrightarrow> length out' = length out" by (simp add: xor_arrays_def)
qed

lemma ciphertext_gen_length:
  assumes "ciphertext_gen C Z D ctxt s id_cred sm ead prk th buf = Ok ct"
  shows "length ct \<le> length buf"
proof -
  from assms obtain inb key kl iv aad pl tl out n where
    "ciphertext_encrypt_decrypt C ctxt ENCRYPT inb key kl iv aad buf pl tl = Ok out" "ct = take n out"
    by (auto simp: ciphertext_gen_def TRY_eq_Ok Let_def)
  then show ?thesis
    by (auto simp: ciphertext_encrypt_decrypt_def TRY_eq_Ok min_def split: if_splits
        dest!: xor_arrays_length write_mem_length)
qed

lemma msg3_gen_Ok:
  assumes Z: "zcbor_canonical Z" and gen: "msg3_gen C Z D L c rt creds num ead = Ok m3"
    and one: "ic_suites_i c = [label]" and rt3: "rt_msg3 rt = rt_msg3 runtime_context_init"
  obtains s dh_i dh_r th2 PRK_3e2m g_y ct2 ead' th3 ct3 where "get_suite (int (unat label)) = Ok s"
    "authentication_type_get (ic_method c) (False, False) = Ok (dh_i, dh_r)"
    "msg2_process C Z D L c s dh_r rt creds num ead = Ok (th2, PRK_3e2m, g_y, ct2, ead')"
    "th3_calculate C Z (edhoc_hash s) th2 ct2 = Ok th3"
    "prk_derive C dh_i s PRK_3e2m g_y (ic_i c) = Ok (m3_prk_4x3m m3)"
    "io_ok (rt_msg3 (m3_rt m3))" "io_bytes (rt_msg3 (m3_rt m3)) = cbor_bstr ct3"
    "length ct3 \<le> CIPHERTEXT3_DEFAULT_SIZE"
    "th4_calculate C Z (edhoc_hash s) th3 ct3 = Ok (m3_th4 m3)" "rt_suite (m3_rt m3) = s"
    "rt_msg4 (m3_rt m3) = rt_msg4 rt"
proof -
  from gen one obtain s dh_i dh_r th2 PRK_3e2m g_y ct2 ead' th3 prk4 sm3 ct3 enc msg3 th4 where
    steps: "get_suite (int (unat label)) = Ok s"
      "authentication_type_get (ic_method c) (False, False) = Ok (dh_i, dh_r)"
      "msg2_process C Z D L c s dh_r rt creds num ead = Ok (th2, PRK_3e2m, g_y, ct2, ead')"
      "th3_calculate C Z (edhoc_hash s) th2 ct2 = Ok th3" "prk_derive C dh_i s PRK_3e2m g_y (ic_i c) = Ok prk4"
    and ct3: "ciphertext_gen C Z D CIPHERTEXT3 s (ic_id_cred_i c) (io_bytes sm3) (ic_ead_3 c) PRK_3e2m th3
            (replicate CIPHERTEXT3_DEFAULT_SIZE 0) = Ok ct3"
    and enc: "encode_byte_string Z ct3 (snd (rt_msg3 rt)) = Ok enc" and put: "put_msg (rt_msg3 rt) enc = Ok msg3"
    and th4: "th4_calculate C Z (edhoc_hash s) th3 ct3 = Ok th4"
    and m3: "m3 = \<lparr>m3_rt = rt\<lparr>rt_suite := s, rt_msg3 := msg3\<rparr>, m3_ead = ead', m3_prk_4x3m = prk4, m3_th4 = th4\<rparr>"
    by (auto simp: msg3_gen_def TRY_eq_Ok)
  have len: "length ct3 \<le> CIPHERTEXT3_DEFAULT_SIZE" using ciphertext_gen_length [OF ct3] by simp
  then have enc: "enc = cbor_bstr ct3"
    using encode_byte_string_eq [OF Z, of ct3] enc by (simp split: if_splits)
  have "length (fst (rt_msg3 rt)) < 2 ^ 32" by (simp add: rt3 runtime_context_init_def full_buf_def)
  from put_msg_Ok [OF put this] len th4 steps show thesis
    by (intro that [OF steps(1,2,3,4), of ct3]) (simp_all add: m3 enc)
qed

lemma msg3_process_Ok:
  assumes D: "zcbor_reader D R" and proc: "msg3_process C Z D L c rt creds num ead = Ok m3"
    and m3: "io_ok (rt_msg3 rt)" "io_bytes (rt_msg3 rt) = cbor_bstr ct3" and "length ct3 \<le> CIPHERTEXT3_DEFAULT_SIZE"
  obtains id k where "retrieve_cred C Z D (rt_static_dh_i rt) creds num id fresh_keys = Ok k"
    "prk_derive C (rt_static_dh_i rt) (rt_suite rt) (rt_PRK_3e2m rt) (io_bytes (pk_g k)) (rp_y c) =
       Ok (m3_prk_4x3m m3)"
    "th4_calculate C Z (edhoc_hash (rt_suite rt)) (rt_th3 rt) ct3 = Ok (m3_th4 m3)"
proof -
  obtain rest where rest: "fst (rt_msg3 rt) = cbor_bstr ct3 @ rest" "unat (snd (rt_msg3 rt)) = length (cbor_bstr ct3)"
    using io_split [OF m3(1)] m3(2) by metis
  have small: "length ct3 < 2 ^ 32" using assms(5) by simp
  have "decode_byte_string D (Some (fst (rt_msg3 rt))) (snd (rt_msg3 rt)) (full_buf CIPHERTEXT3_DEFAULT_SIZE) =
      Ok (ct3 @ replicate (CIPHERTEXT3_DEFAULT_SIZE - length ct3) 0, of_nat (length ct3))"
    using decode_byte_string_eq [OF D small rest(2), of "of_nat CIPHERTEXT3_DEFAULT_SIZE"
        "replicate CIPHERTEXT3_DEFAULT_SIZE 0" rest] assms(5)
    by (simp add: rest full_buf_def)
  moreover have "io_bytes (ct3 @ replicate (CIPHERTEXT3_DEFAULT_SIZE - length ct3) 0, of_nat (length ct3)) = ct3"
    by (rule io_bytes_prefix [OF small])
  ultimately show thesis
    using proc that by (auto simp: msg3_process_def TRY_eq_Ok Let_def)
qed

section \<open>Matching endpoints\<close>

text \<open>Two key pairs with the same Diffie-Hellman secret from either side; a store whose static DH
  keys are all \<open>g\<close>.\<close>

definition shares :: "crypto \<Rightarrow> suite \<Rightarrow> bytes \<Rightarrow> bytes \<Rightarrow> bytes \<Rightarrow> bytes \<Rightarrow> bool" where
  "shares C s a g_a b g_b \<longleftrightarrow>
     crypto_shared_secret_derive C (edhoc_ecdh s) a g_b = crypto_shared_secret_derive C (edhoc_ecdh s) b g_a"

definition knows ::
    "crypto \<Rightarrow> 'z zcbor \<Rightarrow> 'd zcbor_dec \<Rightarrow> other_party_cred list \<Rightarrow> u16 \<Rightarrow> bytes \<Rightarrow> bool" where
  "knows C Z D creds num g \<longleftrightarrow>
     (\<forall>id k. retrieve_cred C Z D True creds num id fresh_keys = Ok k \<longrightarrow> io_bytes (pk_g k) = g)"

text \<open>The initiator proposes one suite and a known method; the ephemeral keys fit the suite and
  share a secret; where a method authenticates with a static DH key, it shares a secret with the
  ephemeral key of the other side, which knows it.\<close>

definition matching ::
    "crypto \<Rightarrow> 'z zcbor \<Rightarrow> 'd zcbor_dec \<Rightarrow> suite \<Rightarrow> edhoc_initiator_context \<Rightarrow> other_party_cred list \<Rightarrow>
     u16 \<Rightarrow> edhoc_responder_context \<Rightarrow> other_party_cred list \<Rightarrow> u16 \<Rightarrow> bool" where
  "matching C Z D s ci creds_r num_r cr creds_i num_i \<longleftrightarrow>
     (\<exists>label. ic_suites_i ci = [label] \<and> get_suite (int (unat label)) = Ok s) \<and>
     length (rp_g_y cr) = unat (get_ecdh_pk_len (edhoc_ecdh s)) \<and>
     shares C s (ic_x ci) (ic_g_x ci) (rp_y cr) (rp_g_y cr) \<and>
     (ic_method ci \<in> {1, 3} \<longrightarrow>
        shares C s (ic_x ci) (ic_g_x ci) (rp_r cr) (rp_g_r cr) \<and> knows C Z D creds_r num_r (rp_g_r cr)) \<and>
     (ic_method ci \<in> {2, 3} \<longrightarrow>
        shares C s (ic_i ci) (ic_g_i ci) (rp_y cr) (rp_g_y cr) \<and> knows C Z D creds_i num_i (ic_g_i ci)) \<and>
     ic_method ci \<in> {0, 1, 2, 3} \<and> length (ic_g_x ci) < 2 ^ 32 \<and> length (ic_ead_1 ci) < 2 ^ 32"

lemma method_i32: "m \<in> {0, 1, 2, 3} \<Longrightarrow> sint (of_int m :: i32) = m"
  by auto

lemma authentication_types:
  "m \<in> {0, 1, 2, 3} \<Longrightarrow> authentication_type_get m old = Ok (m \<in> {2, 3}, m \<in> {1, 3})"
  by (auto simp: authentication_type_get_def)

lemma prk_derive_cong:
  assumes "dh \<longrightarrow> shares C s a g_a b g_b"
  shows "prk_derive C dh s prk g_b a = prk_derive C dh s prk g_a b"
  using assms by (simp add: prk_derive_def shares_def)

text \<open>Up to message 2.\<close>

lemma message_2_agrees:
  assumes Z: "zcbor_canonical Z" "zcbor_present_laws Z" and D: "zcbor_reader D R"
    and match: "matching C Z D s ci creds_r num_r cr creds_i num_i"
    and msg1: "msg1_gen Z ci runtime_context_init = Ok rt1"
    and m1: "io_ok m1" "io_bytes m1 = io_bytes (rt_msg1 rt1)"
    and msg2: "msg2_gen C Z D L cr (runtime_context_init\<lparr>rt_msg1 := m1\<rparr>) ad = Ok (rt2, ad')" and ad: "io_ok ad"
    and m2: "io_ok m2" "io_bytes m2 = io_bytes (rt_msg2 rt2)"
    and p2: "msg2_process C Z D Li ci s (ic_method ci \<in> {1, 3}) (rt1\<lparr>rt_msg2 := m2\<rparr>) creds_r num_r e2 =
      Ok (th2', PRK_3e2m, g_y', ct2', ead')"
  shows "g_y' = rp_g_y cr" "PRK_3e2m = rt_PRK_3e2m rt2"
    "th3_calculate C Z (edhoc_hash s) th2' ct2' = Ok (rt_th3 rt2)" "rt_suite rt2 = s"
    "rt_static_dh_i rt2 = (ic_method ci \<in> {2, 3})"
proof -
  note m = match [unfolded matching_def]
  from m obtain label where one: "ic_suites_i ci = [label]" and s: "get_suite (int (unat label)) = Ok s" by blast
  from m have known_method: "ic_method ci \<in> {0, 1, 2, 3}" and small: "length (ic_g_x ci) < 2 ^ 32" "length (ic_ead_1 ci) < 2 ^ 32"
    by blast+
  obtain c_i where c_i: "c_x_choice (ic_c_i ci) = Ok c_i"
    and b1: "io_bytes (rt_msg1 rt1) =
      message_1_cbor (of_int (ic_method ci)) (ucast label) (ic_g_x ci) c_i (ead_option (ic_ead_1 ci))"
    by (rule msg1_gen_Ok [OF Z msg1 one small])
  have ead: "option_small (ead_option (ic_ead_1 ci))" using small by (simp add: option_small_def ead_option_def)
  obtain th2 PRK_2e ct2 c_r where dh_i: "rt_static_dh_i rt2 = (ic_method ci \<in> {2, 3})"
    and th2: "th2_calculate C Z (edhoc_hash s) (io_bytes m1) (rp_g_y cr) (rp_c_r cr) = Ok th2"
    and prk2: "prk_2e_derive C s (rp_y cr) (ic_g_x ci) = Ok PRK_2e"
    and prk3: "prk_derive C (ic_method ci \<in> {1, 3}) s PRK_2e (ic_g_x ci) (rp_r cr) = Ok (rt_PRK_3e2m rt2)"
    and c_r: "c_x_choice (rp_c_r cr) = Ok c_r"
    and b2: "io_bytes (rt_msg2 rt2) = m2_cbor (rp_g_y cr @ ct2) c_r"
    and l2: "length (rp_g_y cr) + length ct2 \<le> G_Y_DEFAULT_SIZE + CIPHERTEXT2_DEFAULT_SIZE"
    and th3: "th3_calculate C Z (edhoc_hash s) th2 ct2 = Ok (rt_th3 rt2)" and suite: "rt_suite rt2 = s"
    by (rule msg2_gen_Ok [OF Z(1) D msg2 m1(1) m1(2) [unfolded b1] c_x_choice_small [OF c_i] ead small(1) ad])
      (use s in \<open>simp add: method_i32 [OF known_method] authentication_types [OF known_method]\<close>)
  have ct2: "length ct2 < 2 ^ 31" using l2 by simp
  have g_y: "length (rp_g_y cr) = unat (get_ecdh_pk_len (edhoc_ecdh s))" using m by blast
  obtain PRK_2e' id k where eqs: "g_y' = rp_g_y cr" "ct2' = ct2" and prk2': "prk_2e_derive C s (ic_x ci) (rp_g_y cr) = Ok PRK_2e'"
    and th2': "th2_calculate C Z (edhoc_hash s) (io_bytes (rt_msg1 rt1)) (rp_g_y cr) (rp_c_r cr) = Ok th2'"
    and k: "retrieve_cred C Z D (ic_method ci \<in> {1, 3}) creds_r num_r id fresh_keys = Ok k"
    and prk3': "prk_derive C (ic_method ci \<in> {1, 3}) s PRK_2e' (io_bytes (pk_g k)) (ic_x ci) = Ok PRK_3e2m"
    by (rule msg2_process_Ok [OF D p2 _ _ c_x_choice_small [OF c_r] g_y ct2 c_r]) (use m2 b2 in auto)
  have "PRK_2e' = PRK_2e" using prk2 prk2' m by (simp add: prk_2e_derive_def shares_def)
  moreover have "prk_derive C (ic_method ci \<in> {1, 3}) s PRK_2e (io_bytes (pk_g k)) (ic_x ci) =
      prk_derive C (ic_method ci \<in> {1, 3}) s PRK_2e (ic_g_x ci) (rp_r cr)"
    using m k by (intro prk_derive_cong) (auto simp: knows_def)
  ultimately show "PRK_3e2m = rt_PRK_3e2m rt2" using prk3 prk3' by simp
  show "g_y' = rp_g_y cr" "rt_suite rt2 = s" "rt_static_dh_i rt2 = (ic_method ci \<in> {2, 3})"
    by (fact eqs suite dh_i)+
  show "th3_calculate C Z (edhoc_hash s) th2' ct2' = Ok (rt_th3 rt2)"
    using th2 th2' th3 m1(2) eqs(2) by simp
qed

lemma exchange_agrees:
  assumes Z: "zcbor_canonical Z" "zcbor_present_laws Z" and D: "zcbor_reader D R"
    and match: "matching C Z D s ci creds_r num_r cr creds_i num_i"
    and msg1: "msg1_gen Z ci runtime_context_init = Ok rt1"
    and m1: "io_ok m1" "io_bytes m1 = io_bytes (rt_msg1 rt1)"
    and msg2: "msg2_gen C Z D Lr cr (runtime_context_init\<lparr>rt_msg1 := m1\<rparr>) ad = Ok (rt2, ad')" and ad: "io_ok ad"
    and m2: "io_ok m2" "io_bytes m2 = io_bytes (rt_msg2 rt2)"
    and msg3: "msg3_gen C Z D Li ci (rt1\<lparr>rt_msg2 := m2\<rparr>) creds_r num_r e2 = Ok m3i"
    and m3: "io_ok m3" "io_bytes m3 = io_bytes (rt_msg3 (m3_rt m3i))"
    and proc: "msg3_process C Z D Lr cr (rt2\<lparr>rt_msg3 := m3\<rparr>) creds_i num_i e3 = Ok m3r"
  shows "m3_prk_4x3m m3i = m3_prk_4x3m m3r \<and> m3_th4 m3i = m3_th4 m3r"
proof -
  note m = match [unfolded matching_def]
  from m obtain label where one: "ic_suites_i ci = [label]" and s: "get_suite (int (unat label)) = Ok s" by blast
  from m have known_method: "ic_method ci \<in> {0, 1, 2, 3}" and small: "length (ic_g_x ci) < 2 ^ 32" "length (ic_ead_1 ci) < 2 ^ 32"
    by blast+
  have "rt1 = runtime_context_init\<lparr>rt_msg1 := rt_msg1 rt1\<rparr>" by (rule msg1_gen_Ok [OF Z msg1 one small])
  then have "rt_msg3 (rt1\<lparr>rt_msg2 := m2\<rparr>) = rt_msg3 (runtime_context_init\<lparr>rt_msg1 := rt_msg1 rt1, rt_msg2 := m2\<rparr>)"
    by metis
  then have "rt_msg3 (rt1\<lparr>rt_msg2 := m2\<rparr>) = rt_msg3 runtime_context_init" by simp
  from this obtain s' th2' PRK_3e2m g_y' ct2' ead' th3' ct3 where
    s': "get_suite (int (unat label)) = Ok s'"
    and p2': "msg2_process C Z D Li ci s' (ic_method ci \<in> {1, 3}) (rt1\<lparr>rt_msg2 := m2\<rparr>) creds_r num_r e2 =
      Ok (th2', PRK_3e2m, g_y', ct2', ead')"
    and th3': "th3_calculate C Z (edhoc_hash s') th2' ct2' = Ok th3'"
    and prk4: "prk_derive C (ic_method ci \<in> {2, 3}) s' PRK_3e2m g_y' (ic_i ci) = Ok (m3_prk_4x3m m3i)"
    and b3: "io_bytes (rt_msg3 (m3_rt m3i)) = cbor_bstr ct3" and l3: "length ct3 \<le> CIPHERTEXT3_DEFAULT_SIZE"
    and th4: "th4_calculate C Z (edhoc_hash s') th3' ct3 = Ok (m3_th4 m3i)"
    by (rule msg3_gen_Ok [OF Z(1) msg3 one]) (rule that; simp add: authentication_types [OF known_method])
  from s s' have same: "s' = s" by simp
  note agree = message_2_agrees [OF Z D match msg1 m1 msg2 ad m2 p2' [unfolded same]]
  from msg3_process_Ok [OF D proc _ _ l3] m3 b3 obtain id k where
    k: "retrieve_cred C Z D (ic_method ci \<in> {2, 3}) creds_i num_i id fresh_keys = Ok k"
    and prk4': "prk_derive C (ic_method ci \<in> {2, 3}) s (rt_PRK_3e2m rt2) (io_bytes (pk_g k)) (rp_y cr) = Ok (m3_prk_4x3m m3r)"
    and th4': "th4_calculate C Z (edhoc_hash s) (rt_th3 rt2) ct3 = Ok (m3_th4 m3r)"
    by (auto simp: agree)
  have "prk_derive C (ic_method ci \<in> {2, 3}) s PRK_3e2m (rp_g_y cr) (ic_i ci) =
      prk_derive C (ic_method ci \<in> {2, 3}) s PRK_3e2m (io_bytes (pk_g k)) (rp_y cr)"
    using m k by (intro prk_derive_cong) (auto simp: knows_def)
  with prk4 prk4' th4 th4' th3' agree(1,2,3) same show ?thesis by simp
qed

section \<open>Runs over a channel\<close>

lemma channel_rx_Ok:
  assumes "channel_rx io (log, ins) = (Ok m, w)"
  obtains b ms where "ins = b # ms" "w = (log, ms)" "io_ok m" "io_bytes m = b"
proof -
  from assms obtain b ms where ins: "ins = b # ms" and fits: "length b \<le> unat (snd io)"
    and m: "m = (b @ drop (length b) (fst io), of_nat (length b))" and w: "w = (log, ms)"
    by (auto simp: channel_rx_def split: list.splits if_splits)
  have "length b < 2 ^ 32" using fits unat_u32_less by (rule le_less_trans)
  then show thesis using that [OF ins w] by (simp add: m io_ok_def io_bytes_prefix)
qed

lemma initiator_channel:
  assumes "edhoc_initiator_run C Z D L c creds num e2 e4 channel_tx channel_rx ([], ins) = (Ok r, (out, left))"
  obtains rt b2 ins' m2 m3 where "msg1_gen Z c runtime_context_init = Ok rt" "ins = b2 # ins'" "io_ok m2"
    "io_bytes m2 = b2" "msg3_gen C Z D L c (rt\<lparr>rt_msg2 := m2\<rparr>) creds num e2 = Ok m3"
    "out = [io_bytes (rt_msg1 rt), io_bytes (rt_msg3 (m3_rt m3))]"
    "rr_prk_4x3m r = m3_prk_4x3m m3" "rr_th4 r = m3_th4 m3"
  using assms
  by (auto simp: edhoc_initiator_run_def TRYS_def liftS_def channel_tx_eq split: prod.splits res.splits if_splits
      elim!: channel_rx_Ok)

lemma responder_channel:
  assumes "edhoc_responder_run C Z D L c creds num e1 e3 channel_tx channel_rx ([], ins) = (Ok r, (out, left))"
  obtains b1 b3 ins' m1 rt e1' m3 m3r out' where "ins = b1 # b3 # ins'" "io_ok m1" "io_bytes m1 = b1"
    "msg2_gen C Z D L c (runtime_context_init\<lparr>rt_msg1 := m1\<rparr>) e1 = Ok (rt, e1')"
    "io_ok m3" "io_bytes m3 = b3" "msg3_process C Z D L c (rt\<lparr>rt_msg3 := m3\<rparr>) creds num e3 = Ok m3r"
    "out = io_bytes (rt_msg2 rt) # out'" "rr_prk_4x3m r = m3_prk_4x3m m3r" "rr_th4 r = m3_th4 m3r"
  using assms
  by (auto simp: edhoc_responder_run_def TRYS_def liftS_def channel_tx_eq Let_def split: prod.splits res.splits if_splits
      elim!: channel_rx_Ok)

lemma runs_agree:
  assumes Z: "zcbor_canonical Z" "zcbor_present_laws Z" and D: "zcbor_reader D R"
    and match: "matching C Z D s ci creds_r num_r cr creds_i num_i" and e1: "io_ok e1"
    and run_i: "edhoc_initiator_run C Z D Li ci creds_r num_r e2 e4 channel_tx channel_rx ([], from_r) =
      (Ok ri, (from_i, left_i))"
    and run_r: "edhoc_responder_run C Z D Lr cr creds_i num_i e1 e3 channel_tx channel_rx ([], from_i) =
      (Ok rr, (from_r, left_r))"
  shows "rr_prk_4x3m ri = rr_prk_4x3m rr \<and> rr_th4 ri = rr_th4 rr"
proof -
  obtain rt1 b2 ins2 m2 m3i where i: "msg1_gen Z ci runtime_context_init = Ok rt1" "from_r = b2 # ins2"
    "io_ok m2" "io_bytes m2 = b2" "msg3_gen C Z D Li ci (rt1\<lparr>rt_msg2 := m2\<rparr>) creds_r num_r e2 = Ok m3i"
    "from_i = [io_bytes (rt_msg1 rt1), io_bytes (rt_msg3 (m3_rt m3i))]"
    "rr_prk_4x3m ri = m3_prk_4x3m m3i" "rr_th4 ri = m3_th4 m3i"
    by (rule initiator_channel [OF run_i])
  obtain b1 b3 ins1 m1 rt2 e1' m3 m3r out where r: "from_i = b1 # b3 # ins1" "io_ok m1" "io_bytes m1 = b1"
    "msg2_gen C Z D Lr cr (runtime_context_init\<lparr>rt_msg1 := m1\<rparr>) e1 = Ok (rt2, e1')"
    "io_ok m3" "io_bytes m3 = b3" "msg3_process C Z D Lr cr (rt2\<lparr>rt_msg3 := m3\<rparr>) creds_i num_i e3 = Ok m3r"
    "from_r = io_bytes (rt_msg2 rt2) # out" "rr_prk_4x3m rr = m3_prk_4x3m m3r" "rr_th4 rr = m3_th4 m3r"
    by (rule responder_channel [OF run_r])
  have "m3_prk_4x3m m3i = m3_prk_4x3m m3r \<and> m3_th4 m3i = m3_th4 m3r"
    by (rule exchange_agrees [OF Z D match i(1) r(2) _ r(4) e1 i(3) _ i(5) r(5) _ r(7)])
      (use i r in simp_all)
  with i(7,8) r(9,10) show ?thesis by simp
qed

text \<open>C1: Two endpoints with matching keys whose runs both succeed, each on exactly the messages the
  other one sent, end with the same PRK_4x3m and the same TH_4, and so export the same secrets:
  for every known method, for signatures and static DH keys, whatever the application data and
  connection identifiers.  The initiator proposes exactly one suite.\<close>

theorem honest_runs_agree:
  assumes "zcbor_canonical Z" and "zcbor_present_laws Z" and "zcbor_reader D R"
    and "matching C Z D s ci creds_r num_r cr creds_i num_i" and "io_ok e1"
    and "edhoc_initiator_run C Z D Li ci creds_r num_r e2 e4 channel_tx channel_rx ([], from_r) =
      (Ok ri, (from_i, left_i))"
    and "edhoc_responder_run C Z D Lr cr creds_i num_i e1 e3 channel_tx channel_rx ([], from_i) =
      (Ok rr, (from_r, left_r))"
  shows "rr_prk_4x3m ri = rr_prk_4x3m rr \<and> rr_th4 ri = rr_th4 rr \<and>
    edhoc_exporter C Z (app_hash s) (rr_prk_4x3m ri) (rr_th4 ri) label n =
    edhoc_exporter C Z (app_hash s) (rr_prk_4x3m rr) (rr_th4 rr) label n"
  using runs_agree [OF assms] by simp

section \<open>An exchange that runs\<close>

lemma rfc8949_present: "zcbor_present_laws rfc8949_zcbor"
  by (simp add: zcbor_present_laws_def rfc8949_zcbor_def encodes_def)

lemma toy_retrieved:
  assumes "retrieve_cred toy_crypto Z D True [toy_cred i c g] 1 id_cred fresh_keys = Ok k" and "length g = 32"
  shows "io_bytes (pk_g k) = g"
proof -
  have cert: "verify_cert2cred cert_x509_verify toy_crypto Z D True [toy_cred i c g] 1 label cert fresh_keys \<noteq> Ok k" for label cert
    by (cases "label = L_x5bag \<or> label = L_x5chain"; cases "label = L_c5b \<or> label = L_c5c"; auto simp: verify_cert2cred_def cert_x509_verify_def cert_c509_verify_def toy_crypto_def TRY_eq_Ok
        TRY_EXPECT_eq_Ok case_prod_unfold Let_def)
  have "get_local_cred True [toy_cred i c g] 1 id_cred fresh_keys = Ok k"
    using assms(1) by (auto simp: retrieve_cred_def retrieve_cred_by_def TRY_EXPECT_eq_Ok cert split: if_splits option.splits)
  then show ?thesis
    using assms(2) by (auto simp: get_local_cred_def copy_local_cred_def toy_cred_def fresh_keys_def full_buf_def
        TRY_eq_Ok memcpy_s_def write_mem_def io_bytes_def case_prod_unfold Let_def split: if_splits)
qed

lemma toy_matching:
  "\<exists>s. matching toy_crypto rfc8949_zcbor rfc8949_dec s toy_initiator toy_creds_r 1 toy_responder toy_creds_i 1"
proof -
  obtain s where s: "get_suite 0 = Ok s" "edhoc_ecdh s = X25519" by (simp add: get_suite_def)
  have knows: "knows toy_crypto rfc8949_zcbor rfc8949_dec toy_creds_r 1 (rp_g_r toy_responder)"
    "knows toy_crypto rfc8949_zcbor rfc8949_dec toy_creds_i 1 (ic_g_i toy_initiator)"
    by (auto simp: knows_def toy_creds_r_def toy_creds_i_def toy_responder_def toy_initiator_def toy_public_def
        dest!: toy_retrieved)
  have shares: "shares toy_crypto s a g_a b g_b \<longleftrightarrow> map2 (+) a g_b = map2 (+) b g_a" for a g_a b g_b
    by (simp add: shares_def toy_crypto_def)
  show ?thesis
    by (intro exI [of _ s], use s knows in
      \<open>simp add: matching_def shares toy_public_def toy_initiator_def toy_responder_def get_ecdh_pk_len_def\<close>)
qed

theorem honest_runs_agree_witness:
  "\<exists>ri rr from_i from_r left_i left_r. toy_initiator_run from_r = (Ok ri, (from_i, left_i)) \<and>
    toy_responder_run from_i = (Ok rr, (from_r, left_r)) \<and>
    rr_prk_4x3m ri = rr_prk_4x3m rr \<and> rr_th4 ri = rr_th4 rr"
proof -
  obtain s where match: "matching toy_crypto rfc8949_zcbor rfc8949_dec s toy_initiator toy_creds_r 1
      toy_responder toy_creds_i 1"
    using toy_matching by blast
  have "io_ok (full_buf 4)" by (simp add: io_ok_def full_buf_def)
  from honest_runs_agree [OF rfc8949_canonical rfc8949_present rfc.zcbor_reader_axioms match this
      toy_initiator_runs [unfolded toy_initiator_run_def] toy_responder_runs [unfolded toy_responder_run_def]]
  show ?thesis using toy_initiator_runs toy_responder_runs by blast
qed

end
