(* ===== verification/Psa_Wrapper.thy ===== *)
theory Psa_Wrapper
  imports Edhoc_Keys
begin

text \<open>
  \<^verbatim>\<open>src/common/crypto_wrapper.c\<close> in the configuration MBEDTLS, alone or with COMPACT25519 (an
  argument that is None when it is not compiled in).  The PSA library keeps the imported keys, so
  the wrappers are actions on its state \<open>'s\<close>; its functions are the fields of the records \<open>psa\<close>,
  \<open>mbedtls_mpi\<close> and \<open>mbedtls_ecp\<close>.  A call returns whether its status is \<^verbatim>\<open>PSA_SUCCESS\<close> (0), its
  outputs and the new state; a buffer it writes is the list of the bytes written.

  The names are those of the functions with the suffix \<open>_psa\<close>, as Crypto_Wrapper models the same
  functions in the configuration TINYCRYPT.
\<close>

section \<open>The libraries\<close>

type_synonym key_id = u32

definition PSA_KEY_HANDLE_INIT :: key_id where "PSA_KEY_HANDLE_INIT = 0"

datatype psa_algorithm =
    PSA_ALG_NONE
  | PSA_ALG_CCM_WITH_SHORTENED_TAG u32
  | PSA_ALG_ECDSA_SHA_256
  | PSA_ALG_HMAC_SHA_256
  | PSA_ALG_ECDH
  | PSA_ALG_SHA_256

datatype psa_key_type =
    PSA_KEY_TYPE_NONE
  | PSA_KEY_TYPE_AES
  | PSA_KEY_TYPE_HMAC
  | PSA_KEY_TYPE_ECC_KEY_PAIR_SECP_R1
  | PSA_KEY_TYPE_ECC_PUBLIC_KEY_SECP_R1

datatype psa_key_usage =
    PSA_KEY_USAGE_EXPORT | PSA_KEY_USAGE_ENCRYPT | PSA_KEY_USAGE_DECRYPT
  | PSA_KEY_USAGE_SIGN_MESSAGE | PSA_KEY_USAGE_VERIFY_MESSAGE
  | PSA_KEY_USAGE_SIGN_HASH | PSA_KEY_USAGE_VERIFY_HASH | PSA_KEY_USAGE_DERIVE

datatype psa_key_lifetime = PSA_KEY_LIFETIME_VOLATILE | PSA_KEY_LIFETIME_PERSISTENT

record psa_key_attributes =
  psa_key_usage_flags :: "psa_key_usage list"
  psa_key_algorithm :: psa_algorithm
  psa_key_type :: psa_key_type
  psa_key_bits :: u64
  psa_key_lifetime :: psa_key_lifetime

definition PSA_KEY_ATTRIBUTES_INIT :: psa_key_attributes where
  "PSA_KEY_ATTRIBUTES_INIT = \<lparr>psa_key_usage_flags = [], psa_key_algorithm = PSA_ALG_NONE,
     psa_key_type = PSA_KEY_TYPE_NONE, psa_key_bits = 0, psa_key_lifetime = PSA_KEY_LIFETIME_VOLATILE\<rparr>"

type_synonym ('s, 'a) psa_call = "'s \<Rightarrow> (bool \<times> 'a) \<times> 's"

record 's psa =
  psa_crypto_init :: "('s, unit) psa_call"
  psa_import_key :: "psa_key_attributes \<Rightarrow> bytes \<Rightarrow> ('s, key_id) psa_call"
  psa_generate_key :: "psa_key_attributes \<Rightarrow> ('s, key_id) psa_call"
  psa_destroy_key :: "key_id \<Rightarrow> ('s, unit) psa_call"
  psa_export_key :: "key_id \<Rightarrow> nat \<Rightarrow> ('s, bytes) psa_call"
  psa_export_public_key :: "key_id \<Rightarrow> nat \<Rightarrow> ('s, bytes) psa_call"
  psa_aead_encrypt :: "key_id \<Rightarrow> psa_algorithm \<Rightarrow> bytes \<Rightarrow> bytes \<Rightarrow> bytes \<Rightarrow> nat \<Rightarrow> ('s, bytes) psa_call"
  psa_aead_decrypt :: "key_id \<Rightarrow> psa_algorithm \<Rightarrow> bytes \<Rightarrow> bytes \<Rightarrow> bytes \<Rightarrow> nat \<Rightarrow> ('s, bytes) psa_call"
  psa_sign_message :: "key_id \<Rightarrow> psa_algorithm \<Rightarrow> bytes \<Rightarrow> nat \<Rightarrow> ('s, bytes) psa_call"
  psa_verify_message :: "key_id \<Rightarrow> psa_algorithm \<Rightarrow> bytes \<Rightarrow> bytes \<Rightarrow> ('s, unit) psa_call"
  psa_mac_compute :: "key_id \<Rightarrow> psa_algorithm \<Rightarrow> bytes \<Rightarrow> nat \<Rightarrow> ('s, bytes) psa_call"
  psa_raw_key_agreement :: "psa_algorithm \<Rightarrow> key_id \<Rightarrow> bytes \<Rightarrow> nat \<Rightarrow> ('s, bytes) psa_call"
  PSA_RAW_KEY_AGREEMENT_OUTPUT_SIZE :: "psa_key_type \<Rightarrow> u64 \<Rightarrow> nat"
  psa_hash_compute :: "psa_algorithm \<Rightarrow> bytes \<Rightarrow> nat \<Rightarrow> ('s, bytes) psa_call"

text \<open>Integers of any size; None is an error of the library.\<close>

record mbedtls_mpi =
  mbedtls_mpi_size :: "int \<Rightarrow> nat"
  mbedtls_mpi_read_binary :: "bytes \<Rightarrow> int option"
  mbedtls_mpi_mul_mpi :: "int \<Rightarrow> int \<Rightarrow> int option"
  mbedtls_mpi_add_mpi :: "int \<Rightarrow> int \<Rightarrow> int option"
  mbedtls_mpi_sub_mpi :: "int \<Rightarrow> int \<Rightarrow> int option"
  mbedtls_mpi_add_int :: "int \<Rightarrow> int \<Rightarrow> int option"
  mbedtls_mpi_sub_int :: "int \<Rightarrow> int \<Rightarrow> int option"
  mbedtls_mpi_shift_r :: "int \<Rightarrow> nat \<Rightarrow> int option"
  mbedtls_mpi_exp_mod :: "int \<Rightarrow> int \<Rightarrow> int \<Rightarrow> int option"
  mbedtls_mpi_get_bit :: "int \<Rightarrow> nat \<Rightarrow> bool"
  mbedtls_mpi_write_binary :: "int \<Rightarrow> nat \<Rightarrow> bytes option"

text \<open>A curve \<open>y\<^sup>2 = x\<^sup>3 + A x + B\<close> modulo \<open>P\<close>; \<open>A\<close> is not stored when it is -3.\<close>

record mbedtls_ecp_group =
  grp_P :: int
  grp_A :: "int option"
  grp_B :: int

record 's mbedtls_ecp =
  mbedtls_pk_setup :: "('s, unit) psa_call"
  mbedtls_ecp_group_load :: "('s, mbedtls_ecp_group) psa_call"

section \<open>The macros\<close>

text \<open>\<open>TRY_EXPECT_PSA P key_id err_code x f\<close>: when the call \<open>x\<close> does not return what is expected,
  the key is destroyed, unless there is none, and the function returns \<open>err_code\<close>.  The macro reads
  the variable of the key after the call, which may have set it.\<close>

definition TRY_EXPECT_PSA ::
    "'s psa \<Rightarrow> ('a \<Rightarrow> key_id) \<Rightarrow> err \<Rightarrow> ('s, 'a) psa_call \<Rightarrow> ('a \<Rightarrow> ('s, 'b) act) \<Rightarrow> ('s, 'b) act" where
  "TRY_EXPECT_PSA P key_id err_code x f = (\<lambda>s. case x s of ((expected, a), s1) \<Rightarrow>
     if expected then f a s1
     else (Fail err_code,
           if key_id a \<noteq> PSA_KEY_HANDLE_INIT then snd (psa_destroy_key P (key_id a) s1) else s1))"

text \<open>\<^verbatim>\<open>TRY_EXPECT(x, PSA_SUCCESS)\<close>\<close>

definition TRY_EXPECT_SUCCESS :: "('s, 'a) psa_call \<Rightarrow> ('a \<Rightarrow> ('s, 'b) act) \<Rightarrow> ('s, 'b) act" where
  "TRY_EXPECT_SUCCESS x f = (\<lambda>s. case x s of ((success, a), s1) \<Rightarrow>
     if success then f a s1 else (Fail unexpected_result_from_ext_lib, s1))"

text \<open>A comparison as the argument of the macro.\<close>

definition expected :: "bool \<Rightarrow> ('s, unit) psa_call" where
  "expected b = (\<lambda>s. ((b, ()), s))"

text \<open>The start of every function that uses a key: initialise the library and import the key.\<close>

definition with_psa_key ::
    "'s psa \<Rightarrow> psa_key_attributes \<Rightarrow> bytes \<Rightarrow> (key_id \<Rightarrow> ('s, 'b) act) \<Rightarrow> ('s, 'b) act" where
  "with_psa_key P attr key f =
     TRY_EXPECT_PSA P (\<lambda>_. PSA_KEY_HANDLE_INIT) unexpected_result_from_ext_lib (psa_crypto_init P) (\<lambda>_.
     TRY_EXPECT_PSA P (\<lambda>key_id. key_id) unexpected_result_from_ext_lib (psa_import_key P attr key) f)"

text \<open>A call with the imported key, and the end: destroy the key and return.\<close>

definition PSA_CALL :: "'s psa \<Rightarrow> key_id \<Rightarrow> ('s, 'a) psa_call \<Rightarrow> ('a \<Rightarrow> ('s, 'b) act) \<Rightarrow> ('s, 'b) act" where
  "PSA_CALL P key_id = TRY_EXPECT_PSA P (\<lambda>_. key_id) unexpected_result_from_ext_lib"

definition psa_finish :: "'s psa \<Rightarrow> key_id \<Rightarrow> 'a res \<Rightarrow> ('s, 'a) act" where
  "psa_finish P key_id r = TRY_EXPECT_SUCCESS (psa_destroy_key P key_id) (\<lambda>_. liftS r)"

section \<open>Authenticated encryption\<close>

text \<open>The tag is copied from \<^verbatim>\<open>out + out_len_re - tag_len\<close>.\<close>

definition aead_psa ::
    "'s psa \<Rightarrow> aes_operation \<Rightarrow> bytes \<Rightarrow> bytes \<Rightarrow> bytes \<Rightarrow> bytes \<Rightarrow> u32 \<Rightarrow> u32 \<Rightarrow> ('s, bytes \<times> bytes) act" where
  "aead_psa P op inb key nonce aad out_len tag_len =
     (let alg = PSA_ALG_CCM_WITH_SHORTENED_TAG tag_len;
          key_len = of_nat (length key) :: u32; in_len = of_nat (length inb) :: u32;
          attr = PSA_KEY_ATTRIBUTES_INIT\<lparr>
            psa_key_usage_flags := [PSA_KEY_USAGE_DECRYPT, PSA_KEY_USAGE_ENCRYPT],
            psa_key_algorithm := alg, psa_key_type := PSA_KEY_TYPE_AES,
            psa_key_bits := push_bit 3 (ucast key_len), psa_key_lifetime := PSA_KEY_LIFETIME_VOLATILE\<rparr> in
      with_psa_key P attr key (\<lambda>key_id.
      if op = DECRYPT then
        PSA_CALL P key_id (psa_aead_decrypt P key_id alg nonce aad inb (unat out_len)) (\<lambda>out.
        psa_finish P key_id (Ok (out, [])))
      else
        PSA_CALL P key_id (psa_aead_encrypt P key_id alg nonce aad inb (unat (in_len + tag_len))) (\<lambda>out.
        TRYS (liftS (if unat tag_len \<le> length out then Ok (drop (length out - unat tag_len) out) else Undef))
          (\<lambda>tag. psa_finish P key_id (Ok (out, tag))))))"

section \<open>Signatures\<close>

definition sign_psa ::
    "'s psa \<Rightarrow> compact25519 option \<Rightarrow> int \<Rightarrow> bytes \<Rightarrow> bytes \<Rightarrow> bytes \<Rightarrow> ('s, bytes) act" where
  "sign_psa P compact alg sk pk msg =
     (if alg = EdDSA then
        liftS (case compact of Some C \<Rightarrow> Ok (edsign_sign C pk sk msg) | None \<Rightarrow> Fail unsupported_ecdh_curve)
      else if alg = ES256 then
        let psa_alg = PSA_ALG_ECDSA_SHA_256; sk_len = of_nat (length sk) :: u32;
            attributes = PSA_KEY_ATTRIBUTES_INIT\<lparr>
              psa_key_usage_flags := [PSA_KEY_USAGE_VERIFY_MESSAGE, PSA_KEY_USAGE_VERIFY_HASH,
                PSA_KEY_USAGE_SIGN_MESSAGE, PSA_KEY_USAGE_SIGN_HASH],
              psa_key_algorithm := psa_alg, psa_key_type := PSA_KEY_TYPE_ECC_KEY_PAIR_SECP_R1,
              psa_key_bits := ucast sk_len * 8, psa_key_lifetime := PSA_KEY_LIFETIME_VOLATILE\<rparr> in
        with_psa_key P attributes sk (\<lambda>key_id.
        PSA_CALL P key_id (psa_sign_message P key_id psa_alg msg SIGNATURE_DEFAULT_SIZE) (\<lambda>signature.
        TRY_EXPECT_PSA P (\<lambda>_. key_id) sign_failed (expected (length signature = SIGNATURE_DEFAULT_SIZE)) (\<lambda>_.
        psa_finish P key_id (Ok signature))))
      else liftS (Fail unsupported_ecdh_curve))"

definition verify_psa ::
    "'s psa \<Rightarrow> compact25519 option \<Rightarrow> int \<Rightarrow> bytes \<Rightarrow> bytes \<Rightarrow> bytes \<Rightarrow> ('s, bool) act" where
  "verify_psa P compact alg pk msg sgnt =
     (case (alg = EdDSA, compact) of
        (True, Some C) \<Rightarrow> liftS (Ok (edsign_verify C sgnt pk msg))
      | _ \<Rightarrow>
        if alg = ES256 then
          let psa_alg = PSA_ALG_ECDSA_SHA_256;
              attributes = PSA_KEY_ATTRIBUTES_INIT\<lparr>
                psa_key_usage_flags := [PSA_KEY_USAGE_VERIFY_MESSAGE, PSA_KEY_USAGE_VERIFY_HASH],
                psa_key_algorithm := psa_alg, psa_key_type := PSA_KEY_TYPE_ECC_PUBLIC_KEY_SECP_R1,
                psa_key_bits := 32 * 8, psa_key_lifetime := PSA_KEY_LIFETIME_VOLATILE\<rparr> in
          with_psa_key P attributes pk (\<lambda>key_id s.
          case psa_verify_message P key_id psa_alg msg sgnt s of ((success, _), s1) \<Rightarrow>
            psa_finish P key_id (Ok success) s1)
        else liftS (Fail crypto_operation_not_implemented))"

section \<open>Key derivation\<close>

definition hmac_attributes :: psa_key_attributes where
  "hmac_attributes = PSA_KEY_ATTRIBUTES_INIT\<lparr>psa_key_lifetime := PSA_KEY_LIFETIME_VOLATILE,
     psa_key_usage_flags := [PSA_KEY_USAGE_SIGN_HASH], psa_key_algorithm := PSA_ALG_HMAC_SHA_256,
     psa_key_type := PSA_KEY_TYPE_HMAC\<rparr>"

definition hkdf_extract_psa ::
    "'s psa \<Rightarrow> int \<Rightarrow> bytes \<Rightarrow> bytes \<Rightarrow> bytes \<Rightarrow> ('s, bytes) act" where
  "hkdf_extract_psa P alg salt ikm out =
     (if alg \<noteq> SHA_256 then liftS (Fail crypto_operation_not_implemented)
      else
        with_psa_key P hmac_attributes (if salt = [] then replicate 32 0 else salt) (\<lambda>key_id.
        PSA_CALL P key_id (psa_mac_compute P key_id PSA_ALG_HMAC_SHA_256 ikm 32) (\<lambda>m.
        TRYS (liftS (write_mem out 0 m)) (\<lambda>out'. psa_finish P key_id (Ok out')))))"

text \<open>The loop of the expansion with \<open>n\<close> rounds left, in round \<open>i\<close>: \<open>combo\<close> holds the previous
  block, the information and the number of the round, and \<open>offset\<close> skips the previous block in the
  first round.\<close>

fun hkdf_expand_loop_psa ::
    "'s psa \<Rightarrow> key_id \<Rightarrow> nat \<Rightarrow> u32 \<Rightarrow> nat \<Rightarrow> u32 \<Rightarrow> bytes \<Rightarrow> bytes \<Rightarrow> nat \<Rightarrow> bytes \<Rightarrow> ('s, bytes) act" where
  "hkdf_expand_loop_psa P key_id combo_len out_len 0 i combo tmp_out offset out = liftS (Ok out)"
| "hkdf_expand_loop_psa P key_id combo_len out_len (Suc n) i combo tmp_out offset out =
     TRYS (liftS (write_mem combo 0 tmp_out)) (\<lambda>combo1.
     TRYS (liftS (write_mem combo1 (int combo_len - 1) [ucast i])) (\<lambda>combo2.
     TRYS (liftS (read_mem (advance (Some combo2) offset) (combo_len - offset))) (\<lambda>msg.
     PSA_CALL P key_id (psa_mac_compute P key_id PSA_ALG_HMAC_SHA_256 msg 32) (\<lambda>m.
     TRYS (liftS (write_mem tmp_out 0 m)) (\<lambda>tmp_out'.
     TRYS (liftS (write_mem out (int (unat (push_bit 5 (i - 1))))
            (take (if out_len < push_bit 5 i then unat (out_len AND 31) else 32) tmp_out'))) (\<lambda>out'.
     hkdf_expand_loop_psa P key_id combo_len out_len n (i + 1) combo2 tmp_out' 0 out'))))))"

definition hkdf_expand_psa ::
    "'s psa \<Rightarrow> int \<Rightarrow> bytes \<Rightarrow> bytes \<Rightarrow> bytes \<Rightarrow> u32 \<Rightarrow> ('s, bytes) act" where
  "hkdf_expand_psa P alg prk info out out_len =
     (if alg \<noteq> SHA_256 then liftS (Fail crypto_operation_not_implemented)
      else
        let iterations = (out_len + 31) div 32; info_len = of_nat (length info) :: u32 in
        if 255 < iterations then liftS (Fail hkdf_fialed)
        else
          with_psa_key P hmac_attributes prk (\<lambda>key_id.
          let combo_len = 32 + ucast info_len + 1 :: u64 in
          PSA_CALL P key_id (expected (check_buffer_size (of_nat INFO_DEFAULT_SIZE) (ucast combo_len) = Ok ())) (\<lambda>_.
          TRYS (liftS (write_mem (replicate INFO_DEFAULT_SIZE 0) 32 info)) (\<lambda>combo.
          TRYS (hkdf_expand_loop_psa P key_id (unat combo_len) out_len (unat iterations) 1 combo
                  (replicate 32 0) 32 out) (\<lambda>out'.
          psa_finish P key_id (Ok out'))))))"

definition hkdf_sha_256_psa ::
    "'s psa \<Rightarrow> bytes \<Rightarrow> bytes \<Rightarrow> bytes \<Rightarrow> bytes \<Rightarrow> ('s, bytes) act" where
  "hkdf_sha_256_psa P master_secret master_salt info out =
     TRYS (hkdf_extract_psa P SHA_256 master_salt master_secret (replicate SHA_DEFAULT_SIZE 0)) (\<lambda>prk.
     hkdf_expand_psa P SHA_256 prk info out (of_nat (length out)))"

definition hash_psa :: "'s psa \<Rightarrow> int \<Rightarrow> bytes \<Rightarrow> ('s, bytes) act" where
  "hash_psa P alg inb =
     (if alg = SHA_256 then
        TRY_EXPECT_SUCCESS (psa_hash_compute P PSA_ALG_SHA_256 inb SHA_DEFAULT_SIZE) (\<lambda>h.
        liftS (if length h \<noteq> SHA_DEFAULT_SIZE then Fail sha_failed else Ok h))
      else liftS (Fail crypto_operation_not_implemented))"

section \<open>Points\<close>

datatype ecp_error = MBEDTLS_ERR_ECP_BUFFER_TOO_SMALL | MBEDTLS_ERR_ECP_BAD_INPUT_DATA | MBEDTLS_ERR_MPI

text \<open>\<^verbatim>\<open>MBEDTLS_MPI_CHK\<close>\<close>

definition MPI_CHK :: "'a option \<Rightarrow> ('a \<Rightarrow> ecp_error + 'b) \<Rightarrow> ecp_error + 'b" where
  "MPI_CHK m f = (case m of Some a \<Rightarrow> f a | None \<Rightarrow> Inl MBEDTLS_ERR_MPI)"

text \<open>The ordinate: a square root of \<open>x\<^sup>3 + a x + b\<close> as the power to \<open>(P + 1) / 4\<close>.\<close>

definition ecp_ordinate ::
    "mbedtls_mpi \<Rightarrow> mbedtls_ecp_group \<Rightarrow> bool \<Rightarrow> bytes \<Rightarrow> nat \<Rightarrow> ecp_error + bytes" where
  "ecp_ordinate M grp odd_y input1 plen =
     MPI_CHK (mbedtls_mpi_read_binary M input1) (\<lambda>x.
     MPI_CHK (mbedtls_mpi_mul_mpi M x x) (\<lambda>r1.
     MPI_CHK (case grp_A grp of None \<Rightarrow> mbedtls_mpi_sub_int M r1 3
              | Some A \<Rightarrow> mbedtls_mpi_add_mpi M r1 A) (\<lambda>r2.
     MPI_CHK (mbedtls_mpi_mul_mpi M r2 x) (\<lambda>r3.
     MPI_CHK (mbedtls_mpi_add_mpi M r3 (grp_B grp)) (\<lambda>r4.
     MPI_CHK (mbedtls_mpi_add_int M (grp_P grp) 1) (\<lambda>n1.
     MPI_CHK (mbedtls_mpi_shift_r M n1 2) (\<lambda>n2.
     MPI_CHK (mbedtls_mpi_exp_mod M r4 n2 (grp_P grp)) (\<lambda>r5.
     MPI_CHK (if odd_y \<noteq> mbedtls_mpi_get_bit M r5 0 then mbedtls_mpi_sub_mpi M (grp_P grp) r5 else Some r5) (\<lambda>r.
     MPI_CHK (mbedtls_mpi_write_binary M r plen) Inr)))))))))"

text \<open>\<open>output\<close> is the buffer before the call, \<open>osize\<close> its size as the caller passes it.\<close>

definition mbedtls_ecp_decompress ::
    "mbedtls_mpi \<Rightarrow> mbedtls_ecp_group \<Rightarrow> bytes \<Rightarrow> bytes \<Rightarrow> nat \<Rightarrow> (ecp_error + bytes) res" where
  "mbedtls_ecp_decompress M grp input output osize =
     (let plen = mbedtls_mpi_size M (grp_P grp); olen = 2 * plen + 1 in
      if osize < olen then Ok (Inl MBEDTLS_ERR_ECP_BUFFER_TOO_SMALL)
      else if length input \<noteq> plen + 1 then Ok (Inl MBEDTLS_ERR_ECP_BAD_INPUT_DATA)
      else TRY (arr_get input 0) (\<lambda>tag.
        if tag \<noteq> 2 \<and> tag \<noteq> 3 then Ok (Inl MBEDTLS_ERR_ECP_BAD_INPUT_DATA)
        else
          TRY (write_mem output 0 input) (\<lambda>out1.
          TRY (write_mem out1 0 [4]) (\<lambda>out2.
          case ecp_ordinate M grp (tag = 3) (drop 1 input) plen of
            Inl e \<Rightarrow> Ok (Inl e)
          | Inr y \<Rightarrow> TRY (write_mem out2 (int (1 + plen)) y) (\<lambda>out3. Ok (Inr (take olen out3)))))))"

section \<open>Key agreement\<close>

text \<open>The code after the label \<^verbatim>\<open>cleanup\<close>.\<close>

definition psa_cleanup :: "'s psa \<Rightarrow> key_id \<Rightarrow> 'a res \<Rightarrow> ('s, 'a) act" where
  "psa_cleanup P key_id r =
     (if PSA_KEY_HANDLE_INIT \<noteq> key_id then psa_finish P key_id r else liftS r)"

text \<open>\<open>if (PSA_SUCCESS != x) { result = ...; goto cleanup; }\<close>\<close>

definition OR_CLEANUP :: "'s psa \<Rightarrow> key_id \<Rightarrow> ('s, 'a) psa_call \<Rightarrow> ('a \<Rightarrow> ('s, 'b) act) \<Rightarrow> ('s, 'b) act" where
  "OR_CLEANUP P key_id x f = (\<lambda>s. case x s of ((success, a), s1) \<Rightarrow>
     if success then f a s1 else psa_cleanup P key_id (Fail unexpected_result_from_ext_lib) s1)"

definition ecdh_attributes :: psa_key_attributes where
  "ecdh_attributes = PSA_KEY_ATTRIBUTES_INIT\<lparr>psa_key_lifetime := PSA_KEY_LIFETIME_VOLATILE,
     psa_key_usage_flags := [PSA_KEY_USAGE_DERIVE], psa_key_algorithm := PSA_ALG_ECDH,
     psa_key_type := PSA_KEY_TYPE_ECC_KEY_PAIR_SECP_R1\<rparr>"

text \<open>\<open>pk_decompressed\<close> is the local array before it is written.\<close>

definition shared_secret_derive_psa ::
    "'s psa \<Rightarrow> mbedtls_mpi \<Rightarrow> 's mbedtls_ecp \<Rightarrow> compact25519 option \<Rightarrow> bytes \<Rightarrow> int \<Rightarrow> bytes \<Rightarrow> bytes \<Rightarrow>
     ('s, bytes) act" where
  "shared_secret_derive_psa P M E compact pk_decompressed alg sk pk =
     (case (alg = X25519, compact) of
        (True, Some C) \<Rightarrow> liftS (TRY (read_mem (Some sk) 32) (\<lambda>e. Ok (c25519_smult C pk (c25519_prepare C e))))
      | _ \<Rightarrow>
        if alg = P256 then
          let sk_len = of_nat (length sk) :: u32; bits = ucast (sk_len * 8) :: u64 in
          with_psa_key P ecdh_attributes sk (\<lambda>key_id.
          let shared_size = PSA_RAW_KEY_AGREEMENT_OUTPUT_SIZE P (psa_key_type ecdh_attributes) bits in
          OR_CLEANUP P key_id (mbedtls_pk_setup E) (\<lambda>_.
          OR_CLEANUP P key_id (mbedtls_ecp_group_load E) (\<lambda>grp.
          TRYS (liftS (mbedtls_ecp_decompress M grp pk pk_decompressed P_256_PUB_KEY_UNCOMPRESSED_SIZE)) (\<lambda>d.
          case d of
            Inl e \<Rightarrow> psa_cleanup P key_id (Fail unexpected_result_from_ext_lib)
          | Inr point \<Rightarrow>
              OR_CLEANUP P key_id (psa_raw_key_agreement P PSA_ALG_ECDH key_id point shared_size) (\<lambda>shared_secret.
              psa_cleanup P key_id (Ok shared_secret))))))
        else liftS (Fail crypto_operation_not_implemented))"

definition ephemeral_attributes :: psa_key_attributes where
  "ephemeral_attributes = PSA_KEY_ATTRIBUTES_INIT\<lparr>
     psa_key_usage_flags := [PSA_KEY_USAGE_EXPORT, PSA_KEY_USAGE_DERIVE,
       PSA_KEY_USAGE_SIGN_MESSAGE, PSA_KEY_USAGE_SIGN_HASH],
     psa_key_algorithm := PSA_ALG_ECDH, psa_key_type := PSA_KEY_TYPE_ECC_KEY_PAIR_SECP_R1,
     psa_key_bits := 32 * 8\<rparr>"

text \<open>\<open>extended_seed\<close> is the local array that should hold the hash of the seed, \<open>(sk, pk, pk_size)\<close>
  what the output arguments hold before the call.\<close>

definition ephemeral_dh_key_gen_psa ::
    "'s psa \<Rightarrow> compact25519 option \<Rightarrow> bytes \<Rightarrow> int \<Rightarrow> u32 \<Rightarrow> bytes \<times> bytes \<times> u32 \<Rightarrow>
     ('s, bytes \<times> bytes \<times> u32) act" where
  "ephemeral_dh_key_gen_psa P compact extended_seed alg seed = (\<lambda>(sk, pk, pk_size).
     if alg = X25519 then
       case compact of
         None \<Rightarrow> liftS (Ok (sk, pk, pk_size))
       | Some C \<Rightarrow>
           TRY_EXPECT_SUCCESS (psa_hash_compute P PSA_ALG_SHA_256 (u32_le_bytes seed) SHA_DEFAULT_SIZE) (\<lambda>h.
           TRYS (liftS (write_mem sk 0 h)) (\<lambda>_.
           if length h \<noteq> 32 then liftS (Fail sha_failed)
           else let (sk', pk') = compact_x25519_keygen C extended_seed in
             liftS (Ok (sk', pk', X25519_KEY_SIZE))))
     else if alg = P256 then
       if pk_size < of_nat P_256_PUB_KEY_COMPRESSED_SIZE then liftS (Fail buffer_to_small)
       else
         TRY_EXPECT_PSA P (\<lambda>_. PSA_KEY_HANDLE_INIT) unexpected_result_from_ext_lib (psa_crypto_init P) (\<lambda>_.
         TRY_EXPECT_PSA P (\<lambda>key_id. key_id) unexpected_result_from_ext_lib (psa_generate_key P ephemeral_attributes) (\<lambda>key_id.
         PSA_CALL P key_id (psa_export_key P key_id 32) (\<lambda>key.
         TRYS (liftS (write_mem sk 0 key)) (\<lambda>sk'.
         PSA_CALL P key_id (psa_export_public_key P key_id P_256_PUB_KEY_UNCOMPRESSED_SIZE) (\<lambda>public_key.
         PSA_CALL P key_id (expected (length public_key = P_256_PUB_KEY_UNCOMPRESSED_SIZE)) (\<lambda>_.
         TRYS (liftS (write_mem pk 0 [2])) (\<lambda>pk1.
         TRYS (liftS (write_mem pk1 1 (take 32 (drop 1 public_key)))) (\<lambda>pk2.
         psa_finish P key_id (Ok (sk', pk2, of_nat P_256_PUB_KEY_COMPRESSED_SIZE))))))))))
     else liftS (Fail unsupported_ecdh_curve))"

end
