(* ===== verification/Psa_Keys.thy ===== *)
theory Psa_Keys
  imports Psa_Wrapper Hkdf_Correct
begin

text \<open>
  The PSA library keeps keys in a store of limited size, and the wrappers of \<^verbatim>\<open>crypto_wrapper.c\<close>
  import a key for every operation.  On every path, errors included, they leave the store as it
  was: no key stays behind.
\<close>

section \<open>The key store\<close>

type_synonym key_store = "key_id \<Rightarrow> (psa_key_attributes \<times> bytes) option"

text \<open>What the PSA specification says about the store, \<open>keys\<close>: a successful import or generation adds
  a key under a fresh identifier, which is not 0, a failed one sets the identifier to 0 and adds
  nothing; destroying a stored key succeeds; no other call changes the store.\<close>

definition quiet :: "('s \<Rightarrow> key_store) \<Rightarrow> ('s, 'a) psa_call \<Rightarrow> bool" where
  "quiet keys x \<longleftrightarrow> (\<forall>s. keys (snd (x s)) = keys s)"

definition adds_key :: "('s \<Rightarrow> key_store) \<Rightarrow> (bytes \<Rightarrow> bool) \<Rightarrow> psa_key_attributes \<Rightarrow> ('s, key_id) psa_call \<Rightarrow> bool" where
  "adds_key keys Q attr x \<longleftrightarrow> (\<forall>s b i s1. x s = ((b, i), s1) \<longrightarrow>
     (if b then i \<noteq> 0 \<and> keys s i = None \<and> (\<exists>k. Q k \<and> keys s1 = (keys s)(i \<mapsto> (attr, k)))
      else i = 0 \<and> keys s1 = keys s))"

definition destroys_keys :: "('s \<Rightarrow> key_store) \<Rightarrow> (key_id \<Rightarrow> ('s, unit) psa_call) \<Rightarrow> bool" where
  "destroys_keys keys x \<longleftrightarrow> (\<forall>i s b s1. keys s i \<noteq> None \<longrightarrow> x i s = ((b, ()), s1) \<longrightarrow>
     b \<and> keys s1 = (keys s)(i := None))"

definition key_store_law :: "'s psa \<Rightarrow> 's mbedtls_ecp \<Rightarrow> ('s \<Rightarrow> key_store) \<Rightarrow> bool" where
  "key_store_law P E keys \<longleftrightarrow>
     (\<forall>attr key. adds_key keys (\<lambda>k. k = key) attr (psa_import_key P attr key)) \<and>
     (\<forall>attr. adds_key keys (\<lambda>_. True) attr (psa_generate_key P attr)) \<and>
     destroys_keys keys (psa_destroy_key P) \<and>
     quiet keys (psa_crypto_init P) \<and>
     (\<forall>i n. quiet keys (psa_export_key P i n) \<and> quiet keys (psa_export_public_key P i n)) \<and>
     (\<forall>i a nc ad m n. quiet keys (psa_aead_encrypt P i a nc ad m n) \<and> quiet keys (psa_aead_decrypt P i a nc ad m n)) \<and>
     (\<forall>i a m n. quiet keys (psa_sign_message P i a m n) \<and> quiet keys (psa_mac_compute P i a m n)) \<and>
     (\<forall>i a m sg. quiet keys (psa_verify_message P i a m sg)) \<and>
     (\<forall>a i pk n. quiet keys (psa_raw_key_agreement P a i pk n)) \<and>
     (\<forall>a m n. quiet keys (psa_hash_compute P a m n)) \<and>
     quiet keys (mbedtls_pk_setup E) \<and> quiet keys (mbedtls_ecp_group_load E)"

named_theorems psa_quiet \<open>calls that leave the key store alone\<close>
named_theorems psa_owns \<open>functions that leave the key store as it was or destroy the key they own\<close>
named_theorems psa_law_owns \<open>calls of the library that do so under the law of the store\<close>

lemma key_store_quiet [psa_quiet]:
  assumes "key_store_law P E keys"
  shows "quiet keys (psa_crypto_init P)"
    "quiet keys (psa_export_key P i n)" "quiet keys (psa_export_public_key P i n)"
    "quiet keys (psa_aead_encrypt P i a nc ad m n)" "quiet keys (psa_aead_decrypt P i a nc ad m n)"
    "quiet keys (psa_sign_message P i a m n)" "quiet keys (psa_mac_compute P i a m n)"
    "quiet keys (psa_verify_message P i a m sg)" "quiet keys (psa_raw_key_agreement P a i pk n)"
    "quiet keys (psa_hash_compute P a m n)" "quiet keys (mbedtls_pk_setup E)" "quiet keys (mbedtls_ecp_group_load E)"
  using assms by (simp_all add: key_store_law_def)

lemma quiet_expected [psa_quiet]: "quiet keys (expected b)"
  by (simp add: quiet_def expected_def)

section \<open>Owning a key\<close>

text \<open>\<open>leaves_keys\<close>: the store is afterwards as before.  \<open>closes i\<close>: started with one more key \<open>i\<close>, the
  function destroys it; \<open>passes i\<close>: it destroys it unless it succeeds.\<close>

definition leaves_keys :: "('s \<Rightarrow> key_store) \<Rightarrow> ('s, 'a) act \<Rightarrow> bool" where
  "leaves_keys keys m \<longleftrightarrow> (\<forall>s. fst (m s) \<noteq> Undef \<longrightarrow> keys (snd (m s)) = keys s)"

definition closes :: "('s \<Rightarrow> key_store) \<Rightarrow> key_id \<Rightarrow> ('s, 'a) act \<Rightarrow> bool" where
  "closes keys i m \<longleftrightarrow> (\<forall>s K v. i \<noteq> 0 \<and> K i = None \<and> keys s = K(i \<mapsto> v) \<and> fst (m s) \<noteq> Undef \<longrightarrow> keys (snd (m s)) = K)"

definition passes :: "('s \<Rightarrow> key_store) \<Rightarrow> key_id \<Rightarrow> ('s, 'a) act \<Rightarrow> bool" where
  "passes keys i m \<longleftrightarrow> (\<forall>s K v. i \<noteq> 0 \<and> K i = None \<and> keys s = K(i \<mapsto> v) \<longrightarrow>
     (case m s of (Ok a, s1) \<Rightarrow> keys s1 = K(i \<mapsto> v) | (Fail e, s1) \<Rightarrow> keys s1 = K | (Undef, s1) \<Rightarrow> True))"

lemma leaves_keysD: "leaves_keys keys m \<Longrightarrow> m s = (r, s1) \<Longrightarrow> r \<noteq> Undef \<Longrightarrow> keys s1 = keys s"
  by (auto simp: leaves_keys_def dest: spec [of _ s])

lemma closesD:
  "closes keys i m \<Longrightarrow> i \<noteq> 0 \<Longrightarrow> K i = None \<Longrightarrow> keys s = K(i \<mapsto> v) \<Longrightarrow> m s = (r, s1) \<Longrightarrow> r \<noteq> Undef \<Longrightarrow> keys s1 = K"
  unfolding closes_def by (metis fst_conv snd_conv)

lemma passesD:
  "passes keys i m \<Longrightarrow> i \<noteq> 0 \<Longrightarrow> K i = None \<Longrightarrow> keys s = K(i \<mapsto> v) \<Longrightarrow>
   (case m s of (Ok a, s1) \<Rightarrow> keys s1 = K(i \<mapsto> v) | (Fail e, s1) \<Rightarrow> keys s1 = K | (Undef, s1) \<Rightarrow> True)"
  unfolding passes_def by (drule spec [of _ s], drule spec [of _ K], drule spec [of _ v]) simp

lemma leaves_keysI: "(\<And>s r s1. m s = (r, s1) \<Longrightarrow> r \<noteq> Undef \<Longrightarrow> keys s1 = keys s) \<Longrightarrow> leaves_keys keys m"
  unfolding leaves_keys_def by (metis prod.collapse)

lemma closesI:
  "(\<And>s K v r s1. i \<noteq> 0 \<Longrightarrow> K i = None \<Longrightarrow> keys s = K(i \<mapsto> v) \<Longrightarrow> m s = (r, s1) \<Longrightarrow> r \<noteq> Undef \<Longrightarrow> keys s1 = K) \<Longrightarrow>
   closes keys i m"
  unfolding closes_def by (metis prod.collapse)

lemma leaves_keys_liftS [psa_owns]: "leaves_keys keys (liftS r)"
  by (simp add: leaves_keys_def liftS_def)

lemma leaves_keys_TRYS [psa_owns]:
  assumes "leaves_keys keys m" "\<And>a. leaves_keys keys (f a)"
  shows "leaves_keys keys (TRYS m f)"
proof (rule leaves_keysI)
  fix s r s1 assume run: "TRYS m f s = (r, s1)" "r \<noteq> Undef"
  obtain q s2 where m: "m s = (q, s2)" by (cases "m s")
  show "keys s1 = keys s"
    using run m leaves_keysD [OF assms(1) m] leaves_keysD [OF assms(2)]
    by (cases q) (force simp: TRYS_def)+
qed

lemma leaves_keys_success [psa_owns]:
  assumes "quiet keys x" "\<And>a. leaves_keys keys (f a)"
  shows "leaves_keys keys (TRY_EXPECT_SUCCESS x f)"
proof (rule leaves_keysI)
  fix s r s1 assume run: "TRY_EXPECT_SUCCESS x f s = (r, s1)" "r \<noteq> Undef"
  obtain b a s2 where x: "x s = ((b, a), s2)" by (metis prod.collapse)
  then have "keys s2 = keys s" using assms(1) by (auto simp: quiet_def dest: spec [of _ s])
  then show "keys s1 = keys s"
    using run x leaves_keysD [OF assms(2)] by (force simp: TRY_EXPECT_SUCCESS_def split: if_splits)
qed

lemma closes_lift_then [psa_owns]:
  "(\<And>e. r \<noteq> Fail e) \<Longrightarrow> (\<And>a. closes keys i (f a)) \<Longrightarrow> closes keys i (TRYS (liftS r) f)"
  unfolding closes_def by (cases r) (auto simp: TRYS_liftS)

lemma passes_lift_then [psa_owns]:
  "(\<And>e. r \<noteq> Fail e) \<Longrightarrow> (\<And>a. passes keys i (f a)) \<Longrightarrow> passes keys i (TRYS (liftS r) f)"
  unfolding passes_def by (cases r) (auto simp: TRYS_liftS)

lemma passes_liftS [psa_owns]: "(\<And>e. r \<noteq> Fail e) \<Longrightarrow> passes keys i (liftS r)"
  by (cases r) (auto simp: passes_def liftS_def)

lemma passes_then_closes [psa_owns]:
  assumes "passes keys i m" "\<And>a. closes keys i (f a)"
  shows "closes keys i (TRYS m f)"
proof (rule closesI)
  fix s K v r s1
  assume k: "i \<noteq> 0" "K i = None" "keys s = K(i \<mapsto> v)" and run: "TRYS m f s = (r, s1)" "r \<noteq> Undef"
  obtain q s2 where m: "m s = (q, s2)" by (cases "m s")
  note p = passesD [where K = K and s = s, OF assms(1) k]
  show "keys s1 = K"
  proof (cases q)
    case (Ok a)
    with p m have k2: "keys s2 = K(i \<mapsto> v)" by simp
    from closesD [where K = K and s = s2, OF assms(2) k(1,2) k2] run m Ok show ?thesis by (simp add: TRYS_def)
  qed (use run m p in \<open>auto simp: TRYS_def\<close>)
qed

text \<open>Calls of the library with the key.\<close>

lemma destroy_key:
  assumes "key_store_law P E keys" "K i = None" "keys s = K(i \<mapsto> v)"
  shows "\<exists>s1. psa_destroy_key P i s = ((True, ()), s1) \<and> keys s1 = K"
proof -
  obtain b s1 where d: "psa_destroy_key P i s = ((b, ()), s1)" by (metis (full_types) old.unit.exhaust prod.collapse)
  moreover have "keys s i \<noteq> None" using assms(3) by simp
  moreover have "destroys_keys keys (psa_destroy_key P)" using assms(1) by (simp add: key_store_law_def)
  ultimately have "b \<and> keys s1 = (keys s)(i := None)" unfolding destroys_keys_def by blast
  then show ?thesis using d assms(2,3) by (auto simp: fun_upd_idem)
qed

lemma closes_finish [psa_law_owns]: "key_store_law P E keys \<Longrightarrow> closes keys i (psa_finish P i r)"
  by (rule closesI, drule (2) destroy_key) (auto simp: psa_finish_def TRY_EXPECT_SUCCESS_def liftS_def)

lemma closes_cleanup [psa_law_owns]: "key_store_law P E keys \<Longrightarrow> closes keys i (psa_cleanup P i r)"
  using closes_finish [of P E keys i r]
  by (auto simp: psa_cleanup_def PSA_KEY_HANDLE_INIT_def closes_def)

lemma quiet_call:
  assumes "quiet keys x"
  obtains b a s1 where "x s = ((b, a), s1)" "keys s1 = keys s"
  using assms by (metis prod.collapse quiet_def)

lemma closes_or_cleanup [psa_law_owns]:
  assumes "key_store_law P E keys" "quiet keys x" "\<And>a. closes keys i (f a)"
  shows "closes keys i (OR_CLEANUP P i x f)"
proof (rule closesI)
  fix s K v r s1
  assume k: "i \<noteq> 0" "K i = None" "keys s = K(i \<mapsto> v)" and run: "OR_CLEANUP P i x f s = (r, s1)" "r \<noteq> Undef"
  obtain b a s2 where x: "x s = ((b, a), s2)" "keys s2 = keys s" by (rule quiet_call [OF assms(2)])
  with k have k2: "keys s2 = K(i \<mapsto> v)" by simp
  show "keys s1 = K"
    using run x closesD [where K = K and s = s2, OF assms(3) k(1,2) k2]
      closesD [where K = K and s = s2, OF closes_cleanup [OF assms(1)] k(1,2) k2]
    by (cases b) (auto simp: OR_CLEANUP_def)
qed

lemma closes_try [psa_law_owns]:
  assumes "key_store_law P E keys" "quiet keys x" "\<And>a. closes keys i (f a)"
  shows "closes keys i (TRY_EXPECT_PSA P (\<lambda>_. i) e x f)"
proof (rule closesI)
  fix s K v r s1
  assume k: "i \<noteq> 0" "K i = None" "keys s = K(i \<mapsto> v)"
    and run: "TRY_EXPECT_PSA P (\<lambda>_. i) e x f s = (r, s1)" "r \<noteq> Undef"
  obtain b a s2 where x: "x s = ((b, a), s2)" "keys s2 = keys s" by (rule quiet_call [OF assms(2)])
  with k have k2: "keys s2 = K(i \<mapsto> v)" by simp
  obtain s3 where "psa_destroy_key P i s2 = ((True, ()), s3)" "keys s3 = K"
    using destroy_key [OF assms(1) k(2) k2] by blast
  then show "keys s1 = K"
    using run x k k2 closesD [where K = K and s = s2, OF assms(3) k(1,2) k2]
    by (cases b) (auto simp: TRY_EXPECT_PSA_def PSA_KEY_HANDLE_INIT_def)
qed

lemma passes_try [psa_law_owns]:
  assumes "key_store_law P E keys" "quiet keys x" "\<And>a. passes keys i (f a)"
  shows "passes keys i (TRY_EXPECT_PSA P (\<lambda>_. i) e x f)"
  unfolding passes_def
proof (intro allI impI, elim conjE)
  fix s K v
  assume k: "i \<noteq> 0" "K i = None" "keys s = K(i \<mapsto> v)"
  obtain b a s2 where x: "x s = ((b, a), s2)" "keys s2 = keys s" by (rule quiet_call [OF assms(2)])
  with k have k2: "keys s2 = K(i \<mapsto> v)" by simp
  obtain s3 where "psa_destroy_key P i s2 = ((True, ()), s3)" "keys s3 = K"
    using destroy_key [OF assms(1) k(2) k2] by blast
  then show "case TRY_EXPECT_PSA P (\<lambda>_. i) e x f s of (Ok a, s1) \<Rightarrow> keys s1 = K(i \<mapsto> v)
      | (Fail e, s1) \<Rightarrow> keys s1 = K | (Undef, s1) \<Rightarrow> True"
    using x k k2 passesD [where K = K and s = s2, OF assms(3) k(1,2) k2]
    by (cases b) (auto simp: TRY_EXPECT_PSA_def PSA_KEY_HANDLE_INIT_def)
qed

lemmas closes_call [psa_law_owns] = closes_try [where e = unexpected_result_from_ext_lib, folded PSA_CALL_def]
lemmas passes_call [psa_law_owns] = passes_try [where e = unexpected_result_from_ext_lib, folded PSA_CALL_def]

lemma leaves_keys_new:
  assumes "key_store_law P E keys" "adds_key keys Q attr x" "\<And>i. closes keys i (f i)"
  shows "leaves_keys keys (TRY_EXPECT_PSA P (\<lambda>i. i) e x f)"
proof (rule leaves_keysI)
  fix s r s1 assume run: "TRY_EXPECT_PSA P (\<lambda>i. i) e x f s = (r, s1)" "r \<noteq> Undef"
  obtain b i s2 where x: "x s = ((b, i), s2)" by (metis prod.collapse)
  with assms(2) have new: "if b then i \<noteq> 0 \<and> keys s i = None \<and> (\<exists>k. Q k \<and> keys s2 = (keys s)(i \<mapsto> (attr, k)))
      else i = 0 \<and> keys s2 = keys s" unfolding adds_key_def by blast
  show "keys s1 = keys s"
  proof (cases b)
    case True
    with new obtain k where k: "i \<noteq> 0" "keys s i = None" "keys s2 = (keys s)(i \<mapsto> (attr, k))" by auto
    from closesD [where K = "keys s" and s = s2, OF assms(3) k] run x True show ?thesis by (simp add: TRY_EXPECT_PSA_def)
  next
    case False
    then show ?thesis using new run x by (auto simp: TRY_EXPECT_PSA_def PSA_KEY_HANDLE_INIT_def)
  qed
qed

lemma leaves_keys_init [psa_law_owns]:
  assumes "key_store_law P E keys" "\<And>a. leaves_keys keys (f a)"
  shows "leaves_keys keys (TRY_EXPECT_PSA P (\<lambda>_. PSA_KEY_HANDLE_INIT) e (psa_crypto_init P) f)"
proof (rule leaves_keysI)
  fix s r s1
  assume run: "TRY_EXPECT_PSA P (\<lambda>_. PSA_KEY_HANDLE_INIT) e (psa_crypto_init P) f s = (r, s1)" "r \<noteq> Undef"
  obtain b a s2 where x: "psa_crypto_init P s = ((b, a), s2)" "keys s2 = keys s"
    by (rule quiet_call [OF key_store_quiet(1) [OF assms(1)]])
  then show "keys s1 = keys s"
    using run leaves_keysD [OF assms(2)] by (cases b) (force simp: TRY_EXPECT_PSA_def)+
qed

lemma leaves_keys_generate [psa_law_owns]:
  assumes "key_store_law P E keys" "\<And>i. closes keys i (f i)"
  shows "leaves_keys keys (TRY_EXPECT_PSA P (\<lambda>i. i) e (psa_generate_key P attr) f)"
proof -
  have "adds_key keys (\<lambda>_. True) attr (psa_generate_key P attr)" using assms(1) by (simp add: key_store_law_def)
  from leaves_keys_new [OF assms(1) this assms(2)] show ?thesis .
qed

lemma leaves_keys_with [psa_law_owns]:
  assumes "key_store_law P E keys" "\<And>i. closes keys i (f i)"
  shows "leaves_keys keys (with_psa_key P attr key f)"
proof -
  have "adds_key keys (\<lambda>k. k = key) attr (psa_import_key P attr key)" using assms(1) by (simp add: key_store_law_def)
  from leaves_keys_new [OF assms(1) this assms(2)] show ?thesis
    unfolding with_psa_key_def by (intro leaves_keys_init [OF assms(1)])
qed

section \<open>The wrappers\<close>

lemma decompress_not_Fail [simp]: "mbedtls_ecp_decompress M grp input output osize \<noteq> Fail e"
  by (auto simp: mbedtls_ecp_decompress_def Let_def TRY_eq_Fail split: sum.splits)

lemma passes_expand_loop:
  assumes "key_store_law P E keys"
  shows "passes keys i (hkdf_expand_loop_psa P i combo_len out_len n r combo tmp_out offset out)"
  by (induction n arbitrary: r combo tmp_out offset out)
    (auto intro!: psa_owns psa_law_owns [OF assms] key_store_quiet [OF assms])

lemma leaves_keys_wrappers:
  assumes "key_store_law P E keys"
  shows "leaves_keys keys (aead_psa P op inb key nonce aad out_len tag_len)"
    "leaves_keys keys (sign_psa P compact alg sk pk msg)"
    "leaves_keys keys (verify_psa P compact alg pk msg sgnt)"
    "leaves_keys keys (hkdf_extract_psa P alg salt ikm out)"
    "leaves_keys keys (hkdf_expand_psa P alg prk info out out_len)"
    "leaves_keys keys (hash_psa P alg msg)"
    "leaves_keys keys (shared_secret_derive_psa P M E compact buf alg sk pk)"
    "leaves_keys keys (ephemeral_dh_key_gen_psa P compact extended_seed alg seed old)"
proof -
  note rules = psa_law_owns [OF assms] key_store_quiet [OF assms] quiet_expected psa_owns
  show "leaves_keys keys (aead_psa P op inb key nonce aad out_len tag_len)"
    unfolding aead_psa_def Let_def by (auto intro!: rules split: if_splits)
  show "leaves_keys keys (sign_psa P compact alg sk pk msg)"
    unfolding sign_psa_def Let_def by (auto intro!: rules)
  show "leaves_keys keys (hash_psa P alg msg)"
    unfolding hash_psa_def by (auto intro!: rules)
  show "leaves_keys keys (hkdf_extract_psa P alg salt ikm out)"
    unfolding hkdf_extract_psa_def by (auto intro!: rules)
  show "leaves_keys keys (hkdf_expand_psa P alg prk info out out_len)"
    unfolding hkdf_expand_psa_def Let_def by (auto intro!: rules passes_then_closes passes_expand_loop [OF assms])
  show "leaves_keys keys (shared_secret_derive_psa P M E compact buf alg sk pk)"
    unfolding shared_secret_derive_psa_def Let_def
    by (auto intro!: rules split: option.split bool.split sum.split)
  show "leaves_keys keys (ephemeral_dh_key_gen_psa P compact extended_seed alg seed old)"
    unfolding ephemeral_dh_key_gen_psa_def Let_def
    by (auto intro!: rules split: option.split prod.split)
  show "leaves_keys keys (verify_psa P compact alg pk msg sgnt)"
  proof -
    have "closes keys i (\<lambda>s. case psa_verify_message P i a m sg s of ((b, _), s1) \<Rightarrow> psa_finish P i (Ok b) s1)"
      for i a m sg
    proof (rule closesI)
      fix s K v r s1
      assume k: "i \<noteq> 0" "K i = None" "keys s = K(i \<mapsto> v)"
        and run: "(case psa_verify_message P i a m sg s of ((b, _), s1) \<Rightarrow> psa_finish P i (Ok b) s1) = (r, s1)"
          "r \<noteq> Undef"
      obtain b u s2 where x: "psa_verify_message P i a m sg s = ((b, u), s2)" "keys s2 = keys s"
        by (rule quiet_call [OF key_store_quiet(8) [OF assms]])
      with k have k2: "keys s2 = K(i \<mapsto> v)" by simp
      show "keys s1 = K"
        using closesD [where K = K and s = s2, OF closes_finish [OF assms] k(1,2) k2] run x by simp
    qed
    then show ?thesis
      unfolding verify_psa_def Let_def by (auto intro!: rules split: option.split bool.split)
  qed
qed

section \<open>A library with one slot\<close>

text \<open>It stores one key under the identifier 1; its MAC is that of Hkdf_Correct.\<close>

type_synonym slot = "(psa_key_attributes \<times> bytes) option"

definition slot_keys :: "slot \<Rightarrow> key_store" where
  "slot_keys s = (\<lambda>i. if i = 1 then s else None)"

definition slot_add :: "psa_key_attributes \<Rightarrow> bytes \<Rightarrow> (slot, key_id) psa_call" where
  "slot_add attr key s = (if s = None \<and> key \<noteq> [] then ((True, 1), Some (attr, key)) else ((False, 0), s))"

definition slot_use :: "(bytes \<Rightarrow> bytes) \<Rightarrow> (slot, bytes) psa_call" where
  "slot_use f s = ((s \<noteq> None, case s of Some (attr, key) \<Rightarrow> f key | None \<Rightarrow> []), s)"

definition slot_psa :: "slot psa" where
  "slot_psa = \<lparr>
     psa_crypto_init = (\<lambda>s. ((True, ()), s)),
     psa_import_key = slot_add,
     psa_generate_key = (\<lambda>attr. slot_add attr (replicate 32 7)),
     psa_destroy_key = (\<lambda>i s. ((i = 1 \<and> s \<noteq> None, ()), if i = 1 then None else s)),
     psa_export_key = (\<lambda>i n. slot_use (\<lambda>key. key)),
     psa_export_public_key = (\<lambda>i n. slot_use (\<lambda>key. 4 # replicate 31 0 @ [2] @ replicate 31 0 @ [1])),
     psa_aead_encrypt = (\<lambda>i alg nonce ad m n. slot_use (\<lambda>key. m @ replicate (n - length m) 0)),
     psa_aead_decrypt = (\<lambda>i alg nonce ad m n. slot_use (\<lambda>key. take n m)),
     psa_sign_message = (\<lambda>i alg m n. slot_use (\<lambda>key. replicate n 1)),
     psa_verify_message = (\<lambda>i alg m sgnt s. ((s \<noteq> None, ()), s)),
     psa_mac_compute = (\<lambda>i alg m n. slot_use (\<lambda>key. collect_hmac key m)),
     psa_raw_key_agreement = (\<lambda>alg i point n. slot_use (\<lambda>key. replicate 32 9)),
     PSA_RAW_KEY_AGREEMENT_OUTPUT_SIZE = (\<lambda>ty bits. 32),
     psa_hash_compute = (\<lambda>alg m n s. ((True, take n (m @ replicate n 0)), s))\<rparr>"

definition slot_ecp :: "int \<Rightarrow> int \<Rightarrow> slot mbedtls_ecp" where
  "slot_ecp p b = \<lparr>mbedtls_pk_setup = (\<lambda>s. ((True, ()), s)),
     mbedtls_ecp_group_load = (\<lambda>s. ((True, \<lparr>grp_P = p, grp_A = None, grp_B = b\<rparr>), s))\<rparr>"

lemma slot_law: "key_store_law slot_psa (slot_ecp p b) slot_keys"
  by (simp add: key_store_law_def adds_key_def destroys_keys_def quiet_def slot_psa_def slot_ecp_def slot_keys_def
      slot_add_def slot_use_def fun_eq_iff split: if_splits)

section \<open>Property\<close>

text \<open>C12: In the configuration MBEDTLS every function of \<open>crypto_wrapper.c\<close> leaves the key store of the
  PSA library as it found it, whatever fails: the key it imports or generates is destroyed on every
  path.\<close>

theorem psa_wrappers_leave_no_key:
  assumes "key_store_law P E keys"
  shows "leaves_keys keys (aead_psa P op inb key nonce aad out_len tag_len) \<and>
    leaves_keys keys (sign_psa P compact alg sk pk msg) \<and>
    leaves_keys keys (verify_psa P compact alg pk msg sgnt) \<and>
    leaves_keys keys (hkdf_extract_psa P alg salt ikm out) \<and>
    leaves_keys keys (hkdf_expand_psa P alg prk info out out_len) \<and>
    leaves_keys keys (hkdf_sha_256_psa P ikm salt info out) \<and>
    leaves_keys keys (shared_secret_derive_psa P M E compact buf alg sk pk) \<and>
    leaves_keys keys (ephemeral_dh_key_gen_psa P compact extended_seed alg seed old) \<and>
    leaves_keys keys (hash_psa P alg msg)"
  using leaves_keys_wrappers [OF assms]
  by (simp add: hkdf_sha_256_psa_def leaves_keys_TRYS)

theorem psa_wrappers_leave_no_key_witness:
  "slot_keys (snd (sign_psa slot_psa None ES256 [1, 2] [] [3] None)) = slot_keys None"
proof -
  have "leaves_keys slot_keys (sign_psa slot_psa None ES256 [1, 2] [] [3])"
    by (rule psa_wrappers_leave_no_key [OF slot_law, THEN conjunct2, THEN conjunct1])
  moreover have "fst (sign_psa slot_psa None ES256 [1, 2] [] [3] None) = Ok (replicate 64 1)"
    by code_simp
  ultimately show ?thesis by (simp add: leaves_keys_def)
qed

end
