(* ===== verification/Psa_Hkdf.thy ===== *)
theory Psa_Hkdf
  imports Psa_Keys
begin

text \<open>
  The key derivation of \<^verbatim>\<open>crypto_wrapper.c\<close> in the configuration MBEDTLS is that of RFC 5869, for
  all lengths of the output the RFC allows.
\<close>

section \<open>The library\<close>

text \<open>What the code relies on: the library can be initialised, takes one more key as long as \<open>room\<close>
  says so, computes the HMAC under a stored key, and destroys it.\<close>

definition hmac_import :: "'s psa \<Rightarrow> ('s \<Rightarrow> key_store) \<Rightarrow> (key_store \<Rightarrow> bool) \<Rightarrow> bool" where
  "hmac_import P keys room \<longleftrightarrow>
     (\<forall>s. \<exists>s1. psa_crypto_init P s = ((True, ()), s1) \<and> keys s1 = keys s) \<and>
     (\<forall>s key. room (keys s) \<and> key \<noteq> [] \<longrightarrow>
        (\<exists>i s1. psa_import_key P hmac_attributes key s = ((True, i), s1) \<and> keys s1 i = Some (hmac_attributes, key)))"

definition psa_hmac_law :: "'s psa \<Rightarrow> ('s \<Rightarrow> key_store) \<Rightarrow> (bytes \<Rightarrow> bytes \<Rightarrow> bytes) \<Rightarrow> bool" where
  "psa_hmac_law P keys HM \<longleftrightarrow> (\<forall>key m. length (HM key m) = 32) \<and>
     (\<forall>s i key m. keys s i = Some (hmac_attributes, key) \<longrightarrow>
        (\<exists>s1. psa_mac_compute P i PSA_ALG_HMAC_SHA_256 m 32 s = ((True, HM key m), s1) \<and> keys s1 = keys s)) \<and>
     (\<forall>s i. keys s i \<noteq> None \<longrightarrow> (\<exists>s1. psa_destroy_key P i s = ((True, ()), s1)))"

lemma with_hmac_key:
  assumes "hmac_import P keys room" "room (keys s)" "key \<noteq> []"
  shows "\<exists>i s1. (\<forall>f. with_psa_key P hmac_attributes key f s = f i s1) \<and>
    keys s1 i = Some (hmac_attributes, key)"
proof -
  obtain s1 where i: "psa_crypto_init P s = ((True, ()), s1)" "keys s1 = keys s"
    using assms(1) unfolding hmac_import_def by blast
  moreover have "room (keys s1)" using i(2) assms(2) by simp
  then obtain i s2 where "psa_import_key P hmac_attributes key s1 = ((True, i), s2)"
      "keys s2 i = Some (hmac_attributes, key)"
    using assms(1,3) unfolding hmac_import_def by blast
  ultimately show ?thesis by (intro exI [of _ i] exI [of _ s2]) (simp add: with_psa_key_def TRY_EXPECT_PSA_def)
qed

lemma call_hmac:
  assumes "psa_hmac_law P keys HM" "keys s i = Some (hmac_attributes, key)"
  shows "\<exists>s1. (\<forall>f. PSA_CALL P i (psa_mac_compute P i PSA_ALG_HMAC_SHA_256 m 32) f s = f (HM key m) s1) \<and>
    keys s1 i = Some (hmac_attributes, key)"
proof -
  obtain s1 where "psa_mac_compute P i PSA_ALG_HMAC_SHA_256 m 32 s = ((True, HM key m), s1)" "keys s1 = keys s"
    using assms unfolding psa_hmac_law_def by blast
  then show ?thesis using assms(2) by (intro exI [of _ s1]) (simp add: PSA_CALL_def TRY_EXPECT_PSA_def)
qed

lemma finish_hmac:
  assumes "psa_hmac_law P keys HM" "keys s i = Some a"
  shows "fst (psa_finish P i r s) = r"
proof -
  obtain s1 where "psa_destroy_key P i s = ((True, ()), s1)"
    using assms unfolding psa_hmac_law_def by blast
  then show ?thesis by (simp add: psa_finish_def TRY_EXPECT_SUCCESS_def liftS_def)
qed

section \<open>Extract\<close>

lemma hkdf_extract_psa_eq:
  assumes "hmac_import P keys room" "psa_hmac_law P keys HM" "room (keys s)" "length out = 32"
  shows "fst (hkdf_extract_psa P SHA_256 salt ikm out s) = Ok (HM (if salt = [] then replicate 32 0 else salt) ikm)"
proof -
  define key where "key = (if salt = [] then replicate 32 0 else salt)"
  have "key \<noteq> []" by (simp add: key_def)
  then obtain i s1 where w: "\<forall>f :: key_id \<Rightarrow> (_, bytes) act. with_psa_key P hmac_attributes key f s = f i s1"
      and i: "keys s1 i = Some (hmac_attributes, key)"
    using with_hmac_key [OF assms(1,3), of key] by blast
  obtain s2 where c: "\<forall>f :: bytes \<Rightarrow> (_, bytes) act. PSA_CALL P i (psa_mac_compute P i PSA_ALG_HMAC_SHA_256 ikm 32) f s1 = f (HM key ikm) s2"
      and i2: "keys s2 i = Some (hmac_attributes, key)" using call_hmac [OF assms(2) i, of ikm] by blast
  have "write_mem out 0 (HM key ikm) = Ok (HM key ikm)"
    using assms(2,4) by (simp add: write_mem_def psa_hmac_law_def)
  then show ?thesis
    using finish_hmac [OF assms(2) i2] by (simp add: hkdf_extract_psa_def w c TRYS_liftS flip: key_def)
qed

section \<open>Expand\<close>

lemma ucast_of_nat_u32_u8: "(ucast (of_nat n :: u32) :: u8) = of_nat n"
  by (rule bit_word_eqI) (simp add: bit_simps)

lemma unat_push_5: "n \<le> 255 \<Longrightarrow> unat (push_bit 5 (of_nat n :: u32)) = 32 * n"
  by (simp add: push_bit_eq_mult unat_word_ariths)

lemma unat_and_31: "unat (x AND 31 :: u32) = unat x mod 32"
proof -
  have "x AND 31 = take_bit 5 x" by (simp add: take_bit_eq_mask mask_eq_exp_minus_1)
  then have "unat (x AND 31) = take_bit 5 (unat x)" by (simp only: unsigned_take_bit_eq)
  then show ?thesis by (simp add: take_bit_eq_mod)
qed

text \<open>The local array \<^verbatim>\<open>combo\<close>: previous block, information, number of the round, unused rest.\<close>

lemma combo_block: "length t = length a \<Longrightarrow> write_mem (a @ r) 0 t = Ok (t @ r)"
  by (simp add: write_mem_def)

lemma combo_number:
  "n = length t + length info + 1 \<Longrightarrow> write_mem (t @ info @ b # rest) (int n - 1) [x] = Ok (t @ info @ x # rest)"
  by (simp add: write_mem_def nat_add_distrib)

lemma combo_read:
  assumes "n = length t + length info + 1"
  shows "read_mem (advance (Some (t @ info @ x # rest)) 0) (n - 0) = Ok (t @ info @ [x])"
    "length t = 32 \<Longrightarrow> read_mem (advance (Some (t @ info @ x # rest)) 32) (n - 32) = Ok (info @ [x])"
  using assms by (simp_all add: read_mem_def)

lemma expand_psa_loop:
  assumes law: "psa_hmac_law P keys HM" and L: "unat out_len = L" "N = (L + 31) div 32" "N \<le> 255"
  shows "keys s i = Some (hmac_attributes, prk) \<Longrightarrow> k + n = N \<Longrightarrow> expand_inv HM prk info L k t out \<Longrightarrow>
    length t = 32 \<Longrightarrow> length a = 32 \<Longrightarrow>
    \<exists>s1. hkdf_expand_loop_psa P i (33 + length info) out_len n (of_nat (Suc k)) (a @ info @ b # rest) t
        (if k = 0 then 32 else 0) out s = (Ok (rfc5869_expand HM prk info L), s1) \<and>
      keys s1 i = Some (hmac_attributes, prk)"
proof (induction n arbitrary: s k t out a b)
  case 0
  then show ?case using expand_inv_end [of HM prk info L N t out] L(2) by (simp add: liftS_def)
next
  case (Suc n)
  have len: "length (HM k m) = 32" for k m using law by (simp add: psa_hmac_law_def)
  let ?r = "of_nat (Suc k) :: u8" and ?T = "rfc5869_T HM prk info (Suc k)"
  have kL: "32 * k < L" using Suc.prems(2) L(2) by linarith
  have kN: "Suc k \<le> 255" using Suc.prems(2) L(3) by simp
  define off :: nat where "off = (if k = 0 then 32 else 0)"
  define msg where "msg = (if k = 0 then [] else t) @ info @ [?r]"
  have T: "HM prk msg = ?T" using Suc.prems(3) by (auto simp: expand_inv_def msg_def)
  have msg: "read_mem (advance (Some (t @ info @ ?r # rest)) off) (33 + length info - off) = Ok msg"
    unfolding off_def msg_def using combo_read [of "33 + length info" t info ?r rest] Suc.prems(4) by (simp del: of_nat_Suc)
  obtain s1 where c: "\<forall>f :: bytes \<Rightarrow> (_, bytes) act. PSA_CALL P i (psa_mac_compute P i PSA_ALG_HMAC_SHA_256 msg 32) f s = f ?T s1"
      and i1: "keys s1 i = Some (hmac_attributes, prk)"
    using call_hmac [OF law Suc.prems(1), of msg] unfolding T by blast
  have u: "unat (push_bit 5 (of_nat (Suc k) :: u32)) = 32 * Suc k"
    "unat (push_bit 5 (of_nat (Suc k) - 1 :: u32)) = 32 * k"
    using unat_push_5 [of "Suc k"] unat_push_5 [of k] kN by simp_all
  have n: "(if out_len < push_bit 5 (of_nat (Suc k)) then unat (out_len AND 31) else 32) = min 32 (L - 32 * k)"
    unfolding word_less_nat_alt u(1) unat_and_31 L(1) by (rule last_block_size [OF kL])
  obtain out' where w: "write_mem out (32 * int k) (take (min 32 (L - 32 * k)) ?T) = Ok out'"
    and inv: "expand_inv HM prk info L (Suc k) ?T out'"
    using expand_inv_write [OF len kL Suc.prems(3) refl] by blast
  have next_round: "of_nat (Suc k) + 1 = (of_nat (Suc (Suc k)) :: u32)" by simp
  have "length ?T = 32" using len by simp
  have "hkdf_expand_loop_psa P i (33 + length info) out_len (Suc n) (of_nat (Suc k)) (a @ info @ b # rest) t off out s =
      hkdf_expand_loop_psa P i (33 + length info) out_len n (of_nat (Suc (Suc k))) (t @ info @ ?r # rest) ?T 0 out' s1"
    using combo_block [OF trans [OF Suc.prems(4) Suc.prems(5) [symmetric]]]
      combo_number [of "33 + length info" t info b rest] combo_block [of ?T t "[]"]
      msg c w n u(2) \<open>length ?T = 32\<close> Suc.prems(4) next_round
    by (simp del: of_nat_Suc rfc5869_T.simps add: TRYS_liftS ucast_of_nat_u32_u8)
  with Suc.IH [OF i1 _ inv \<open>length ?T = 32\<close> Suc.prems(4), of ?r] Suc.prems(2)
  show ?case unfolding off_def by simp
qed

lemma combo_len_fits:
  assumes "length info + 33 < 2 ^ 32"
  defines "combo_len \<equiv> 32 + ucast (of_nat (length info) :: u32) + 1 :: u64"
  shows "unat combo_len = 33 + length info"
    "check_buffer_size (of_nat INFO_DEFAULT_SIZE) (ucast combo_len) = Ok () \<longleftrightarrow> 33 + length info \<le> INFO_DEFAULT_SIZE"
proof -
  have l: "length info < 4294967296" using assms(1) by simp
  have "combo_len = of_nat (33 + length info)"
    using l by (simp add: combo_len_def ucast_as_of_nat)
  then show u: "unat combo_len = 33 + length info" using l by (simp add: unat_of_nat del: of_nat_add)
  have "unat (ucast combo_len :: u32) = 33 + length info"
    using assms(1) unfolding ucast_as_of_nat [of combo_len] u by (intro unat_of_nat_u32) simp
  then show "check_buffer_size (of_nat INFO_DEFAULT_SIZE) (ucast combo_len) = Ok () \<longleftrightarrow> 33 + length info \<le> INFO_DEFAULT_SIZE"
    by (simp add: check_buffer_size_eq word_le_nat_alt)
qed

lemma hkdf_expand_psa_eq:
  assumes imp: "hmac_import P keys room" "room (keys s)" and law: "psa_hmac_law P keys HM" and prk: "prk \<noteq> []"
    and out: "length out = unat out_len" "unat out_len + 31 < 2 ^ 32" and info: "length info + 33 < 2 ^ 32"
  shows "fst (hkdf_expand_psa P SHA_256 prk info out out_len s) =
    (if 255 * 32 < unat out_len then Fail hkdf_fialed
     else if INFO_DEFAULT_SIZE < length info + 33 then Fail unexpected_result_from_ext_lib
     else Ok (rfc5869_expand HM prk info (unat out_len)))"
proof -
  let ?N = "(unat out_len + 31) div 32"
  have its: "unat ((out_len + 31) div 32) = ?N"
    using out(2) by (simp add: unat_div unat_word_ariths)
  have many: "255 < (out_len + 31) div 32 \<longleftrightarrow> 255 * 32 < unat out_len"
    unfolding word_less_nat_alt its by simp linarith
  obtain i s1 where w: "\<forall>f :: key_id \<Rightarrow> (_, bytes) act. with_psa_key P hmac_attributes prk f s = f i s1"
      and i: "keys s1 i = Some (hmac_attributes, prk)"
    using with_hmac_key [OF imp prk] by blast
  note len = combo_len_fits [OF info]
  show ?thesis
  proof (cases "255 * 32 < unat out_len \<or> INFO_DEFAULT_SIZE < length info + 33")
    case True
    then show ?thesis
      using many len(2) by (auto simp: hkdf_expand_psa_def Let_def w PSA_CALL_def TRY_EXPECT_PSA_def expected_def liftS_def)
  next
    case False
    let ?rest = "replicate (INFO_DEFAULT_SIZE - 33 - length info) 0 :: bytes"
    have rest: "replicate (INFO_DEFAULT_SIZE - 32 - length info) 0 = 0 # ?rest"
    proof -
      have "length info \<le> 1167" using False by simp
      then have "INFO_DEFAULT_SIZE - 32 - length info = Suc (INFO_DEFAULT_SIZE - 33 - length info)"
        unfolding INFO_DEFAULT_SIZE_def by linarith
      then show ?thesis by (metis replicate_Suc)
    qed
    have "write_mem (replicate INFO_DEFAULT_SIZE 0) 32 info = Ok (replicate 32 0 @ info @ 0 # ?rest)"
      using False rest by (simp add: write_mem_def)
    moreover have "\<exists>s2. hkdf_expand_loop_psa P i (33 + length info) out_len ?N (of_nat (Suc 0))
        (replicate 32 0 @ info @ 0 # ?rest) (replicate 32 0) (if 0 = (0 :: nat) then 32 else 0) out s1 =
        (Ok (rfc5869_expand HM prk info (unat out_len)), s2) \<and> keys s2 i = Some (hmac_attributes, prk)"
      by (rule expand_psa_loop [OF law refl refl _ i]) (use False out(1) in \<open>auto simp: expand_inv_0\<close>)
    then obtain s2 where "hkdf_expand_loop_psa P i (33 + length info) out_len ?N 1
        (replicate 32 0 @ info @ 0 # ?rest) (replicate 32 0) 32 out s1 =
        (Ok (rfc5869_expand HM prk info (unat out_len)), s2)" "keys s2 i = Some (hmac_attributes, prk)" by auto
    ultimately show ?thesis
      using False many len finish_hmac [OF law] its
      by (simp add: hkdf_expand_psa_def Let_def w PSA_CALL_def TRY_EXPECT_PSA_def expected_def TRYS_liftS TRYS_run(1))
  qed
qed

section \<open>Property\<close>

lemma slot_hmac_import: "hmac_import slot_psa slot_keys (\<lambda>K. K 1 = None)"
  by (auto simp: hmac_import_def slot_psa_def slot_add_def slot_keys_def)

lemma slot_hmac_law: "psa_hmac_law slot_psa slot_keys collect_hmac"
  using collecting_hmac_law
  by (auto simp: psa_hmac_law_def hmac_law_def slot_psa_def slot_use_def slot_keys_def split: if_splits)

text \<open>C15: In the configuration MBEDTLS \<open>hkdf_expand\<close> computes HKDF-Expand of RFC 5869 for all lengths the
  RFC allows, 255 blocks included, if the information fits into the local array \<open>combo\<close>; otherwise
  it fails.  It agrees with the configuration TINYCRYPT up to 254 blocks.\<close>

theorem hkdf_expand_psa_is_rfc5869:
  assumes "hmac_import P keys room" "room (keys s)" "psa_hmac_law P keys HM" "prk \<noteq> []"
    and "length out = unat out_len" "unat out_len + 31 < 2 ^ 32" "length info + 33 < 2 ^ 32"
  shows "fst (hkdf_expand_psa P SHA_256 prk info out out_len s) =
      (if 255 * 32 < unat out_len then Fail hkdf_fialed
       else if INFO_DEFAULT_SIZE < length info + 33 then Fail unexpected_result_from_ext_lib
       else Ok (rfc5869_expand HM prk info (unat out_len))) \<and>
    (hmac_law T HM \<longrightarrow> unat out_len \<le> 254 * 32 \<longrightarrow> length info + 33 \<le> INFO_DEFAULT_SIZE \<longrightarrow>
      fst (hkdf_expand_psa P SHA_256 prk info out out_len s) = hkdf_expand T SHA_256 prk info out out_len)"
proof -
  have "fst (hkdf_expand_psa P SHA_256 prk info out out_len s) =
      (if 255 * 32 < unat out_len then Fail hkdf_fialed
       else if INFO_DEFAULT_SIZE < length info + 33 then Fail unexpected_result_from_ext_lib
       else Ok (rfc5869_expand HM prk info (unat out_len)))"
    by (rule hkdf_expand_psa_eq [OF assms])
  moreover have "hkdf_expand T SHA_256 prk info out out_len = Ok (rfc5869_expand HM prk info (unat out_len))"
    if "hmac_law T HM" "unat out_len \<le> 254 * 32"
    using hkdf_expand_eq [OF that(1) assms(4-6)] that(2) by simp
  ultimately show ?thesis by simp
qed

theorem hkdf_expand_psa_is_rfc5869_witness:
  "fst (hkdf_expand_psa slot_psa SHA_256 [1] [2, 3] (replicate 40 0) 40 None) =
    Ok ([2, 3, 1, 1] @ replicate 28 0 @ [2, 3, 1, 1] @ replicate 4 0) \<and>
   fst (hkdf_expand_psa slot_psa SHA_256 [1] [2, 3] (replicate 40 0) 40 None) =
    hkdf_expand collecting_tinycrypt SHA_256 [1] [2, 3] (replicate 40 0) 40"
proof -
  have "rfc5869_expand collect_hmac [1] [2, 3] 40 = [2, 3, 1, 1] @ replicate 28 0 @ [2, 3, 1, 1] @ replicate 4 0"
    by code_simp
  then have "fst (hkdf_expand_psa slot_psa SHA_256 [1] [2, 3] (replicate 40 0) 40 None) =
      Ok ([2, 3, 1, 1] @ replicate 28 0 @ [2, 3, 1, 1] @ replicate 4 0)"
    using hkdf_expand_psa_is_rfc5869 [OF slot_hmac_import _ slot_hmac_law, of None "[1]" "replicate 40 0" 40 "[2, 3]",
        THEN conjunct1]
    by (simp add: slot_keys_def)
  moreover have "fst (hkdf_expand_psa slot_psa SHA_256 [1] [2, 3] (replicate 40 0) 40 None) =
      hkdf_expand collecting_tinycrypt SHA_256 [1] [2, 3] (replicate 40 0) 40"
    by (rule hkdf_expand_psa_is_rfc5869 [OF slot_hmac_import _ slot_hmac_law, THEN conjunct2, THEN mp, THEN mp, THEN mp])
      (simp_all add: slot_keys_def collecting_hmac_law)
  ultimately show ?thesis by (rule conjI)
qed

end
