(* ===== verification/Ecp_Point.thy ===== *)
theory Ecp_Point
  imports Psa_Wrapper Complex_Main
begin

text \<open>
  \<^verbatim>\<open>mbedtls_ecp_decompress\<close> of \<^verbatim>\<open>crypto_wrapper.c\<close> finds the point of a compressed key: for a prime
  modulus that is 3 modulo 4, the power it computes is a square root.
\<close>

section \<open>Square roots modulo a prime\<close>

definition prime_modulus :: "nat \<Rightarrow> bool" where
  "prime_modulus p \<longleftrightarrow> 1 < p \<and> (\<forall>k\<in>{1..<p}. coprime p k)"

lemma prime_dvd_binomial:
  assumes "prime_modulus p" "0 < k" "k < p"
  shows "p dvd (p choose k)"
proof -
  have "coprime p k" using assms by (simp add: prime_modulus_def)
  moreover have "p dvd k * (p choose k)" using times_binomial_minus1_eq [OF assms(2), of p] by simp
  ultimately show ?thesis using coprime_dvd_mult_right_iff by blast
qed

lemma fermat_dvd:
  assumes p: "prime_modulus p"
  shows "int p dvd int a ^ p - int a"
proof (induction a)
  case 0
  then show ?case using p by (simp add: prime_modulus_def zero_power)
next
  case (Suc a)
  have p1: "1 < p" using p by (simp add: prime_modulus_def)
  have "(int a + 1) ^ p = (\<Sum>k\<le>p. int (p choose k) * int a ^ k)"
    using binomial_ring [of "int a" 1 p] by simp
  also have "{..p} = insert 0 (insert p {1..<p})" using p1 by auto
  also have "(\<Sum>k\<in>insert 0 (insert p {1..<p}). int (p choose k) * int a ^ k) =
      1 + (int a ^ p + (\<Sum>k\<in>{1..<p}. int (p choose k) * int a ^ k))" using p1 by simp
  finally have e: "(int a + 1) ^ p - (int a + 1) =
      (int a ^ p - int a) + (\<Sum>k\<in>{1..<p}. int (p choose k) * int a ^ k)" by simp
  have "int p dvd (\<Sum>k\<in>{1..<p}. int (p choose k) * int a ^ k)"
    using prime_dvd_binomial [OF p] by (intro dvd_sum dvd_mult2) (auto simp: int_dvd_int_iff)
  then have "int p dvd (int a + 1) ^ p - (int a + 1)" unfolding e by (intro dvd_add Suc)
  then show ?case by (simp add: add.commute)
qed

text \<open>Euler's criterion for a number \<open>y\<close>, as a test.\<close>

definition euler :: "int \<Rightarrow> int \<Rightarrow> bool" where
  "euler p y \<longleftrightarrow> y ^ nat ((p - 1) div 2) mod p \<in> {1, p - 1}"

lemma prime_dvd_product:
  assumes "prime_modulus p" "int p dvd a * b"
  shows "int p dvd a \<or> int p dvd b"
proof (cases "a mod int p = 0")
  case False
  let ?r = "nat (a mod int p)"
  have p1: "1 < p" using assms(1) by (simp add: prime_modulus_def)
  then have r: "0 \<le> a mod int p" "a mod int p < int p" by simp_all
  with False have "?r \<in> {1..<p}" by auto
  then have "coprime p ?r" using assms(1) by (simp add: prime_modulus_def)
  then have "coprime (int p) (a mod int p)" using r(1) by (metis coprime_int_iff int_nat_eq)
  then have "coprime (int p) a" using p1 by simp
  then show ?thesis using assms(2) coprime_dvd_mult_right_iff by blast
qed auto

lemma prime_euler:
  assumes p: "prime_modulus p" "odd p" and y: "0 < y" "y < int p"
  shows "euler (int p) y"
proof -
  let ?q = "(p - 1) div 2" and ?p = "int p"
  have p1: "1 < p" using p by (simp add: prime_modulus_def)
  have q: "2 * ?q = p - 1" "p = Suc (2 * ?q)" using p(2) p1 by (auto elim!: oddE)
  have q': "nat ((?p - 1) div 2) = ?q" using p1 by (simp add: nat_div_distrib nat_diff_distrib)
  have "?p dvd y ^ p - y" using fermat_dvd [OF p(1), of "nat y"] y by simp
  moreover have "y ^ p - y = y * ((y ^ ?q - 1) * (y ^ ?q + 1))"
    by (subst q(2)) (simp add: power_mult power_commutes power2_eq_square algebra_simps mult_2 power_add)
  ultimately have "?p dvd y * ((y ^ ?q - 1) * (y ^ ?q + 1))" by simp
  moreover have "\<not> ?p dvd y" using y by (auto dest: zdvd_imp_le)
  ultimately have "?p dvd y ^ ?q - 1 \<or> ?p dvd y ^ ?q + 1" using prime_dvd_product [OF p(1)] by blast
  then show ?thesis
  proof
    assume "?p dvd y ^ ?q - 1"
    then have "y ^ ?q mod ?p = 1 mod ?p" by (simp add: mod_eq_dvd_iff)
    then show ?thesis using p1 by (simp add: euler_def q')
  next
    assume "?p dvd y ^ ?q + 1"
    then have "y ^ ?q mod ?p = (?p - 1) mod ?p" by (simp add: mod_eq_dvd_iff algebra_simps)
    also have "\<dots> = ?p - 1" using p1 by (intro mod_pos_pos_trivial) simp_all
    finally show ?thesis by (simp add: euler_def q')
  qed
qed

lemma square_root:
  assumes p: "p mod 4 = 3" "0 < y" "y < p" and e: "euler p y" and r: "r mod p = y * y mod p"
  shows "r ^ nat ((p + 1) div 4) mod p \<in> {y, p - y}"
proof -
  define k where "k = nat ((p + 1) div 4)"
  have p4: "p = 4 * int k - 1" "0 < k" using p by (simp_all add: k_def) presburger+
  then have q: "nat ((p - 1) div 2) = 2 * k - 1" by simp
  have "r ^ k mod p = (y * y) ^ k mod p" by (metis r power_mod)
  also have "(y * y) ^ k = y * y ^ (2 * k - 1)"
    using p4(2) by (metis One_nat_def Suc_pred mult_pos_pos power2_eq_square power_Suc power_mult zero_less_numeral)
  also have "\<dots> mod p = y * (y ^ (2 * k - 1) mod p) mod p" by (simp add: mod_mult_right_eq)
  finally have s: "r ^ k mod p = y * (y ^ (2 * k - 1) mod p) mod p" .
  from e consider "y ^ (2 * k - 1) mod p = 1" | "y ^ (2 * k - 1) mod p = p - 1" by (auto simp: euler_def q)
  then show ?thesis
  proof cases
    case 1
    then show ?thesis using s p by (simp add: k_def)
  next
    case 2
    have "y * (p - 1) = (p - y) + (y - 1) * p" by (simp add: algebra_simps)
    then have "y * (p - 1) mod p = (p - y) mod p" by (simp only: mod_mult_self1)
    also have "\<dots> = p - y" using p by (intro mod_pos_pos_trivial) simp_all
    finally show ?thesis using s 2 by (simp add: k_def)
  qed
qed

section \<open>The integers of the library\<close>

definition be_value :: "bytes \<Rightarrow> int" where
  "be_value bs = foldl (\<lambda>v b. 256 * v + uint b) 0 bs"

fun be_bytes :: "nat \<Rightarrow> int \<Rightarrow> bytes" where
  "be_bytes 0 v = []"
| "be_bytes (Suc n) v = be_bytes n (v div 256) @ [of_int v]"

lemma be_bytes_length [simp]: "length (be_bytes n v) = n"
  by (induction n arbitrary: v) simp_all

lemma be_value_bytes: "0 \<le> v \<Longrightarrow> v < 256 ^ n \<Longrightarrow> be_value (be_bytes n v) = v"
proof (induction n arbitrary: v)
  case 0
  then show ?case by (simp add: be_value_def)
next
  case (Suc n)
  then have "be_value (be_bytes n (v div 256)) = v div 256" by (intro Suc.IH) (simp_all add: div_less_iff_less_mult mult.commute)
  moreover have "uint (of_int v :: u8) = v mod 256" by (simp add: uint_word_of_int)
  ultimately show ?case by (simp add: be_value_def)
qed

text \<open>The functions compute what their names say; \<open>mbedtls_mpi_exp_mod\<close> needs an odd modulus.\<close>

definition mpi_law :: "mbedtls_mpi \<Rightarrow> bool" where
  "mpi_law M \<longleftrightarrow>
     (\<forall>p n. 256 ^ n \<le> p \<and> p < 256 ^ Suc n \<longrightarrow> mbedtls_mpi_size M p = Suc n) \<and>
     (\<forall>bs. mbedtls_mpi_read_binary M bs = Some (be_value bs)) \<and>
     (\<forall>a b. mbedtls_mpi_mul_mpi M a b = Some (a * b)) \<and>
     (\<forall>a b. mbedtls_mpi_add_mpi M a b = Some (a + b) \<and> mbedtls_mpi_add_int M a b = Some (a + b)) \<and>
     (\<forall>a b. mbedtls_mpi_sub_mpi M a b = Some (a - b) \<and> mbedtls_mpi_sub_int M a b = Some (a - b)) \<and>
     (\<forall>a n. 0 \<le> a \<longrightarrow> mbedtls_mpi_shift_r M a n = Some (a div 2 ^ n)) \<and>
     (\<forall>a e p. 0 \<le> e \<and> 0 < p \<and> odd p \<longrightarrow> mbedtls_mpi_exp_mod M a e p = Some (a ^ nat e mod p)) \<and>
     (\<forall>a. 0 \<le> a \<longrightarrow> mbedtls_mpi_get_bit M a 0 = odd a) \<and>
     (\<forall>a n. 0 \<le> a \<and> a < 256 ^ n \<longrightarrow> mbedtls_mpi_write_binary M a n = Some (be_bytes n a))"

lemma mpi_lawD:
  assumes "mpi_law M"
  shows "256 ^ n \<le> p \<Longrightarrow> p < 256 ^ Suc n \<Longrightarrow> mbedtls_mpi_size M p = Suc n"
    "mbedtls_mpi_read_binary M bs = Some (be_value bs)" "mbedtls_mpi_mul_mpi M a b = Some (a * b)"
    "mbedtls_mpi_add_mpi M a b = Some (a + b)" "mbedtls_mpi_add_int M a b = Some (a + b)"
    "mbedtls_mpi_sub_mpi M a b = Some (a - b)" "mbedtls_mpi_sub_int M a b = Some (a - b)"
    "0 \<le> a \<Longrightarrow> mbedtls_mpi_shift_r M a n = Some (a div 2 ^ n)"
    "0 \<le> e \<Longrightarrow> 0 < p \<Longrightarrow> odd p \<Longrightarrow> mbedtls_mpi_exp_mod M a e p = Some (a ^ nat e mod p)"
    "0 \<le> a \<Longrightarrow> mbedtls_mpi_get_bit M a 0 = odd a"
    "0 \<le> a \<Longrightarrow> a < 256 ^ n \<Longrightarrow> mbedtls_mpi_write_binary M a n = Some (be_bytes n a)"
  using assms by (simp_all add: mpi_law_def)

function exact_size :: "int \<Rightarrow> nat" where
  "exact_size p = (if p \<le> 0 then 0 else Suc (exact_size (p div 256)))"
  by pat_completeness auto
termination by (relation "measure nat") auto

declare exact_size.simps [simp del]

definition exact_mpi :: mbedtls_mpi where
  "exact_mpi = \<lparr>
     mbedtls_mpi_size = exact_size,
     mbedtls_mpi_read_binary = (\<lambda>bs. Some (be_value bs)),
     mbedtls_mpi_mul_mpi = (\<lambda>a b. Some (a * b)),
     mbedtls_mpi_add_mpi = (\<lambda>a b. Some (a + b)),
     mbedtls_mpi_sub_mpi = (\<lambda>a b. Some (a - b)),
     mbedtls_mpi_add_int = (\<lambda>a b. Some (a + b)),
     mbedtls_mpi_sub_int = (\<lambda>a b. Some (a - b)),
     mbedtls_mpi_shift_r = (\<lambda>a n. Some (a div 2 ^ n)),
     mbedtls_mpi_exp_mod = (\<lambda>a e p. Some (a ^ nat e mod p)),
     mbedtls_mpi_get_bit = (\<lambda>a n. odd (a div 2 ^ n)),
     mbedtls_mpi_write_binary = (\<lambda>a n. Some (be_bytes n a))\<rparr>"

lemma exact_size_eq: "256 ^ n \<le> p \<Longrightarrow> p < 256 ^ Suc n \<Longrightarrow> exact_size p = Suc n"
proof (induction n arbitrary: p)
  case 0
  then show ?case by (simp add: exact_size.simps [of p] exact_size.simps [of 0])
next
  case (Suc n)
  have "0 < p" using Suc.prems(1) by (rule less_le_trans [rotated]) simp
  moreover have "256 ^ n \<le> p div 256" using zdiv_mono1 [OF Suc.prems(1), of 256] by simp
  moreover have "p div 256 < 256 ^ Suc n" using Suc.prems(2) by (simp add: div_less_iff_less_mult mult.commute)
  ultimately show ?case using Suc.IH [of "p div 256"] by (simp add: exact_size.simps [of p])
qed

lemma exact_mpi_law: "mpi_law exact_mpi"
  using exact_size_eq by (simp add: mpi_law_def exact_mpi_def)

section \<open>Decompression\<close>

text \<open>A point of the curve \<open>y\<^sup>2 = x\<^sup>3 + a x + b\<close> modulo \<open>p\<close>, with the square roots the code needs.\<close>

definition curve_a :: "mbedtls_ecp_group \<Rightarrow> int" where
  "curve_a grp = (case grp_A grp of None \<Rightarrow> -3 | Some a \<Rightarrow> a)"

definition on_curve :: "mbedtls_ecp_group \<Rightarrow> int \<Rightarrow> int \<Rightarrow> bool" where
  "on_curve grp x y \<longleftrightarrow> 0 < y \<and> y < grp_P grp \<and>
     y * y mod grp_P grp = (x * x * x + curve_a grp * x + grp_B grp) mod grp_P grp"

definition curve_field :: "mbedtls_ecp_group \<Rightarrow> nat \<Rightarrow> bool" where
  "curve_field grp n \<longleftrightarrow> grp_P grp mod 4 = 3 \<and> 256 ^ n \<le> grp_P grp \<and> grp_P grp < 256 ^ Suc n"

lemma ecp_ordinate_eq:
  assumes M: "mpi_law M" and f: "curve_field grp n" and y: "on_curve grp (be_value X) y" "euler (grp_P grp) y"
  shows "ecp_ordinate M grp odd_y X (Suc n) = Inr (be_bytes (Suc n) (if odd_y = odd y then y else grp_P grp - y))"
proof -
  let ?p = "grp_P grp" and ?x = "be_value X"
  define r4 where "r4 = (?x * ?x + curve_a grp) * ?x + grp_B grp"
  have p: "?p mod 4 = 3" "?p < 256 ^ Suc n" "0 < y" "y < ?p" using f y(1) by (auto simp: curve_field_def on_curve_def)
  have "odd ?p" "0 < ?p" using p by presburger+
  have r: "r4 mod ?p = y * y mod ?p" using y(1) by (simp add: on_curve_def r4_def algebra_simps)
  define r5 where "r5 = r4 ^ nat ((?p + 1) div 4) mod ?p"
  have r5: "r5 = y \<or> r5 = ?p - y" using square_root [OF p(1,3,4) y(2) r] by (simp add: r5_def)
  have odds: "odd (?p - y) \<longleftrightarrow> even y" using \<open>odd ?p\<close> by simp
  have bound: "0 \<le> r5" "r5 < 256 ^ Suc n" "0 \<le> ?p - r5" "?p - r5 < 256 ^ Suc n" using r5 p by auto
  have "ecp_ordinate M grp odd_y X (Suc n) =
      MPI_CHK (if odd_y \<noteq> odd r5 then Some (?p - r5) else Some r5) (\<lambda>r.
      MPI_CHK (mbedtls_mpi_write_binary M r (Suc n)) Inr)"
    using \<open>0 < ?p\<close> \<open>odd ?p\<close> bound(1)
    unfolding ecp_ordinate_def MPI_CHK_def r5_def r4_def curve_a_def
    by (cases "grp_A grp") (simp_all add: mpi_lawD [OF M])
  then show ?thesis
    using r5 odds bound mpi_lawD(11) [OF M, of _ "Suc n"] by (auto simp: MPI_CHK_def)
qed

lemma ecp_decompress_eq:
  assumes M: "mpi_law M" and f: "curve_field grp n" and y: "on_curve grp (be_value X) y" "euler (grp_P grp) y"
    and X: "length X = Suc n" and out: "length output = osize" "2 * Suc n + 1 \<le> osize" and tag: "tag = 2 \<or> tag = 3"
  shows "mbedtls_ecp_decompress M grp (tag # X) output osize =
    Ok (Inr (4 # X @ be_bytes (Suc n) (if (tag = 3) = odd y then y else grp_P grp - y)))"
proof -
  have size: "mbedtls_mpi_size M (grp_P grp) = Suc n" using f mpi_lawD(1) [OF M] by (simp add: curve_field_def)
  have w1: "write_mem output 0 (tag # X) = Ok (tag # X @ drop (Suc (Suc n)) output)"
    using X out by (simp add: write_mem_def)
  have w2: "write_mem (tag # r) 0 [4] = Ok (4 # r)" for r by (simp add: write_mem_def)
  have w3: "length z = Suc n \<Longrightarrow> write_mem (4 # X @ drop (Suc (Suc n)) output) (2 + int n) z =
      Ok (4 # X @ z @ drop (2 * Suc n + 1) output)" for z
    using X out by (simp add: write_mem_def nat_add_distrib mult_2)
  show ?thesis
    unfolding mbedtls_ecp_decompress_def Let_def size
    using tag out X
    by (simp add: w1 w2 w3 ecp_ordinate_eq [OF M f y] arr_get_def del: be_bytes.simps)
qed

section \<open>Property\<close>

text \<open>C14: \<open>mbedtls_ecp_decompress\<close> returns the uncompressed point of a compressed key: for a prime modulus
  that is 3 modulo 4 and a point \<open>(x, y)\<close> of the curve, the input 2 or 3 (for the parity of \<open>y\<close>)
  followed by \<open>x\<close> gives 4, \<open>x\<close>, \<open>y\<close>.\<close>

theorem ecp_decompress_recovers_point:
  assumes "mpi_law M" "curve_field grp n" "prime_modulus (nat (grp_P grp))" "on_curve grp (be_value X) y"
    and "length X = Suc n" "length output = osize" "2 * Suc n + 1 \<le> osize"
  shows "mbedtls_ecp_decompress M grp ((if odd y then 3 else 2) # X) output osize =
    Ok (Inr (4 # X @ be_bytes (Suc n) y))"
proof -
  have "grp_P grp mod 4 = 3" "0 < grp_P grp" using assms(2,4) by (simp_all add: curve_field_def on_curve_def)
  then have "0 < grp_P grp" "odd (grp_P grp)" by presburger+
  then have "euler (grp_P grp) y"
    using prime_euler [OF assms(3)] assms(4) by (simp add: on_curve_def even_nat_iff)
  from ecp_decompress_eq [OF assms(1,2,4) this assms(5-7), of "if odd y then 3 else 2"] show ?thesis by simp
qed

theorem ecp_decompress_recovers_point_witness:
  "mbedtls_ecp_decompress exact_mpi \<lparr>grp_P = 7, grp_A = None, grp_B = 6\<rparr> [3, 2] [0, 0, 0] 3 = Ok (Inr [4, 2, 1])"
proof -
  let ?g = "\<lparr>grp_P = 7, grp_A = None, grp_B = 6\<rparr>"
  have "prime_modulus (nat (grp_P ?g))" by code_simp
  moreover have "on_curve ?g (be_value [2]) 1" by (simp add: on_curve_def curve_a_def be_value_def)
  ultimately show ?thesis
    using ecp_decompress_recovers_point [OF exact_mpi_law, of ?g 0 "[2]" 1 "[0, 0, 0]" 3]
    by (simp add: curve_field_def)
qed

end
