(* ===== verification/Psa_Agreement.thy ===== *)
theory Psa_Agreement
  imports Psa_Keys Ecp_Point
begin

text \<open>
  Ephemeral keys of \<^verbatim>\<open>crypto_wrapper.c\<close> in the configuration MBEDTLS.  On P-256 the function that
  generates a key drops the sign of the point and always writes the prefix 2, and the function that
  derives the secret decompresses that point; both sides still share a secret.  On X25519 the key
  does not depend on the seed.
\<close>

section \<open>The library on P-256\<close>

text \<open>The laws of the curve: \<open>pub\<close> is the point of a private key and \<open>dh\<close> the abscissa of a multiple
  of a point, which does not depend on the sign of the point; \<open>valid\<close> are the private keys.\<close>

definition dh_law ::
    "mbedtls_ecp_group \<Rightarrow> (bytes \<Rightarrow> bool) \<Rightarrow> (bytes \<Rightarrow> int \<times> int) \<Rightarrow> (bytes \<Rightarrow> int \<times> int \<Rightarrow> bytes) \<Rightarrow> bool" where
  "dh_law grp valid pub dh \<longleftrightarrow> curve_field grp 31 \<and> (\<forall>sk. valid sk \<longrightarrow> length sk = 32) \<and>
     (\<forall>sk. valid sk \<longrightarrow>
        (case pub sk of (x, y) \<Rightarrow> 0 \<le> x \<and> x < grp_P grp \<and> on_curve grp x y \<and> euler (grp_P grp) y)) \<and>
     (\<forall>sk x y. valid sk \<longrightarrow> dh sk (x, grp_P grp - y) = dh sk (x, y)) \<and>
     (\<forall>a b. valid a \<and> valid b \<longrightarrow> dh a (pub b) = dh b (pub a))"

definition point_bytes :: "int \<times> int \<Rightarrow> bytes" where
  "point_bytes = (\<lambda>(x, y). 4 # be_bytes 32 x @ be_bytes 32 y)"

text \<open>The attributes of a key decide what the library does with it.  A key on P-256 that is not
  persistent; the size may be left open when a key is imported.\<close>

definition p256_key :: "psa_key_attributes \<Rightarrow> bool" where
  "p256_key attr \<longleftrightarrow> psa_key_type attr = PSA_KEY_TYPE_ECC_KEY_PAIR_SECP_R1 \<and>
     psa_key_bits attr \<in> {0, 256} \<and> psa_key_lifetime attr = PSA_KEY_LIFETIME_VOLATILE"

text \<open>The policy of a key for key agreement: the algorithm, and the usage to derive.\<close>

definition may_derive :: "psa_key_attributes \<Rightarrow> bool" where
  "may_derive attr \<longleftrightarrow> psa_key_algorithm attr = PSA_ALG_ECDH \<and> PSA_KEY_USAGE_DERIVE \<in> set (psa_key_usage_flags attr)"

definition may_export :: "psa_key_attributes \<Rightarrow> bool" where
  "may_export attr \<longleftrightarrow> PSA_KEY_USAGE_EXPORT \<in> set (psa_key_usage_flags attr)"

text \<open>What the documentation promises for a stored key on P-256: agreement where the policy permits it
  and the point is on the curve, export of the private key where the policy permits it, export of
  the public key always, destruction.\<close>

definition psa_ecdh_law ::
    "'s psa \<Rightarrow> ('s \<Rightarrow> key_store) \<Rightarrow> mbedtls_ecp_group \<Rightarrow> (bytes \<Rightarrow> bool) \<Rightarrow> (bytes \<Rightarrow> int \<times> int) \<Rightarrow>
     (bytes \<Rightarrow> int \<times> int \<Rightarrow> bytes) \<Rightarrow> bool"
where
  "psa_ecdh_law P keys grp valid pub dh \<longleftrightarrow>
     (\<forall>s i attr sk x y. keys s i = Some (attr, sk) \<and> p256_key attr \<and> valid sk \<and> may_derive attr \<and>
          on_curve grp x y \<and> 0 \<le> x \<and> x < grp_P grp \<longrightarrow>
        (\<exists>s1. psa_raw_key_agreement P PSA_ALG_ECDH i (point_bytes (x, y)) 32 s = ((True, dh sk (x, y)), s1) \<and>
           keys s1 = keys s)) \<and>
     PSA_RAW_KEY_AGREEMENT_OUTPUT_SIZE P PSA_KEY_TYPE_ECC_KEY_PAIR_SECP_R1 256 = 32 \<and>
     (\<forall>s i attr sk. keys s i = Some (attr, sk) \<and> p256_key attr \<and> valid sk \<longrightarrow>
        (may_export attr \<longrightarrow> (\<exists>s1. psa_export_key P i 32 s = ((True, sk), s1) \<and> keys s1 = keys s)) \<and>
        (\<exists>s1. psa_export_public_key P i 65 s = ((True, point_bytes (pub sk)), s1) \<and> keys s1 = keys s)) \<and>
     (\<forall>s i. keys s i \<noteq> None \<longrightarrow> (\<exists>s1. psa_destroy_key P i s = ((True, ()), s1)))"

text \<open>With room for a key, a valid private key can be imported and a key of 256 bits generated.\<close>

definition psa_room_law ::
    "'s psa \<Rightarrow> 's mbedtls_ecp \<Rightarrow> ('s \<Rightarrow> key_store) \<Rightarrow> (key_store \<Rightarrow> bool) \<Rightarrow> mbedtls_ecp_group \<Rightarrow> (bytes \<Rightarrow> bool) \<Rightarrow> bool"
where
  "psa_room_law P E keys room grp valid \<longleftrightarrow>
     (\<forall>s. \<exists>s1. psa_crypto_init P s = ((True, ()), s1) \<and> keys s1 = keys s) \<and>
     (\<forall>s attr key. room (keys s) \<and> p256_key attr \<and> valid key \<longrightarrow>
        (\<exists>i s1. psa_import_key P attr key s = ((True, i), s1) \<and> i \<noteq> 0 \<and> keys s1 i = Some (attr, key))) \<and>
     (\<forall>s attr. room (keys s) \<and> p256_key attr \<and> psa_key_bits attr = 256 \<longrightarrow>
        (\<exists>i s1 key. psa_generate_key P attr s = ((True, i), s1) \<and> valid key \<and> keys s1 i = Some (attr, key))) \<and>
     (\<forall>s. \<exists>s1. mbedtls_pk_setup E s = ((True, ()), s1) \<and> keys s1 = keys s) \<and>
     (\<forall>s. \<exists>s1. mbedtls_ecp_group_load E s = ((True, grp), s1) \<and> keys s1 = keys s)"

text \<open>The policies the two functions ask for.\<close>

lemma ephemeral_policy: "p256_key ephemeral_attributes" "psa_key_bits ephemeral_attributes = 256"
  "may_export ephemeral_attributes"
  by (simp_all add: p256_key_def may_export_def ephemeral_attributes_def PSA_KEY_ATTRIBUTES_INIT_def)

lemma ecdh_policy: "p256_key ecdh_attributes" "may_derive ecdh_attributes"
  by (simp_all add: p256_key_def may_derive_def ecdh_attributes_def PSA_KEY_ATTRIBUTES_INIT_def)

section \<open>Generation\<close>

lemma liftS_apply: "liftS r s = (r, s)"
  by (simp add: liftS_def)

lemma on_curve_minus: "on_curve grp x y \<Longrightarrow> on_curve grp x (grp_P grp - y)"
proof -
  assume c: "on_curve grp x y"
  let ?p = "grp_P grp"
  have "(?p - y) * (?p - y) = y * y + (?p - 2 * y) * ?p" by (simp add: algebra_simps)
  then have "(?p - y) * (?p - y) mod ?p = y * y mod ?p" by (simp only: mod_mult_self1)
  then show ?thesis using c by (simp add: on_curve_def)
qed

lemma ephemeral_p256_Ok:
  assumes room: "psa_room_law P E keys room grp valid" "room (keys s)" and law: "psa_ecdh_law P keys grp valid pub dh"
    and dh: "dh_law grp valid pub dh" and sizes: "length sk = 32" "length pk = 33" "33 \<le> pk_size"
  shows "\<exists>key. valid key \<and>
    fst (ephemeral_dh_key_gen_psa P c25519 buf P256 seed (sk, pk, pk_size) s) =
      Ok (key, 2 # be_bytes 32 (fst (pub key)), 33)"
proof -
  obtain s1 where i: "psa_crypto_init P s = ((True, ()), s1)" "keys s1 = keys s"
    using room(1) unfolding psa_room_law_def by blast
  have "room (keys s1)" using i(2) room(2) by simp
  then obtain h s2 key where g: "psa_generate_key P ephemeral_attributes s1 = ((True, h), s2)"
      "valid key" "keys s2 h = Some (ephemeral_attributes, key)"
    using room(1) ephemeral_policy unfolding psa_room_law_def by blast
  have len: "length key = 32" using dh g(2) by (simp add: dh_law_def)
  obtain s3 where e: "psa_export_key P h 32 s2 = ((True, key), s3)" "keys s3 = keys s2"
    using law g(2,3) ephemeral_policy unfolding psa_ecdh_law_def by blast
  then have "keys s3 h = Some (ephemeral_attributes, key)" using g(3) by simp
  then obtain s4 where p: "psa_export_public_key P h 65 s3 = ((True, point_bytes (pub key)), s4)" "keys s4 = keys s3"
    using law g(2) ephemeral_policy unfolding psa_ecdh_law_def by blast
  then have "keys s4 h \<noteq> None" using e(2) g(3) by simp
  then obtain s5 where d: "psa_destroy_key P h s4 = ((True, ()), s5)"
    using law unfolding psa_ecdh_law_def by blast
  have pb: "length (point_bytes (pub key)) = 65" "take 32 (drop 1 (point_bytes (pub key))) = be_bytes 32 (fst (pub key))"
    by (simp_all add: point_bytes_def split: prod.split)
  have w1: "write_mem sk 0 key = Ok key" using sizes(1) len by (simp add: write_mem_def)
  have w2: "write_mem pk 0 [2] = Ok (2 # drop (Suc 0) pk)"
    "length z = 32 \<Longrightarrow> write_mem (2 # drop (Suc 0) pk) 1 z = Ok (2 # z)" for z
    using sizes(2) by (simp_all add: write_mem_def)
  have "\<not> pk_size < of_nat P_256_PUB_KEY_COMPRESSED_SIZE" using sizes(3) by simp
  then show ?thesis
    using g(2)
    by (intro exI [of _ key]) (simp add: ephemeral_dh_key_gen_psa_def TRY_EXPECT_PSA_def PSA_CALL_def psa_finish_def
        TRY_EXPECT_SUCCESS_def expected_def TRYS_liftS liftS_apply i g(1) e p d pb pb(2) [simplified] w1 w2
        del: be_bytes.simps)
qed

section \<open>Derivation\<close>

lemma shared_secret_p256_Ok:
  assumes room: "psa_room_law P E keys room grp valid" "room (keys s)" and law: "psa_ecdh_law P keys grp valid pub dh"
    and M: "mpi_law M" and dh: "dh_law grp valid pub dh" and sk: "valid sk" "valid key" "length buf = 65"
  shows "fst (shared_secret_derive_psa P M E c25519 buf P256 sk (2 # be_bytes 32 (fst (pub key))) s) =
    Ok (dh sk (pub key))"
proof -
  obtain x y where xy: "pub key = (x, y)" by (cases "pub key")
  have c: "curve_field grp 31" "0 \<le> x" "x < grp_P grp" "on_curve grp x y" "euler (grp_P grp) y"
    and sgn: "dh sk (x, grp_P grp - y) = dh sk (x, y)" and len: "length sk = 32"
    using dh xy sk(1,2) unfolding dh_law_def by (auto dest: spec [of _ key])
  define y' where "y' = (if even y then y else grp_P grp - y)"
  have p: "grp_P grp < 256 ^ 32" using c(1) by (simp add: curve_field_def)
  then have X: "be_value (be_bytes 32 x) = x" using c(2,3) by (intro be_value_bytes) simp_all
  have dec: "mbedtls_ecp_decompress M grp (2 # be_bytes 32 x) buf 65 = Ok (Inr (point_bytes (x, y')))"
    using ecp_decompress_eq [OF M c(1), of "be_bytes 32 x" y buf 65 2] c(4,5) sk(3) X
    by (auto simp: point_bytes_def y'_def simp del: be_bytes.simps)
  have on: "on_curve grp x y'" using c(4) on_curve_minus by (simp add: y'_def)
  obtain s1 where i: "psa_crypto_init P s = ((True, ()), s1)" "keys s1 = keys s"
    using room(1) unfolding psa_room_law_def by blast
  have "room (keys s1)" using i(2) room(2) by simp
  then obtain h s2 where g: "psa_import_key P ecdh_attributes sk s1 = ((True, h), s2)" "h \<noteq> 0"
      "keys s2 h = Some (ecdh_attributes, sk)"
    using room(1) sk(1) ecdh_policy unfolding psa_room_law_def by blast
  obtain s3 where e: "mbedtls_pk_setup E s2 = ((True, ()), s3)" "keys s3 = keys s2"
    using room(1) unfolding psa_room_law_def by blast
  obtain s4 where l: "mbedtls_ecp_group_load E s3 = ((True, grp), s4)" "keys s4 = keys s3"
    using room(1) unfolding psa_room_law_def by blast
  have "keys s4 h = Some (ecdh_attributes, sk)" using e(2) l(2) g(3) by simp
  then obtain s5 where a: "psa_raw_key_agreement P PSA_ALG_ECDH h (point_bytes (x, y')) 32 s4 = ((True, dh sk (x, y')), s5)"
      "keys s5 = keys s4"
    using law on c(2,3) sk(1) ecdh_policy unfolding psa_ecdh_law_def by blast
  then have "keys s5 h \<noteq> None" using e(2) l(2) g(3) by simp
  then obtain s6 where d: "psa_destroy_key P h s5 = ((True, ()), s6)"
    using law unfolding psa_ecdh_law_def by blast
  have size: "PSA_RAW_KEY_AGREEMENT_OUTPUT_SIZE P (psa_key_type ecdh_attributes) (ucast (of_nat (length sk) * 8 :: u32)) = 32"
    using law len by (simp add: psa_ecdh_law_def ecdh_attributes_def)
  have "dh sk (x, y') = dh sk (x, y)" using sgn by (simp add: y'_def)
  then show ?thesis
    using g(2) dec
    by (simp add: shared_secret_derive_psa_def Let_def size with_psa_key_def TRY_EXPECT_PSA_def OR_CLEANUP_def
        psa_cleanup_def psa_finish_def TRY_EXPECT_SUCCESS_def TRYS_liftS liftS_apply PSA_KEY_HANDLE_INIT_def
        i g(1) e l a d xy del: be_bytes.simps split: option.split)
qed

section \<open>A library with policies\<close>

text \<open>It has one slot and a counter, from which it makes the keys it generates, and refuses what the
  policy of the key does not permit.  The curve has the points \<open>(2, 1)\<close> and \<open>(- 1, 1)\<close>; the parity
  of the first byte of a private key says which of them is its public key, and the secret
  tells how many of the two sides have an odd key.\<close>

type_synonym policy_state = "nat \<times> slot"

definition policy_group :: mbedtls_ecp_group where
  "policy_group = \<lparr>grp_P = 256 ^ 32 - 1, grp_A = None, grp_B = - 1\<rparr>"

definition policy_pub :: "bytes \<Rightarrow> int \<times> int" where
  "policy_pub sk = (if even (unat (hd sk)) then (2, 1) else (grp_P policy_group - 1, 1))"

definition policy_dh :: "bytes \<Rightarrow> int \<times> int \<Rightarrow> bytes" where
  "policy_dh sk = (\<lambda>(x, y). replicate 32 ((if even (unat (hd sk)) then 0 else 1) + (if x = 2 then 0 else 1)))"

definition policy_keys :: "policy_state \<Rightarrow> key_store" where
  "policy_keys s = slot_keys (snd s)"

definition policy_add :: "psa_key_attributes \<Rightarrow> bytes \<Rightarrow> (policy_state, key_id) psa_call" where
  "policy_add attr key = (\<lambda>(n, s). if s = None \<and> p256_key attr \<and> length key = 32
     then ((True, 1), (Suc n, Some (attr, key))) else ((False, 0), (n, s)))"

definition policy_use ::
    "key_id \<Rightarrow> (psa_key_attributes \<Rightarrow> bool) \<Rightarrow> (bytes \<Rightarrow> bytes) \<Rightarrow> (policy_state, bytes) psa_call" where
  "policy_use i permitted f = (\<lambda>(n, s). case s of
     Some (attr, key) \<Rightarrow> if i = 1 \<and> permitted attr then ((True, f key), (n, s)) else ((False, []), (n, s))
   | None \<Rightarrow> ((False, []), (n, s)))"

definition point_of_bytes :: "bytes \<Rightarrow> int \<times> int" where
  "point_of_bytes b = (be_value (take 32 (drop 1 b)), be_value (drop 33 b))"

definition policy_psa :: "policy_state psa" where
  "policy_psa = \<lparr>
     psa_crypto_init = (\<lambda>s. ((True, ()), s)),
     psa_import_key = policy_add,
     psa_generate_key = (\<lambda>attr s. policy_add attr (replicate 32 (of_nat (fst s))) s),
     psa_destroy_key = (\<lambda>i (n, s). ((i = 1 \<and> s \<noteq> None, ()), (n, if i = 1 then None else s))),
     psa_export_key = (\<lambda>i n. policy_use i may_export (\<lambda>key. key)),
     psa_export_public_key = (\<lambda>i n. policy_use i p256_key (\<lambda>key. point_bytes (policy_pub key))),
     psa_aead_encrypt = (\<lambda>i alg nonce ad m n s. ((False, []), s)),
     psa_aead_decrypt = (\<lambda>i alg nonce ad m n s. ((False, []), s)),
     psa_sign_message = (\<lambda>i alg m n s. ((False, []), s)),
     psa_verify_message = (\<lambda>i alg m sgnt s. ((False, ()), s)),
     psa_mac_compute = (\<lambda>i alg m n s. ((False, []), s)),
     psa_raw_key_agreement = (\<lambda>alg i point n. policy_use i (\<lambda>attr. p256_key attr \<and> may_derive attr)
       (\<lambda>key. policy_dh key (point_of_bytes point))),
     PSA_RAW_KEY_AGREEMENT_OUTPUT_SIZE = (\<lambda>ty bits. 32),
     psa_hash_compute = (\<lambda>alg m n s. ((True, take n (m @ replicate n 0)), s))\<rparr>"

definition policy_ecp :: "policy_state mbedtls_ecp" where
  "policy_ecp = \<lparr>mbedtls_pk_setup = (\<lambda>s. ((True, ()), s)),
     mbedtls_ecp_group_load = (\<lambda>s. ((True, policy_group), s))\<rparr>"

lemma on_curve_minus_one:
  assumes "grp_A grp = None" "grp_B grp = - 1" "1 < grp_P grp"
  shows "on_curve grp (grp_P grp - 1) 1"
proof -
  let ?p = "grp_P grp"
  have "(?p - 1) * (?p - 1) * (?p - 1) + curve_a grp * (?p - 1) + grp_B grp = 1 + (?p * ?p - 3 * ?p) * ?p"
    by (simp add: curve_a_def assms algebra_simps)
  then show ?thesis using assms(3) by (simp only: on_curve_def mod_mult_self1) simp
qed

lemma policy_dh_law: "dh_law policy_group (\<lambda>sk. length sk = 32) policy_pub policy_dh"
proof -
  have "curve_field policy_group 31" "1 < grp_P policy_group" "2 < grp_P policy_group" "grp_P policy_group \<noteq> 3"
    by (simp_all add: curve_field_def policy_group_def)
  moreover have "on_curve policy_group 2 1" "on_curve policy_group (grp_P policy_group - 1) 1"
    by (simp add: policy_group_def on_curve_def curve_a_def, rule on_curve_minus_one) (simp_all add: policy_group_def)
  moreover have "euler (grp_P policy_group) 1" by (simp add: policy_group_def euler_def)
  ultimately show ?thesis by (simp add: dh_law_def policy_dh_def policy_pub_def)
qed

lemma point_of_point_bytes:
  assumes "0 \<le> x" "x < 256 ^ 32"
  shows "fst (point_of_bytes (point_bytes (x, y))) = x"
  using be_value_bytes [OF assms] by (simp add: point_of_bytes_def point_bytes_def del: be_bytes.simps)

lemma policy_ecdh_law: "psa_ecdh_law policy_psa policy_keys policy_group (\<lambda>sk. length sk = 32) policy_pub policy_dh"
proof -
  have "policy_dh sk (point_of_bytes (point_bytes (x, y))) = policy_dh sk (x, y)"
    if "0 \<le> x" "x < grp_P policy_group" for sk x y
    using point_of_point_bytes [of x y] that by (simp add: policy_dh_def policy_group_def case_prod_unfold)
  then show ?thesis
    by (auto simp: psa_ecdh_law_def policy_psa_def policy_use_def policy_keys_def slot_keys_def split: if_splits option.splits)
qed

lemma policy_room_law:
  "psa_room_law policy_psa policy_ecp policy_keys (\<lambda>K. K 1 = None) policy_group (\<lambda>sk. length sk = 32)"
  by (auto simp: psa_room_law_def policy_psa_def policy_ecp_def policy_add_def policy_keys_def slot_keys_def)

section \<open>Properties\<close>

text \<open>C13: On P-256 in the configuration MBEDTLS two ephemeral keys share a secret: generation and
  derivation succeed, and both sides derive the same bytes, although the generated public key always
  has the prefix 2, whatever the parity of the point.  The library is one that obeys the policy
  of a key, so the attributes the wrappers set must permit the calls they make.\<close>

theorem ephemeral_p256_keys_share_secret:
  assumes "psa_room_law P E keys room grp valid" "psa_ecdh_law P keys grp valid pub dh" "mpi_law M"
    and "dh_law grp valid pub dh"
    and "room (keys s1)" "room (keys s2)" "room (keys s3)" "room (keys s4)"
    and "length sk = 32" "length pk = 33" "length buf = 65"
  shows "\<exists>a g_a b g_b secret.
    fst (ephemeral_dh_key_gen_psa P c25519 eseed P256 seed_a (sk, pk, 33) s1) = Ok (a, g_a, 33) \<and>
    fst (ephemeral_dh_key_gen_psa P c25519 eseed P256 seed_b (sk, pk, 33) s2) = Ok (b, g_b, 33) \<and>
    fst (shared_secret_derive_psa P M E c25519 buf P256 a g_b s3) = Ok secret \<and>
    fst (shared_secret_derive_psa P M E c25519 buf P256 b g_a s4) = Ok secret"
proof -
  have size: "33 \<le> (33 :: u32)" by simp
  obtain a where a: "valid a"
      "fst (ephemeral_dh_key_gen_psa P c25519 eseed P256 seed_a (sk, pk, 33) s1) =
        Ok (a, 2 # be_bytes 32 (fst (pub a)), 33)"
    using ephemeral_p256_Ok [OF assms(1,5,2,4,9,10) size] by blast
  obtain b where b: "valid b"
      "fst (ephemeral_dh_key_gen_psa P c25519 eseed P256 seed_b (sk, pk, 33) s2) =
        Ok (b, 2 # be_bytes 32 (fst (pub b)), 33)"
    using ephemeral_p256_Ok [OF assms(1,6,2,4,9,10) size] by blast
  have "dh a (pub b) = dh b (pub a)" using assms(4) a(1) b(1) unfolding dh_law_def by blast
  with shared_secret_p256_Ok [OF assms(1,7,2,3,4) a(1) b(1) assms(11)]
    shared_secret_p256_Ok [OF assms(1,8,2,3,4) b(1) a(1) assms(11)]
    a(2) b(2) show ?thesis by metis
qed

text \<open>Two different keys, and the secret of both sides.\<close>

lemma policy_generates:
  "fst (ephemeral_dh_key_gen_psa policy_psa None [] P256 1 (replicate 32 0, replicate 33 0, 33) (4, None)) =
     Ok (replicate 32 4, 2 # replicate 31 0 @ [2], 33)"
  "fst (ephemeral_dh_key_gen_psa policy_psa None [] P256 2 (replicate 32 0, replicate 33 0, 33) (7, None)) =
     Ok (replicate 32 7, 2 # replicate 31 0xFF @ [0xFE], 33)"
  by code_simp+

theorem ephemeral_p256_keys_share_secret_witness:
  "\<exists>secret. fst (shared_secret_derive_psa policy_psa exact_mpi policy_ecp None (replicate 65 0) P256 (replicate 32 4)
      (2 # replicate 31 0xFF @ [0xFE]) (0, None)) = Ok secret \<and>
    fst (shared_secret_derive_psa policy_psa exact_mpi policy_ecp None (replicate 65 0) P256 (replicate 32 7)
      (2 # replicate 31 0 @ [2]) (0, None)) = Ok secret"
proof -
  have room: "policy_keys (n, None) 1 = None" for n by (simp add: policy_keys_def slot_keys_def)
  show ?thesis
    using ephemeral_p256_keys_share_secret [OF policy_room_law policy_ecdh_law exact_mpi_law policy_dh_law
        room room room room, of "replicate 32 0" "replicate 33 0" "replicate 65 0" None "[]" 1 4 2 7 0 0]
    using policy_generates by auto
qed

text \<open>C16: In the configuration MBEDTLS with COMPACT25519 an ephemeral X25519 key does not depend on the
  seed: it is made from the bytes that the local array \<open>extended_seed\<close> happens to hold, which the
  function never writes.\<close>

theorem x25519_key_ignores_seed:
  assumes "psa_hash_compute P PSA_ALG_SHA_256 (u32_le_bytes seed) 32 s = ((True, h), s1)" "length h = 32"
    and "length sk = 32"
  shows "fst (ephemeral_dh_key_gen_psa P (Some C) extended_seed X25519 seed (sk, pk, pk_size) s) =
    Ok (fst (compact_x25519_keygen C extended_seed), snd (compact_x25519_keygen C extended_seed), X25519_KEY_SIZE)"
  using assms
  by (simp add: ephemeral_dh_key_gen_psa_def TRY_EXPECT_SUCCESS_def TRYS_liftS liftS_apply write_mem_def split: prod.split)

definition toy_compact25519 :: compact25519 where
  "toy_compact25519 = \<lparr>edsign_sign = (\<lambda>pk sk m. replicate 64 0), edsign_verify = (\<lambda>sg pk m. True),
     c25519_prepare = (\<lambda>e. e), c25519_smult = (\<lambda>pk e. replicate 32 0),
     compact_x25519_keygen = (\<lambda>seed. (seed, map (\<lambda>b. b + 1) seed))\<rparr>"

theorem x25519_key_ignores_seed_witness:
  "fst (ephemeral_dh_key_gen_psa slot_psa (Some toy_compact25519) (replicate 32 5) X25519 1
      (replicate 32 0, replicate 32 0, 32) None) = Ok (replicate 32 5, replicate 32 6, 32)"
proof -
  have "psa_hash_compute slot_psa PSA_ALG_SHA_256 (u32_le_bytes 1) 32 None = ((True, 1 # replicate 31 0), None)"
    by code_simp
  from x25519_key_ignores_seed [OF this] show ?thesis
    by (simp add: toy_compact25519_def X25519_KEY_SIZE_def)
qed

end
