(* ===== verification/Edhoc_X509.thy ===== *)
theory Edhoc_X509
  imports Edhoc_Example
begin

text \<open>
  X.509 certificates: \<^verbatim>\<open>cert_x509_verify\<close> of \<^verbatim>\<open>src/edhoc/cert.c\<close> in the configuration MBEDTLS.  The
  parser of the library and its traversal of ASN.1 sequences are the fields of the record
  \<open>mbedtls_x509\<close>; the certificate is parsed in place, so all its parts are positions in it.

  Edhoc_Auth has the function for the other configurations, where it does nothing.
\<close>

section \<open>The library\<close>

text \<open>A part of the certificate: position and length.\<close>

type_synonym span = "nat \<times> nat"

datatype mbedtls_pk_type = MBEDTLS_PK_ECDSA | MBEDTLS_PK_OTHER

text \<open>The name of the issuer is a list of attributes, each with its identifier and the position of
  its value.\<close>

record x509_crt =
  crt_issuer :: "(bytes \<times> nat) list"
  crt_sig_pk :: mbedtls_pk_type
  crt_sig_md :: int
  crt_sig :: span
  crt_tbs :: span
  crt_pk_raw :: span

record asn1_item =
  item_tag :: int
  item_start :: nat
  item_len :: nat

record mbedtls_x509 =
  mbedtls_x509_crt_parse_der_nocopy :: "bytes \<Rightarrow> x509_crt option"
  mbedtls_md_size_from_type :: "int \<Rightarrow> nat option"
  mbedtls_asn1_traverse_sequence_of :: "bytes \<Rightarrow> span \<Rightarrow> asn1_item list"

definition MBEDTLS_OID_AT_CN :: bytes where "MBEDTLS_OID_AT_CN = [0x55, 4, 3]"
definition MBEDTLS_ASN1_INTEGER :: int where "MBEDTLS_ASN1_INTEGER = 2"
definition MBEDTLS_ASN1_BIT_STRING :: int where "MBEDTLS_ASN1_BIT_STRING = 3"

section \<open>The callbacks\<close>

text \<open>Reading at a computed position, which may lie in front of the object.\<close>

definition read_at :: "ptr \<Rightarrow> int \<Rightarrow> nat \<Rightarrow> bytes res" where
  "read_at p pos n = (if pos < 0 then Undef else read_mem (advance p (nat pos)) n)"

record deser_sign_ctx =
  ds_sig :: bytes
  ds_seek :: nat

text \<open>\<^verbatim>\<open>deser_sign_cb\<close>: the last \<open>unit_size\<close> bytes of an integer go to the signature; \<open>sig_len\<close> is the
  distance of \<^verbatim>\<open>ctx->end\<close> from the start of the signature.\<close>

definition deser_sign_cb :: "ptr \<Rightarrow> nat \<Rightarrow> nat \<Rightarrow> asn1_item \<Rightarrow> deser_sign_ctx \<Rightarrow> deser_sign_ctx res" where
  "deser_sign_cb cert unit_size sig_len item ctx =
     (if item_tag item = MBEDTLS_ASN1_INTEGER then
        let unit_end = ds_seek ctx + unit_size in
        if unit_end \<le> sig_len then
          TRY (read_at cert (int (item_start item) + int (item_len item) - int unit_size) unit_size) (\<lambda>bs.
          TRY (write_mem (ds_sig ctx) (int (ds_seek ctx)) bs) (\<lambda>sig.
          Ok \<lparr>ds_sig = sig, ds_seek = unit_end\<rparr>))
        else Ok ctx
      else Ok ctx)"

definition find_pk_cb :: "asn1_item \<Rightarrow> nat option \<Rightarrow> nat option" where
  "find_pk_cb item pk = (if item_tag item = MBEDTLS_ASN1_BIT_STRING then Some (item_start item) else pk)"

text \<open>The loop over the name: the last common name.\<close>

fun find_issuer_id :: "(bytes \<times> nat) list \<Rightarrow> nat option \<Rightarrow> nat option" where
  "find_issuer_id [] issuer_id = issuer_id"
| "find_issuer_id ((oid, val) # p) issuer_id =
     find_issuer_id p (if oid = MBEDTLS_OID_AT_CN then Some val else issuer_id)"

section \<open>Verification\<close>

text \<open>The public key of the certificate, less the byte with the number of unused bits.\<close>

definition x509_export_pk :: "mbedtls_x509 \<Rightarrow> x509_crt \<Rightarrow> bytes \<Rightarrow> ptr \<Rightarrow> io_buf \<Rightarrow> io_buf res" where
  "x509_export_pk X m der cert = (\<lambda>(pk, pk_len).
     case fold find_pk_cb (mbedtls_asn1_traverse_sequence_of X der (crt_pk_raw m)) None of
       None \<Rightarrow> TRY (memcpy_s pk 0 pk_len None 0) (\<lambda>pk'. Ok (pk', 0))
     | Some cpk \<Rightarrow>
         TRY (deref (advance cert cpk)) (\<lambda>b.
         let start = if b = 0 then cpk + 1 else cpk;
             cpk_len = of_nat (snd (crt_pk_raw m)) - (of_nat start - of_nat (fst (crt_pk_raw m))) :: u32 in
         TRY (memcpy_s pk 0 pk_len (advance cert start) cpk_len) (\<lambda>pk'.
         Ok (pk', cpk_len))))"

text \<open>\<open>sig\<close> is the local array of the signature before it is written.\<close>

definition cert_x509_verify_mbedtls ::
    "mbedtls_x509 \<Rightarrow> crypto \<Rightarrow> bytes \<Rightarrow> ptr \<Rightarrow> u32 \<Rightarrow> other_party_cred list \<Rightarrow> u16 \<Rightarrow> io_buf \<Rightarrow>
     (io_buf \<times> bool) res" where
  "cert_x509_verify_mbedtls X C sig cert cert_len cred_array cred_num pk =
     TRY (read_mem cert (unat cert_len)) (\<lambda>der.
     TRY_EXPECT (mbedtls_x509_crt_parse_der_nocopy X der) (\<lambda>m.
     let issuer_id = find_issuer_id (crt_issuer m) None in
     if crt_sig_pk m \<noteq> MBEDTLS_PK_ECDSA then Fail unsupported_signature_algorithm
     else case mbedtls_md_size_from_type X (crt_sig_md m) of
       None \<Rightarrow> Fail unsupported_signature_algorithm
     | Some hash_len \<Rightarrow>
         let sign_alg = ES256; sig_len = get_signature_len sign_alg in
         TRY (check_buffer_size (of_nat SIGNATURE_DEFAULT_SIZE) sig_len) (\<lambda>_.
         TRY (case issuer_id of
                None \<Rightarrow> Undef
              | Some p \<Rightarrow> ca_pk_get cred_array cred_num (advance cert p)) (\<lambda>root.
         TRY (foldR (deser_sign_cb cert hash_len (unat sig_len))
                (mbedtls_asn1_traverse_sequence_of X der (crt_sig m)) \<lparr>ds_sig = sig, ds_seek = 0\<rparr>) (\<lambda>ctx.
         TRY (read_mem (ba_ptr root) (unat (ba_len root))) (\<lambda>root_pk.
         TRY (read_mem (advance cert (fst (crt_tbs m))) (snd (crt_tbs m))) (\<lambda>tbs.
         TRY (read_mem (Some (ds_sig ctx)) (unat sig_len)) (\<lambda>raw_sig.
         TRY (crypto_verify C sign_alg root_pk tbs raw_sig) (\<lambda>verified.
         TRY (x509_export_pk X m der cert pk) (\<lambda>pk'.
         Ok (pk', verified)))))))))))"

text \<open>The credential of the peer in this configuration.\<close>

definition retrieve_cred_mbedtls ::
    "mbedtls_x509 \<Rightarrow> bytes \<Rightarrow> crypto \<Rightarrow> 'z zcbor \<Rightarrow> 'd zcbor_dec \<Rightarrow> bool \<Rightarrow> other_party_cred list \<Rightarrow> u16 \<Rightarrow> bytes \<Rightarrow>
     peer_keys \<Rightarrow> peer_keys res" where
  "retrieve_cred_mbedtls X sig C =
     retrieve_cred_by (\<lambda>cert cert_len cred_array cred_num pk verified.
       cert_x509_verify_mbedtls X C sig cert cert_len cred_array cred_num pk) C"

section \<open>The signature\<close>

text \<open>An ECDSA signature holds \<open>r\<close> and \<open>s\<close> as DER integers: minimal big-endian numbers with tag and
  length.  \<open>raw_32\<close> is what the raw signature must hold for one of them, the number as 32 bytes.\<close>

definition der_integer :: "bytes \<Rightarrow> bytes" where
  "der_integer c = [2, of_nat (length c)] @ c"

definition raw_32 :: "bytes \<Rightarrow> bytes" where
  "raw_32 c = drop (length c - 32) (replicate (32 - length c) 0 @ c)"

text \<open>What the callback copies: a number of 31 bytes gets its own length as the first byte.\<close>

definition copied_32 :: "bytes \<Rightarrow> bytes" where
  "copied_32 c = drop (length c - 30) (der_integer c)"

lemma copied_32_length: "30 \<le> length c \<Longrightarrow> length (copied_32 c) = 32"
  by (simp add: copied_32_def der_integer_def)

lemma raw_32_length: "length (raw_32 c) = 32"
  by (cases "32 \<le> length c") (simp_all add: raw_32_def)

lemma deser_integer:
  assumes "30 \<le> length c" "length c < 128" and "seek + 32 \<le> 64" "length sig = 64"
    and cert: "cert = pre @ der_integer c @ post" and i: "item = \<lparr>item_tag = 2, item_start = length pre + 2, item_len = length c\<rparr>"
  shows "deser_sign_cb (Some cert) 32 64 item \<lparr>ds_sig = sig, ds_seek = seek\<rparr> =
    Ok \<lparr>ds_sig = take seek sig @ copied_32 c @ drop (seek + 32) sig, ds_seek = seek + 32\<rparr>"
proof -
  obtain k where k: "length c = k + 30" using assms(1) by (metis add.commute le_Suc_ex)
  have pos: "int (length pre + 2) + int (length c) - 32 = int (length pre + k)" by (simp add: k)
  have "length (der_integer c) = k + 32" by (simp add: der_integer_def k)
  then have "take 32 (drop k (der_integer c @ post)) = copied_32 c" by (simp add: copied_32_def k)
  then have "read_at (Some cert) (int (length pre + 2) + int (length c) - 32) 32 = Ok (copied_32 c)"
    unfolding pos by (simp add: read_at_def cert read_mem_def der_integer_def k nat_int_add)
  moreover have "length (copied_32 c) = 32" by (rule copied_32_length [OF assms(1)])
  ultimately show ?thesis
    using assms(3,4) by (simp add: deser_sign_cb_def MBEDTLS_ASN1_INTEGER_def i write_mem_def Let_def)
qed

lemma copied_is_raw:
  assumes "30 \<le> length c" "length c < 128"
  shows "copied_32 c = raw_32 c \<longleftrightarrow> 32 \<le> length c"
proof -
  consider "length c = 30" | "length c = 31" | k where "length c = k + 32"
    using assms(1) by (metis add.commute le_Suc_ex le_neq_implies_less less_eq_Suc_le numeral_eq_Suc pred_numeral_simps(2,3) semiring_norm(26,27,28))
  then show ?thesis
  proof cases
    case 3
    then show ?thesis by (simp add: copied_32_def raw_32_def der_integer_def)
  next
    case 1
    moreover have "replicate 2 (0 :: u8) = [0, 0]" by (simp add: numeral_2_eq_2)
    ultimately show ?thesis by (simp add: copied_32_def raw_32_def der_integer_def)
  qed (simp add: copied_32_def raw_32_def der_integer_def)
qed

lemma deser_signature:
  assumes r: "30 \<le> length r" "length r < 128" and s: "30 \<le> length s" "length s < 128" and "length sig = 64"
    and cert: "cert = pre @ der_integer r @ der_integer s @ post"
    and items: "items = [\<lparr>item_tag = 2, item_start = length pre + 2, item_len = length r\<rparr>,
      \<lparr>item_tag = 2, item_start = length pre + length (der_integer r) + 2, item_len = length s\<rparr>]"
  shows "foldR (deser_sign_cb (Some cert) 32 64) items \<lparr>ds_sig = sig, ds_seek = 0\<rparr> =
    Ok \<lparr>ds_sig = copied_32 r @ copied_32 s, ds_seek = 64\<rparr>"
proof -
  have len: "length (copied_32 r) = 32" "length (copied_32 s) = 32"
    using r s by (simp_all add: copied_32_length)
  have "deser_sign_cb (Some cert) 32 64 (items ! 0) \<lparr>ds_sig = sig, ds_seek = 0\<rparr> =
      Ok \<lparr>ds_sig = take 0 sig @ copied_32 r @ drop (0 + 32) sig, ds_seek = 0 + 32\<rparr>"
    by (rule deser_integer [OF r _ _ cert]) (simp_all add: assms(5) items)
  moreover have "deser_sign_cb (Some cert) 32 64 (items ! 1) \<lparr>ds_sig = copied_32 r @ drop 32 sig, ds_seek = 32\<rparr> =
      Ok \<lparr>ds_sig = take 32 (copied_32 r @ drop 32 sig) @ copied_32 s @ drop (32 + 32) (copied_32 r @ drop 32 sig),
        ds_seek = 32 + 32\<rparr>"
    by (rule deser_integer [OF s, where pre = "pre @ der_integer r" and post = post])
      (simp_all add: assms(5) items len cert)
  ultimately show ?thesis by (simp add: items len assms(5))
qed

section \<open>Properties\<close>

text \<open>C18: The raw signature that \<open>cert_x509_verify\<close> passes on is the one of the certificate only if both
  numbers of the signature have at least 32 bytes: a number of 31 bytes, which every 256th number
  is in DER, gets its length byte in front instead of 0, so that valid certificates are refused.\<close>

theorem x509_short_integers_are_misread:
  assumes "30 \<le> length r" "length r < 128" "30 \<le> length s" "length s < 128" "length sig = 64"
    and "cert = pre @ der_integer r @ der_integer s @ post"
    and "items = [\<lparr>item_tag = 2, item_start = length pre + 2, item_len = length r\<rparr>,
      \<lparr>item_tag = 2, item_start = length pre + length (der_integer r) + 2, item_len = length s\<rparr>]"
  shows "\<exists>raw. foldR (deser_sign_cb (Some cert) 32 64) items \<lparr>ds_sig = sig, ds_seek = 0\<rparr> =
      Ok \<lparr>ds_sig = raw, ds_seek = 64\<rparr> \<and>
    (raw = raw_32 r @ raw_32 s \<longleftrightarrow> 32 \<le> length r \<and> 32 \<le> length s) \<and>
    (length r = 31 \<longrightarrow> hd raw = 31)"
proof -
  have "copied_32 r @ copied_32 s = raw_32 r @ raw_32 s \<longleftrightarrow> copied_32 r = raw_32 r \<and> copied_32 s = raw_32 s"
    using copied_32_length [OF assms(1)] by (intro append_eq_append_conv) (simp add: raw_32_length)
  then show ?thesis
    using deser_signature [OF assms] copied_is_raw [OF assms(1,2)] copied_is_raw [OF assms(3,4)]
    by (auto simp: copied_32_def der_integer_def)
qed

theorem x509_short_integers_are_misread_witness:
  "\<exists>raw. foldR (deser_sign_cb (Some (der_integer (replicate 31 1) @ der_integer (replicate 32 1))) 32 64)
      [\<lparr>item_tag = 2, item_start = 2, item_len = 31\<rparr>, \<lparr>item_tag = 2, item_start = 35, item_len = 32\<rparr>]
      \<lparr>ds_sig = replicate 64 0, ds_seek = 0\<rparr> = Ok \<lparr>ds_sig = raw, ds_seek = 64\<rparr> \<and>
    raw \<noteq> raw_32 (replicate 31 1) @ raw_32 (replicate 32 1)"
proof -
  let ?r = "replicate 31 1 :: bytes" and ?s = "replicate 32 1 :: bytes"
  obtain raw where raw: "foldR (deser_sign_cb (Some (der_integer ?r @ der_integer ?s)) 32 64)
      [\<lparr>item_tag = 2, item_start = 2, item_len = 31\<rparr>, \<lparr>item_tag = 2, item_start = 35, item_len = 32\<rparr>]
      \<lparr>ds_sig = replicate 64 0, ds_seek = 0\<rparr> = Ok \<lparr>ds_sig = raw, ds_seek = 64\<rparr>"
    "raw = raw_32 ?r @ raw_32 ?s \<longleftrightarrow> 32 \<le> length ?r \<and> 32 \<le> length ?s"
    using x509_short_integers_are_misread [where r = ?r and s = ?s and sig = "replicate 64 0" and pre = "[]" and post = "[]"
        and cert = "der_integer ?r @ der_integer ?s"
        and items = "[\<lparr>item_tag = 2, item_start = 2, item_len = 31\<rparr>, \<lparr>item_tag = 2, item_start = 35, item_len = 32\<rparr>]"]
    by (auto simp: der_integer_def simp del: foldR.simps)
  then show ?thesis by (intro exI [of _ raw] conjI) simp_all
qed

text \<open>The signature of the certificate: two DER integers one after the other, which the traversal
  reports.\<close>

definition ecdsa_signature :: "ptr \<Rightarrow> asn1_item list \<Rightarrow> bytes \<Rightarrow> bytes \<Rightarrow> bool" where
  "ecdsa_signature cert items r s \<longleftrightarrow>
     (\<exists>pre post. cert = Some (pre @ der_integer r @ der_integer s @ post) \<and>
        items = [\<lparr>item_tag = 2, item_start = length pre + 2, item_len = length r\<rparr>,
          \<lparr>item_tag = 2, item_start = length pre + length (der_integer r) + 2, item_len = length s\<rparr>])"

text \<open>What the callback collects, in the 64 bytes of the local array.\<close>

definition collected_signature :: "mbedtls_x509 \<Rightarrow> ptr \<Rightarrow> bytes \<Rightarrow> x509_crt \<Rightarrow> bytes \<Rightarrow> bytes \<Rightarrow> bool" where
  "collected_signature X cert der m sig raw \<longleftrightarrow>
     (\<exists>hash_len ctx. mbedtls_md_size_from_type X (crt_sig_md m) = Some hash_len \<and>
        foldR (deser_sign_cb cert hash_len 64) (mbedtls_asn1_traverse_sequence_of X der (crt_sig m))
          \<lparr>ds_sig = sig, ds_seek = 0\<rparr> = Ok ctx \<and> read_mem (Some (ds_sig ctx)) 64 = Ok raw)"

lemma collected_is_raw:
  assumes "collected_signature X cert der m sig raw" and "length sig = 64"
    and "mbedtls_md_size_from_type X (crt_sig_md m) = Some 32"
    and "ecdsa_signature cert (mbedtls_asn1_traverse_sequence_of X der (crt_sig m)) r s"
    and "32 \<le> length r" "length r < 128" "32 \<le> length s" "length s < 128"
  shows "raw = raw_32 r @ raw_32 s"
proof -
  from assms(1,3) obtain ctx where ctx: "foldR (deser_sign_cb cert 32 64)
      (mbedtls_asn1_traverse_sequence_of X der (crt_sig m)) \<lparr>ds_sig = sig, ds_seek = 0\<rparr> = Ok ctx"
    "read_mem (Some (ds_sig ctx)) 64 = Ok raw" by (auto simp: collected_signature_def)
  from assms(4) obtain pre post where at: "cert = Some (pre @ der_integer r @ der_integer s @ post)"
    "mbedtls_asn1_traverse_sequence_of X der (crt_sig m) =
      [\<lparr>item_tag = 2, item_start = length pre + 2, item_len = length r\<rparr>,
       \<lparr>item_tag = 2, item_start = length pre + length (der_integer r) + 2, item_len = length s\<rparr>]"
    by (auto simp: ecdsa_signature_def)
  have ctx_eq: "Ok ctx = Ok \<lparr>ds_sig = copied_32 r @ copied_32 s, ds_seek = 64\<rparr>"
    unfolding ctx(1) [symmetric] at
    by (rule deser_signature [OF _ assms(6) _ assms(8,2) refl refl]) (use assms(5,7) in simp_all)
  have "copied_32 r = raw_32 r" "copied_32 s = raw_32 s" using copied_is_raw assms(5-8) by auto
  moreover have "length (raw_32 r @ raw_32 s) = 64" by (simp add: raw_32_length)
  ultimately show ?thesis using ctx(2) ctx_eq by (simp add: read_mem_def)
qed

lemma x509_accepted_is_signed:
  assumes "cert_x509_verify_mbedtls X C sig cert cert_len cred_array cred_num pk = Ok (pk', True)"
  shows "\<exists>der m p root root_pk tbs raw. read_mem cert (unat cert_len) = Ok der \<and>
    mbedtls_x509_crt_parse_der_nocopy X der = Some m \<and> crt_sig_pk m = MBEDTLS_PK_ECDSA \<and>
    find_issuer_id (crt_issuer m) None = Some p \<and> ca_pk_get cred_array cred_num (advance cert p) = Ok root \<and>
    read_mem (ba_ptr root) (unat (ba_len root)) = Ok root_pk \<and>
    read_mem (advance cert (fst (crt_tbs m))) (snd (crt_tbs m)) = Ok tbs \<and>
    collected_signature X cert der m sig raw \<and>
    crypto_verify C ES256 root_pk tbs raw = Ok True \<and> x509_export_pk X m der cert pk = Ok pk'"
proof -
  obtain pk1 pk1_len where pk': "pk' = (pk1, pk1_len)" by (cases pk')
  have len: "unat (get_signature_len ES256) = 64" by (simp add: get_signature_len_def)
  from assms obtain der m p root root_pk tbs raw ctx hash_len where "read_mem cert (unat cert_len) = Ok der"
    "mbedtls_x509_crt_parse_der_nocopy X der = Some m" "crt_sig_pk m = MBEDTLS_PK_ECDSA"
    "find_issuer_id (crt_issuer m) None = Some p" "ca_pk_get cred_array cred_num (advance cert p) = Ok root"
    "read_mem (ba_ptr root) (unat (ba_len root)) = Ok root_pk"
    "read_mem (advance cert (fst (crt_tbs m))) (snd (crt_tbs m)) = Ok tbs"
    "mbedtls_md_size_from_type X (crt_sig_md m) = Some hash_len"
    "foldR (deser_sign_cb cert hash_len (unat (get_signature_len ES256)))
      (mbedtls_asn1_traverse_sequence_of X der (crt_sig m)) \<lparr>ds_sig = sig, ds_seek = 0\<rparr> = Ok ctx"
    "read_mem (Some (ds_sig ctx)) (unat (get_signature_len ES256)) = Ok raw"
    "crypto_verify C ES256 root_pk tbs raw = Ok True" "x509_export_pk X m der cert pk = Ok (pk1, pk1_len)"
    unfolding pk' cert_x509_verify_mbedtls_def Let_def TRY_eq_Ok TRY_EXPECT_eq_Ok
    by (auto simp: TRY_eq_Ok simp del: alg_consts split: if_splits option.splits)
  then show ?thesis unfolding pk' collected_signature_def len by blast
qed

text \<open>A certificate with the issuer ``A'', a signed part of one byte, a public key of one byte behind the
  byte for the unused bits, and a signature; the library that parses it, and a verifier that accepts
  this signature under the key of the authority only.\<close>

definition toy_r :: bytes where "toy_r = replicate 32 5"
definition toy_s :: bytes where "toy_s = replicate 32 6"

definition toy_certificate :: bytes where
  "toy_certificate = [65, 0, 7] @ der_integer toy_r @ der_integer toy_s"

definition toy_x509 :: mbedtls_x509 where
  "toy_x509 = \<lparr>
     mbedtls_x509_crt_parse_der_nocopy = (\<lambda>der. if length der = 71 then
       Some \<lparr>crt_issuer = [(MBEDTLS_OID_AT_CN, 0)], crt_sig_pk = MBEDTLS_PK_ECDSA,
         crt_sig_md = 6, crt_sig = (3, 68), crt_tbs = (0, 1), crt_pk_raw = (1, 2)\<rparr> else None),
     mbedtls_md_size_from_type = (\<lambda>md. Some 32),
     mbedtls_asn1_traverse_sequence_of = (\<lambda>der s. if s = (3, 68)
       then [\<lparr>item_tag = 2, item_start = 5, item_len = 32\<rparr>, \<lparr>item_tag = 2, item_start = 39, item_len = 32\<rparr>]
       else [\<lparr>item_tag = 3, item_start = 1, item_len = 2\<rparr>])\<rparr>"

definition toy_verifier :: crypto where
  "toy_verifier = \<lparr>crypto_aead = (\<lambda>op inb key nonce aad n t. Undef), crypto_sign = (\<lambda>alg sk pk msg. Undef),
     crypto_verify = (\<lambda>alg pk msg sgn. Ok (pk = [1, 2] \<and> msg = [65] \<and> sgn = toy_r @ toy_s)),
     crypto_hkdf_extract = (\<lambda>alg salt ikm. Undef),
     crypto_hkdf_expand = (\<lambda>alg prk info n. Undef), crypto_hkdf_sha_256 = (\<lambda>secret salt info n. Undef),
     crypto_shared_secret_derive = (\<lambda>alg sk pk. Undef), crypto_hash = (\<lambda>alg inb. Undef)\<rparr>"

definition toy_authority :: other_party_cred where
  "toy_authority = \<lparr>oc_id_cred = NULL_ARRAY, oc_cred = NULL_ARRAY, oc_pk = NULL_ARRAY, oc_g = NULL_ARRAY,
     oc_ca = \<lparr>ba_len = 1, ba_ptr = Some [65]\<rparr>, oc_ca_pk = \<lparr>ba_len = 2, ba_ptr = Some [1, 2]\<rparr>\<rparr>"

text \<open>C17: In the configuration MBEDTLS a peer that identifies itself by an X.509 certificate is accepted
  only if the signature in the certificate verifies, over its signed part, under the key of
  the stored authority that \<open>ca_pk_get\<close> finds for the last common name of the issuer; the key of the
  peer is then the one in the certificate.  The signature that is verified is what the callback
  collects from the certificate: for a hash of 32 bytes and two DER integers of at least 32 bytes
  these are the two numbers, 32 bytes each.\<close>

theorem retrieved_x509_is_signed:
  assumes "retrieve_cred_mbedtls X sig C Z D static_dh creds num id_cred k = Ok k'"
    and "cbor_decode_id_cred_x_map D (Some id_cred) (length id_cred) = Some m"
    and "map_kid m = None" "map_x5u m = None" "map_x5t m = None" "map_c5u m = None" "map_c5t m = None"
    and "map_x5chain m = Some cert \<or> map_x5chain m = None \<and> map_x5bag m = Some cert"
    and "length sig = SIGNATURE_DEFAULT_SIZE"
  shows "\<exists>der crt p root root_pk tbs raw. read_mem (zs_value cert) (unat (zs_len cert)) = Ok der \<and>
    mbedtls_x509_crt_parse_der_nocopy X der = Some crt \<and> crt_sig_pk crt = MBEDTLS_PK_ECDSA \<and>
    find_issuer_id (crt_issuer crt) None = Some p \<and> ca_pk_get creds num (advance (zs_value cert) p) = Ok root \<and>
    read_mem (ba_ptr root) (unat (ba_len root)) = Ok root_pk \<and>
    read_mem (advance (zs_value cert) (fst (crt_tbs crt))) (snd (crt_tbs crt)) = Ok tbs \<and>
    collected_signature X (zs_value cert) der crt sig raw \<and>
    (\<forall>r s. mbedtls_md_size_from_type X (crt_sig_md crt) = Some 32 \<and>
       ecdsa_signature (zs_value cert) (mbedtls_asn1_traverse_sequence_of X der (crt_sig crt)) r s \<and>
       32 \<le> length r \<and> length r < 128 \<and> 32 \<le> length s \<and> length s < 128 \<longrightarrow> raw = raw_32 r @ raw_32 s) \<and>
    crypto_verify C ES256 root_pk tbs raw = Ok True \<and>
    x509_export_pk X crt der (zs_value cert) (if static_dh then pk_g k else pk_pk k) =
      Ok (if static_dh then pk_g k' else pk_pk k')"
proof -
  let ?x = "\<lambda>cert cert_len cred_array cred_num pk (verified :: bool).
      cert_x509_verify_mbedtls X C sig cert cert_len cred_array cred_num pk"
  have len: "length sig = 64" using assms(9) by simp
  have "verify_cert2cred ?x C Z D static_dh creds num
      (if map_x5chain m = None then L_x5bag else L_x5chain) cert k = Ok k'"
    using assms by (auto simp: retrieve_cred_mbedtls_def retrieve_cred_by_def)
  then have "cert_x509_verify_mbedtls X C sig (zs_value cert) (zs_len cert) creds num
      (if static_dh then pk_g k else pk_pk k) = Ok (if static_dh then pk_g k' else pk_pk k', True)"
    by (auto simp: verify_cert2cred_def TRY_eq_Ok Let_def split: prod.splits if_splits)
  from x509_accepted_is_signed [OF this] show ?thesis
    by (elim exE conjE) (intro exI conjI, assumption+, use len in \<open>blast dest: collected_is_raw\<close>, assumption+)
qed

text \<open>The map with the label 33 and the certificate.\<close>

definition toy_x509_id :: bytes where
  "toy_x509_id = [0xA1, 0x18, 33, 0x58, 71] @ toy_certificate"

theorem retrieved_x509_is_signed_witness:
  "\<exists>root_pk tbs raw k'. retrieve_cred_mbedtls toy_x509 (replicate 64 0) toy_verifier rfc8949_zcbor rfc8949_dec False
      [toy_authority] 1 toy_x509_id fresh_keys = Ok k' \<and> root_pk = [1, 2] \<and> tbs = [65] \<and>
    raw = raw_32 toy_r @ raw_32 toy_s \<and> crypto_verify toy_verifier ES256 root_pk tbs raw = Ok True"
proof -
  let ?c = "\<lparr>zs_value = Some toy_certificate, zs_len = 71\<rparr>"
  let ?m = "\<lparr>map_kid = None, map_x5bag = None, map_x5chain = Some ?c,
       map_x5t = None, map_x5u = None, map_c5b = None, map_c5c = None, map_c5t = None, map_c5u = None\<rparr>"
  have dec: "cbor_decode_id_cred_x_map rfc8949_dec (Some toy_x509_id) (length toy_x509_id) = Some ?m"
    by code_simp
  have ok: "is_Ok (retrieve_cred_mbedtls toy_x509 (replicate 64 0) toy_verifier rfc8949_zcbor rfc8949_dec False
      [toy_authority] 1 toy_x509_id fresh_keys)"
    by code_simp
  obtain k' where run: "retrieve_cred_mbedtls toy_x509 (replicate 64 0) toy_verifier rfc8949_zcbor rfc8949_dec False
      [toy_authority] 1 toy_x509_id fresh_keys = Ok k'"
    using ok by (rule is_OkE)
  have len: "length (replicate 64 (0 :: u8)) = SIGNATURE_DEFAULT_SIZE" "length toy_r = 32" "length toy_s = 32"
    "length toy_certificate = 71" by (simp_all add: toy_r_def toy_s_def toy_certificate_def der_integer_def)
  have sgn: "ecdsa_signature (Some toy_certificate)
      [\<lparr>item_tag = 2, item_start = 5, item_len = 32\<rparr>, \<lparr>item_tag = 2, item_start = 39, item_len = 32\<rparr>] toy_r toy_s"
    unfolding ecdsa_signature_def
    by (intro exI [of _ "[65, 0, 7]"] exI [of _ "[]"]) (simp add: toy_certificate_def len der_integer_def)
  have root: "ca_pk_get [toy_authority] 1 (Some toy_certificate) = Ok \<lparr>ba_len = 2, ba_ptr = Some [1, 2]\<rparr>"
    by code_simp
  let ?crt = "\<lparr>crt_issuer = [(MBEDTLS_OID_AT_CN, 0)], crt_sig_pk = MBEDTLS_PK_ECDSA,
     crt_sig_md = 6, crt_sig = (3, 68), crt_tbs = (0, 1), crt_pk_raw = (1, 2)\<rparr>"
  have lib: "mbedtls_x509_crt_parse_der_nocopy toy_x509 toy_certificate = Some ?crt"
    "mbedtls_md_size_from_type toy_x509 md = Some 32"
    "mbedtls_asn1_traverse_sequence_of toy_x509 d (3, 68) =
      [\<lparr>item_tag = 2, item_start = 5, item_len = 32\<rparr>, \<lparr>item_tag = 2, item_start = 39, item_len = 32\<rparr>]" for md d
    using len by (simp_all add: toy_x509_def)
  have reads: "read_mem (Some toy_certificate) 71 = Ok toy_certificate" "read_mem (Some toy_certificate) 1 = Ok [65]"
    "read_mem (Some [1, 2]) 2 = Ok [1, 2]"
    using len(4) by (simp_all add: read_mem_def toy_certificate_def)
  from retrieved_x509_is_signed [OF run dec _ _ _ _ _ _ len(1), of ?c]
  obtain der crt p rt root_pk tbs raw where "read_mem (Some toy_certificate) 71 = Ok der"
    and c: "mbedtls_x509_crt_parse_der_nocopy toy_x509 der = Some crt"
    and i: "find_issuer_id (crt_issuer crt) None = Some p" "ca_pk_get [toy_authority] 1 (advance (Some toy_certificate) p) = Ok rt"
    and rt: "read_mem (ba_ptr rt) (unat (ba_len rt)) = Ok root_pk"
    and t: "read_mem (advance (Some toy_certificate) (fst (crt_tbs crt))) (snd (crt_tbs crt)) = Ok tbs"
    and raw: "\<forall>r s. mbedtls_md_size_from_type toy_x509 (crt_sig_md crt) = Some 32 \<and>
       ecdsa_signature (Some toy_certificate) (mbedtls_asn1_traverse_sequence_of toy_x509 der (crt_sig crt)) r s \<and>
       32 \<le> length r \<and> length r < 128 \<and> 32 \<le> length s \<and> length s < 128 \<longrightarrow> raw = raw_32 r @ raw_32 s"
    and v: "crypto_verify toy_verifier ES256 root_pk tbs raw = Ok True"
    by (simp del: alg_consts) blast
  then have der: "der = toy_certificate" using reads(1) by simp
  then have crt: "crt = ?crt" using c lib(1) by simp
  then have "p = 0" using i(1) by (simp add: find_issuer_id.simps)
  then have "rt = \<lparr>ba_len = 2, ba_ptr = Some [1, 2]\<rparr>" using i(2) root by simp
  then have "root_pk = [1, 2]" using rt reads(3) by simp
  moreover have "tbs = [65]" using t crt reads(2) by simp
  moreover have "raw = raw_32 toy_r @ raw_32 toy_s"
    using raw sgn len(2,3) by (simp add: crt der lib)
  ultimately have "\<exists>root_pk tbs raw. root_pk = [1, 2] \<and> tbs = [65] \<and> raw = raw_32 toy_r @ raw_32 toy_s \<and>
      crypto_verify toy_verifier ES256 root_pk tbs raw = Ok True" using v by blast
  with run show ?thesis by blast
qed

end
