(* ===== verification/Spec2Isabelle.thy ===== *)
theory Spec2Isabelle
  imports Oscore_Options Oscore_Nonce Hkdf_Correct Oscore_Receive Oscore_Parts Oscore_Division Edhoc_Agreement
    Psa_Hkdf Psa_Agreement Edhoc_X509
begin

text \<open>
  The library of \<^verbatim>\<open>src/src\<close> and \<^verbatim>\<open>src/inc\<close>: OSCORE (RFC 8613), which protects CoAP
  packets (RFC 7252) end to end, and EDHOC, the key exchange that can set up its secrets.

  \<^bold>\<open>Conventions.\<close>  A C function is a definition with its name.  It returns a value of \<^verbatim>\<open>'a res\<close>:
  \<^verbatim>\<open>Ok\<close> with the values of the output arguments, \<^verbatim>\<open>Fail\<close> with the error code, or \<^verbatim>\<open>Undef\<close>
  where C gives the program no meaning (a read or write outside an object, NULL dereferenced, an
  uninitialised choice) or where the outcome would depend on addresses.  The macros \<^verbatim>\<open>TRY\<close> and
  \<^verbatim>\<open>TRY_EXPECT\<close> are functions of these names.  Output arguments are modelled for calls that succeed;
  state that survives a failed call (the OSCORE context) is threaded through actions
  \<^verbatim>\<open>('s, 'a) act = 's \<Rightarrow> 'a res \<times> 's\<close>.  Integers have their width (\<^verbatim>\<open>u8\<close> to \<^verbatim>\<open>u64\<close>) and wrap
  around; a pointer is the list of bytes readable from it, or None for NULL; a buffer with its
  length variable is a pair (\<^verbatim>\<open>io_buf\<close>).  Local arrays that C leaves uninitialised and the code may
  read are arguments (\<^verbatim>\<open>protect_locals\<close>, \<^verbatim>\<open>unprotect_locals\<close>, \<^verbatim>\<open>edhoc_locals\<close>), so that the
  properties hold for every content.

  \<^bold>\<open>Parameters.\<close>  \<^verbatim>\<open>crypto\<close> are the functions of \<^verbatim>\<open>crypto_wrapper.h\<close>, which an application may
  replace (they are weak symbols); \<^verbatim>\<open>tinycrypt_crypto\<close> is the instance the library compiles with
  TINYCRYPT.  \<^verbatim>\<open>psa\<close>, \<^verbatim>\<open>mbedtls_mpi\<close>, \<^verbatim>\<open>mbedtls_ecp\<close> and \<^verbatim>\<open>mbedtls_x509\<close> are the functions of mbedtls,
  which keeps keys in a store: its state is a type variable, and the laws about the store are named
  hypotheses with instances, \<^verbatim>\<open>slot_psa\<close> and, with the policies of keys enforced,
  \<^verbatim>\<open>policy_psa\<close>.  \<^verbatim>\<open>zcbor\<close> and \<^verbatim>\<open>zcbor_dec\<close> are the primitive encoders and decoders of the zcbor
  library; \<^verbatim>\<open>zcbor_canonical\<close> states that the encoders write RFC 8949, and \<^verbatim>\<open>rfc8949_zcbor\<close> and
  \<^verbatim>\<open>rfc8949_dec\<close> are executable instances.  \<^verbatim>\<open>tx\<close> and \<^verbatim>\<open>rx\<close> are the functions of the application
  that send and receive.

  \<^bold>\<open>Loops.\<close>  Loops over arrays are folds or recursions with the number of remaining rounds, which is
  the bound of the C loop, so nothing is cut off.  The loops that may not end, in
  \<^verbatim>\<open>hkdf_expand\<close> with TINYCRYPT and in \<^verbatim>\<open>selected_suite_is_supported\<close>, are modelled as such: the first
  wraps its counter and then writes outside its buffer, which is Undef, the second is a partial
  function whose value None is the run that never ends.

  \<^bold>\<open>Common parts.\<close>
  \<^item> Uoscore_Prelude: outcomes, error codes, memory, actions and the lemmas all theories share.
  \<^item> Byte_Array: \<^verbatim>\<open>byte_array.c\<close> and \<^verbatim>\<open>memcpy_s.c\<close>.
  \<^item> Crypto_Wrapper: \<^verbatim>\<open>crypto_wrapper.c\<close> with TINYCRYPT and COMPACT25519; Hkdf_Correct compares HKDF
    with RFC 5869.
  \<^item> Psa_Wrapper: \<^verbatim>\<open>crypto_wrapper.c\<close> with MBEDTLS.  Psa_Keys: no function leaves a key in the store
    of the library.  Psa_Hkdf: HKDF again, and that both configurations agree.  Ecp_Point:
    decompression finds the point, by a square root modulo the prime.  Psa_Agreement: ephemeral
    keys share a secret on P-256, and do not depend on the seed on X25519.
  \<^item> Cbor_Encode: \<^verbatim>\<open>src/cbor/oscore_*.c\<close> and the laws of the encoders; Cbor_Reference: an
    executable decoder.  Cbor_Reader: the locale of the libraries that follow the executable
    decoder, and that it reads back what the canonical encoders write.

  \<^bold>\<open>OSCORE.\<close>
  \<^item> Coap_Packet (\<^verbatim>\<open>oscore_coap.c\<close>) and Coap_Option (\<^verbatim>\<open>option.c\<close>): packets and their options.
    Option_Codec is the locale of an option format with a reader and a writer; Coap_Correct
    interprets it, proves the round trip of packets and says where options depart from RFC 7252.
  \<^item> Oscore_Context: \<^verbatim>\<open>security_context.c\<close>, \<^verbatim>\<open>nonce.c\<close>, \<^verbatim>\<open>aad.c\<close>, \<^verbatim>\<open>oscore_hkdf_info.c\<close>.
    Oscore_Nonce compares nonce and Partial IV with RFC 8613, Oscore_Options the associated data.
  \<^item> Oscore_Cose (\<^verbatim>\<open>oscore_cose.c\<close>), Oscore_Protect (\<^verbatim>\<open>coap2oscore.c\<close>), Replay_Window and
    Oscore_Unprotect (\<^verbatim>\<open>oscore2coap.c\<close>).
  \<^item> Oscore_Invariant: every reachable context is well formed.  Oscore_Wire: the packet that a call
    of \<^verbatim>\<open>coap2oscore\<close> sends, with the Partial IV in its OSCORE option and the plaintext sealed in its
    payload.  Oscore_Session: two endpoints agree, and the Partial IVs sent in a session differ.
    Oscore_Receive: what is accepted and refused, and that what is returned was decrypted.
    Oscore_Parts and Oscore_Division: the OSCORE option, the order and the division of options, whose
    numbers the code keeps in 8 bits.

  \<^bold>\<open>EDHOC.\<close>
  \<^item> Edhoc_Cbor_Encode and Edhoc_Cbor_Decode: \<^verbatim>\<open>src/cbor/edhoc_*.c\<close>.
  \<^item> Edhoc_Keys: suites, methods, connection identifiers, key schedule, transcript hashes;
    Edhoc_Suites: when the search for the selected suite ends.
  \<^item> Edhoc_Auth: \<^verbatim>\<open>signature_or_mac_msg.c\<close>, \<^verbatim>\<open>cert.c\<close>, \<^verbatim>\<open>retrieve_cred.c\<close>.  Edhoc_Auth_Correct:
    what verification accepts; Edhoc_Credentials: which credential and which authority are taken.
  \<^item> Edhoc_X509: X.509 certificates in \<^verbatim>\<open>cert.c\<close> with MBEDTLS: what is accepted, and how the signature
    is taken from its ASN.1 form.
  \<^item> Edhoc_Ciphertext: \<^verbatim>\<open>plaintext_*.c\<close> and \<^verbatim>\<open>ciphertext.c\<close>.
  \<^item> Edhoc_Protocol: \<^verbatim>\<open>initiator.c\<close> and \<^verbatim>\<open>responder.c\<close>, both roles from the first to the last message.
    Edhoc_Channel is the application around a run, Edhoc_Example executes a complete exchange,
    Edhoc_Runs says what holds at the end of a run: what was verified before a role goes on, and the
    attack with an empty MAC that the comparison of MACs permits.
  \<^item> Edhoc_Messages: the bytes of the messages and what the other side parses from them.
    Edhoc_Agreement: two honest endpoints end with the same keys.

  The buffer sizes of EDHOC are those of the configuration EDHOC_BUF_SIZES_X509_CERT.

  \<^bold>\<open>Configurations.\<close>  The protocols above the wrappers take the record \<^verbatim>\<open>crypto\<close>, whose functions have
  no state; the wrappers of Psa_Wrapper have one and are proved on their own.  \<^verbatim>\<open>retrieve_cred.c\<close>
  takes the X.509 function of the configuration (\<^verbatim>\<open>retrieve_cred_by\<close>): the runs of the protocol use
  the one without MBEDTLS, which does nothing, and Edhoc_X509 the other.  Defining both TINYCRYPT and MBEDTLS is not modelled.

  \<^bold>\<open>Not modelled.\<close>  Printing; the headers that only declare functions; the samples (sockets and
  threads around calls of the library) and the tests with their vectors.
\<close>

end
